(* ===== verification/Mqtt_Types.thy ===== *)
theory Mqtt_Types
  imports Mqtt_Prelude
begin

text \<open>
  The data types of \<open>mqtt5-protocol\<close> that every component shares: reason codes
  (\<open>protocol/v5/reason_codes.rs\<close>), errors (\<open>error.rs\<close>), protocol versions and quality of
  service (\<open>types/mod.rs\<close>), packet types (\<open>packet.rs\<close>), header flags (\<open>flags.rs\<close>) and
  properties (\<open>protocol/v5/properties/mod.rs\<close>), each enumeration with the conversions the
  sources define on it.

  The diagnostic strings that some \<open>MqttError\<close> variants carry are not modelled: such a variant
  is a constructor without argument. Numeric and enumeration payloads are kept.
\<close>

subsection \<open>Reason codes\<close>

datatype (plugins only: code size) ReasonCode =
    Success | GrantedQoS1 | GrantedQoS2 | DisconnectWithWillMessage | NoMatchingSubscribers
  | NoSubscriptionExisted | ContinueAuthentication | ReAuthenticate | UnspecifiedError
  | MalformedPacket | ProtocolError | ImplementationSpecificError
  | UnsupportedProtocolVersion | ClientIdentifierNotValid | BadUsernameOrPassword
  | NotAuthorized | ServerUnavailable | ServerBusy | Banned | ServerShuttingDown
  | BadAuthenticationMethod | KeepAliveTimeout | SessionTakenOver | TopicFilterInvalid
  | TopicNameInvalid | PacketIdentifierInUse | PacketIdentifierNotFound
  | ReceiveMaximumExceeded | TopicAliasInvalid | PacketTooLarge | MessageRateTooHigh
  | QuotaExceeded | AdministrativeAction | PayloadFormatInvalid | RetainNotSupported
  | QoSNotSupported | UseAnotherServer | ServerMoved | SharedSubscriptionsNotSupported
  | ConnectionRateExceeded | MaximumConnectTime | SubscriptionIdentifiersNotSupported
  | WildcardSubscriptionsNotSupported | MqoqNoFlowState | MqoqNotFlowOwner
  | MqoqStreamTypeError | MqoqBadFlowId | MqoqPersistentTopic | MqoqPersistentSubError
  | MqoqOptionalHeader | MqoqIncompletePacket | MqoqFlowOpenIdle | MqoqFlowCancelled
  | MqoqFlowPacketCancelled | MqoqFlowRefused | MqoqDiscardState | MqoqServerPushNotWelcome
  | MqoqRecoveryFailed

definition NORMAL_DISCONNECTION :: ReasonCode where
  "NORMAL_DISCONNECTION = ReasonCode.Success"

text \<open>\<open>From<ReasonCode> for u8\<close>: the discriminants of the enumeration.\<close>

primrec ReasonCode_to_u8 :: "ReasonCode \<Rightarrow> u8" where
  "ReasonCode_to_u8 ReasonCode.Success = 0x00"
| "ReasonCode_to_u8 ReasonCode.GrantedQoS1 = 0x01"
| "ReasonCode_to_u8 ReasonCode.GrantedQoS2 = 0x02"
| "ReasonCode_to_u8 ReasonCode.DisconnectWithWillMessage = 0x04"
| "ReasonCode_to_u8 ReasonCode.NoMatchingSubscribers = 0x10"
| "ReasonCode_to_u8 ReasonCode.NoSubscriptionExisted = 0x11"
| "ReasonCode_to_u8 ReasonCode.ContinueAuthentication = 0x18"
| "ReasonCode_to_u8 ReasonCode.ReAuthenticate = 0x19"
| "ReasonCode_to_u8 ReasonCode.UnspecifiedError = 0x80"
| "ReasonCode_to_u8 ReasonCode.MalformedPacket = 0x81"
| "ReasonCode_to_u8 ReasonCode.ProtocolError = 0x82"
| "ReasonCode_to_u8 ReasonCode.ImplementationSpecificError = 0x83"
| "ReasonCode_to_u8 ReasonCode.UnsupportedProtocolVersion = 0x84"
| "ReasonCode_to_u8 ReasonCode.ClientIdentifierNotValid = 0x85"
| "ReasonCode_to_u8 ReasonCode.BadUsernameOrPassword = 0x86"
| "ReasonCode_to_u8 ReasonCode.NotAuthorized = 0x87"
| "ReasonCode_to_u8 ReasonCode.ServerUnavailable = 0x88"
| "ReasonCode_to_u8 ReasonCode.ServerBusy = 0x89"
| "ReasonCode_to_u8 ReasonCode.Banned = 0x8A"
| "ReasonCode_to_u8 ReasonCode.ServerShuttingDown = 0x8B"
| "ReasonCode_to_u8 ReasonCode.BadAuthenticationMethod = 0x8C"
| "ReasonCode_to_u8 ReasonCode.KeepAliveTimeout = 0x8D"
| "ReasonCode_to_u8 ReasonCode.SessionTakenOver = 0x8E"
| "ReasonCode_to_u8 ReasonCode.TopicFilterInvalid = 0x8F"
| "ReasonCode_to_u8 ReasonCode.TopicNameInvalid = 0x90"
| "ReasonCode_to_u8 ReasonCode.PacketIdentifierInUse = 0x91"
| "ReasonCode_to_u8 ReasonCode.PacketIdentifierNotFound = 0x92"
| "ReasonCode_to_u8 ReasonCode.ReceiveMaximumExceeded = 0x93"
| "ReasonCode_to_u8 ReasonCode.TopicAliasInvalid = 0x94"
| "ReasonCode_to_u8 ReasonCode.PacketTooLarge = 0x95"
| "ReasonCode_to_u8 ReasonCode.MessageRateTooHigh = 0x96"
| "ReasonCode_to_u8 ReasonCode.QuotaExceeded = 0x97"
| "ReasonCode_to_u8 ReasonCode.AdministrativeAction = 0x98"
| "ReasonCode_to_u8 ReasonCode.PayloadFormatInvalid = 0x99"
| "ReasonCode_to_u8 ReasonCode.RetainNotSupported = 0x9A"
| "ReasonCode_to_u8 ReasonCode.QoSNotSupported = 0x9B"
| "ReasonCode_to_u8 ReasonCode.UseAnotherServer = 0x9C"
| "ReasonCode_to_u8 ReasonCode.ServerMoved = 0x9D"
| "ReasonCode_to_u8 ReasonCode.SharedSubscriptionsNotSupported = 0x9E"
| "ReasonCode_to_u8 ReasonCode.ConnectionRateExceeded = 0x9F"
| "ReasonCode_to_u8 ReasonCode.MaximumConnectTime = 0xA0"
| "ReasonCode_to_u8 ReasonCode.SubscriptionIdentifiersNotSupported = 0xA1"
| "ReasonCode_to_u8 ReasonCode.WildcardSubscriptionsNotSupported = 0xA2"
| "ReasonCode_to_u8 ReasonCode.MqoqNoFlowState = 0xB3"
| "ReasonCode_to_u8 ReasonCode.MqoqNotFlowOwner = 0xB4"
| "ReasonCode_to_u8 ReasonCode.MqoqStreamTypeError = 0xB5"
| "ReasonCode_to_u8 ReasonCode.MqoqBadFlowId = 0xB6"
| "ReasonCode_to_u8 ReasonCode.MqoqPersistentTopic = 0xB7"
| "ReasonCode_to_u8 ReasonCode.MqoqPersistentSubError = 0xB8"
| "ReasonCode_to_u8 ReasonCode.MqoqOptionalHeader = 0xB9"
| "ReasonCode_to_u8 ReasonCode.MqoqIncompletePacket = 0xBA"
| "ReasonCode_to_u8 ReasonCode.MqoqFlowOpenIdle = 0xBB"
| "ReasonCode_to_u8 ReasonCode.MqoqFlowCancelled = 0xBC"
| "ReasonCode_to_u8 ReasonCode.MqoqFlowPacketCancelled = 0xBD"
| "ReasonCode_to_u8 ReasonCode.MqoqFlowRefused = 0xBE"
| "ReasonCode_to_u8 ReasonCode.MqoqDiscardState = 0xBF"
| "ReasonCode_to_u8 ReasonCode.MqoqServerPushNotWelcome = 0xC0"
| "ReasonCode_to_u8 ReasonCode.MqoqRecoveryFailed = 0xC1"

definition ReasonCode_is_error :: "ReasonCode \<Rightarrow> bool" where
  "ReasonCode_is_error c \<longleftrightarrow> 0x80 \<le> ReasonCode_to_u8 c"

definition ReasonCode_from_u8 :: "u8 \<Rightarrow> ReasonCode option" where
  "ReasonCode_from_u8 value = map_of
     [(0x00, ReasonCode.Success),
      (0x01, ReasonCode.GrantedQoS1),
      (0x02, ReasonCode.GrantedQoS2),
      (0x04, ReasonCode.DisconnectWithWillMessage),
      (0x10, ReasonCode.NoMatchingSubscribers),
      (0x11, ReasonCode.NoSubscriptionExisted),
      (0x18, ReasonCode.ContinueAuthentication),
      (0x19, ReasonCode.ReAuthenticate),
      (0x80, ReasonCode.UnspecifiedError),
      (0x81, ReasonCode.MalformedPacket),
      (0x82, ReasonCode.ProtocolError),
      (0x83, ReasonCode.ImplementationSpecificError),
      (0x84, ReasonCode.UnsupportedProtocolVersion),
      (0x85, ReasonCode.ClientIdentifierNotValid),
      (0x86, ReasonCode.BadUsernameOrPassword),
      (0x87, ReasonCode.NotAuthorized),
      (0x88, ReasonCode.ServerUnavailable),
      (0x89, ReasonCode.ServerBusy),
      (0x8A, ReasonCode.Banned),
      (0x8B, ReasonCode.ServerShuttingDown),
      (0x8C, ReasonCode.BadAuthenticationMethod),
      (0x8D, ReasonCode.KeepAliveTimeout),
      (0x8E, ReasonCode.SessionTakenOver),
      (0x8F, ReasonCode.TopicFilterInvalid),
      (0x90, ReasonCode.TopicNameInvalid),
      (0x91, ReasonCode.PacketIdentifierInUse),
      (0x92, ReasonCode.PacketIdentifierNotFound),
      (0x93, ReasonCode.ReceiveMaximumExceeded),
      (0x94, ReasonCode.TopicAliasInvalid),
      (0x95, ReasonCode.PacketTooLarge),
      (0x96, ReasonCode.MessageRateTooHigh),
      (0x97, ReasonCode.QuotaExceeded),
      (0x98, ReasonCode.AdministrativeAction),
      (0x99, ReasonCode.PayloadFormatInvalid),
      (0x9A, ReasonCode.RetainNotSupported),
      (0x9B, ReasonCode.QoSNotSupported),
      (0x9C, ReasonCode.UseAnotherServer),
      (0x9D, ReasonCode.ServerMoved),
      (0x9E, ReasonCode.SharedSubscriptionsNotSupported),
      (0x9F, ReasonCode.ConnectionRateExceeded),
      (0xA0, ReasonCode.MaximumConnectTime),
      (0xA1, ReasonCode.SubscriptionIdentifiersNotSupported),
      (0xA2, ReasonCode.WildcardSubscriptionsNotSupported),
      (0xB3, ReasonCode.MqoqNoFlowState),
      (0xB4, ReasonCode.MqoqNotFlowOwner),
      (0xB5, ReasonCode.MqoqStreamTypeError),
      (0xB6, ReasonCode.MqoqBadFlowId),
      (0xB7, ReasonCode.MqoqPersistentTopic),
      (0xB8, ReasonCode.MqoqPersistentSubError),
      (0xB9, ReasonCode.MqoqOptionalHeader),
      (0xBA, ReasonCode.MqoqIncompletePacket),
      (0xBB, ReasonCode.MqoqFlowOpenIdle),
      (0xBC, ReasonCode.MqoqFlowCancelled),
      (0xBD, ReasonCode.MqoqFlowPacketCancelled),
      (0xBE, ReasonCode.MqoqFlowRefused),
      (0xBF, ReasonCode.MqoqDiscardState),
      (0xC0, ReasonCode.MqoqServerPushNotWelcome),
      (0xC1, ReasonCode.MqoqRecoveryFailed)] value"

subsection \<open>SUBACK codes and errors\<close>

datatype (plugins only: code size) SubAckReasonCode =
    GrantedQoS0 | GrantedQoS1 | GrantedQoS2 | UnspecifiedError | ImplementationSpecificError
  | NotAuthorized | TopicFilterInvalid | PacketIdentifierInUse | QuotaExceeded
  | SharedSubscriptionsNotSupported | SubscriptionIdentifiersNotSupported
  | WildcardSubscriptionsNotSupported

primrec SubAckReasonCode_to_u8 :: "SubAckReasonCode \<Rightarrow> u8" where
  "SubAckReasonCode_to_u8 SubAckReasonCode.GrantedQoS0 = 0x00"
| "SubAckReasonCode_to_u8 SubAckReasonCode.GrantedQoS1 = 0x01"
| "SubAckReasonCode_to_u8 SubAckReasonCode.GrantedQoS2 = 0x02"
| "SubAckReasonCode_to_u8 SubAckReasonCode.UnspecifiedError = 0x80"
| "SubAckReasonCode_to_u8 SubAckReasonCode.ImplementationSpecificError = 0x83"
| "SubAckReasonCode_to_u8 SubAckReasonCode.NotAuthorized = 0x87"
| "SubAckReasonCode_to_u8 SubAckReasonCode.TopicFilterInvalid = 0x8F"
| "SubAckReasonCode_to_u8 SubAckReasonCode.PacketIdentifierInUse = 0x91"
| "SubAckReasonCode_to_u8 SubAckReasonCode.QuotaExceeded = 0x97"
| "SubAckReasonCode_to_u8 SubAckReasonCode.SharedSubscriptionsNotSupported = 0x9E"
| "SubAckReasonCode_to_u8 SubAckReasonCode.SubscriptionIdentifiersNotSupported = 0xA1"
| "SubAckReasonCode_to_u8 SubAckReasonCode.WildcardSubscriptionsNotSupported = 0xA2"

definition SubAckReasonCode_from_u8 :: "u8 \<Rightarrow> SubAckReasonCode option" where
  "SubAckReasonCode_from_u8 value = map_of
     [(0x00, SubAckReasonCode.GrantedQoS0),
      (0x01, SubAckReasonCode.GrantedQoS1),
      (0x02, SubAckReasonCode.GrantedQoS2),
      (0x80, SubAckReasonCode.UnspecifiedError),
      (0x83, SubAckReasonCode.ImplementationSpecificError),
      (0x87, SubAckReasonCode.NotAuthorized),
      (0x8F, SubAckReasonCode.TopicFilterInvalid),
      (0x91, SubAckReasonCode.PacketIdentifierInUse),
      (0x97, SubAckReasonCode.QuotaExceeded),
      (0x9E, SubAckReasonCode.SharedSubscriptionsNotSupported),
      (0xA1, SubAckReasonCode.SubscriptionIdentifiersNotSupported),
      (0xA2, SubAckReasonCode.WildcardSubscriptionsNotSupported)] value"

datatype (plugins only: code size) MqttError =
    Io | InvalidTopicName | InvalidTopicFilter | InvalidClientId | ConnectionError
  | ConnectionRefused ReasonCode | ServerDisconnect ReasonCode | ProtocolError
  | MalformedPacket | PacketTooLarge nat nat | AuthenticationFailed | NotAuthorized
  | NotConnected | AlreadyConnected | Timeout | SubscriptionFailed ReasonCode
  | SubscriptionDenied SubAckReasonCode | UnsubscriptionFailed ReasonCode
  | PublishFailed ReasonCode | PacketIdNotFound u16 | PacketIdInUse u16 | InvalidQoS u8
  | InvalidPacketType u8 | InvalidReasonCode u8 | InvalidPropertyId u8
  | DuplicatePropertyId u8 | SessionExpired | KeepAliveTimeout | ServerShuttingDown
  | ClientClosed | ConnectionClosedByPeer | MaxConnectTime | TopicAliasInvalid u16
  | ReceiveMaximumExceeded | WillRejected | ImplementationSpecific
  | UnsupportedProtocolVersion | InvalidState | ClientIdentifierNotValid
  | BadUsernameOrPassword | ServerUnavailable | ServerBusy | Banned | BadAuthenticationMethod
  | QuotaExceeded | PayloadFormatInvalid | RetainNotSupported | QoSNotSupported
  | UseAnotherServer | ServerMoved | SharedSubscriptionsNotSupported | ConnectionRateExceeded
  | SubscriptionIdentifiersNotSupported | WildcardSubscriptionsNotSupported | MessageTooLarge
  | FlowControlExceeded | PacketIdExhausted | OfflineQueueFull nat nat | StringTooLong nat
  | Configuration

type_synonym 'a result = "MqttError + 'a"

subsection \<open>Protocol versions and quality of service\<close>

datatype ProtocolVersion = V311 | V5

primrec ProtocolVersion_as_u8 :: "ProtocolVersion \<Rightarrow> u8" where
  "ProtocolVersion_as_u8 V311 = 4"
| "ProtocolVersion_as_u8 V5 = 5"

definition ProtocolVersion_try_from :: "u8 \<Rightarrow> ProtocolVersion option" where
  "ProtocolVersion_try_from value =
     (if value = 4 then Some V311 else if value = 5 then Some V5 else None)"

datatype QoS = AtMostOnce | AtLeastOnce | ExactlyOnce

primrec QoS_to_u8 :: "QoS \<Rightarrow> u8" where
  "QoS_to_u8 AtMostOnce = 0"
| "QoS_to_u8 AtLeastOnce = 1"
| "QoS_to_u8 ExactlyOnce = 2"

definition QoS_from_u8 :: "u8 \<Rightarrow> QoS" where
  "QoS_from_u8 value =
     (if value = 1 then AtLeastOnce else if value = 2 then ExactlyOnce else AtMostOnce)"

definition SubAckReasonCode_from_qos :: "QoS \<Rightarrow> SubAckReasonCode" where
  "SubAckReasonCode_from_qos qos =
     (case qos of
        AtMostOnce \<Rightarrow> SubAckReasonCode.GrantedQoS0
      | AtLeastOnce \<Rightarrow> SubAckReasonCode.GrantedQoS1
      | ExactlyOnce \<Rightarrow> SubAckReasonCode.GrantedQoS2)"

definition SubAckReasonCode_is_success :: "SubAckReasonCode \<Rightarrow> bool" where
  "SubAckReasonCode_is_success c \<longleftrightarrow>
     c \<in> {SubAckReasonCode.GrantedQoS0, SubAckReasonCode.GrantedQoS1,
           SubAckReasonCode.GrantedQoS2}"

subsection \<open>Packet types and header flags\<close>

datatype PacketType =
    Connect | ConnAck | Publish | PubAck | PubRec | PubRel | PubComp | Subscribe | SubAck
  | Unsubscribe | UnsubAck | PingReq | PingResp | Disconnect | Auth

primrec PacketType_to_u8 :: "PacketType \<Rightarrow> u8" where
  "PacketType_to_u8 PacketType.Connect = 1"
| "PacketType_to_u8 PacketType.ConnAck = 2"
| "PacketType_to_u8 PacketType.Publish = 3"
| "PacketType_to_u8 PacketType.PubAck = 4"
| "PacketType_to_u8 PacketType.PubRec = 5"
| "PacketType_to_u8 PacketType.PubRel = 6"
| "PacketType_to_u8 PacketType.PubComp = 7"
| "PacketType_to_u8 PacketType.Subscribe = 8"
| "PacketType_to_u8 PacketType.SubAck = 9"
| "PacketType_to_u8 PacketType.Unsubscribe = 10"
| "PacketType_to_u8 PacketType.UnsubAck = 11"
| "PacketType_to_u8 PacketType.PingReq = 12"
| "PacketType_to_u8 PacketType.PingResp = 13"
| "PacketType_to_u8 PacketType.Disconnect = 14"
| "PacketType_to_u8 PacketType.Auth = 15"

datatype ConnectFlags =
    Reserved | CleanStart | WillFlag | WillQoS0 | WillQoS1 | WillRetain | PasswordFlag
  | UsernameFlag

primrec ConnectFlags_to_u8 :: "ConnectFlags \<Rightarrow> u8" where
  "ConnectFlags_to_u8 ConnectFlags.Reserved = 0x01"
| "ConnectFlags_to_u8 ConnectFlags.CleanStart = 0x02"
| "ConnectFlags_to_u8 ConnectFlags.WillFlag = 0x04"
| "ConnectFlags_to_u8 ConnectFlags.WillQoS0 = 0x08"
| "ConnectFlags_to_u8 ConnectFlags.WillQoS1 = 0x10"
| "ConnectFlags_to_u8 ConnectFlags.WillRetain = 0x20"
| "ConnectFlags_to_u8 ConnectFlags.PasswordFlag = 0x40"
| "ConnectFlags_to_u8 ConnectFlags.UsernameFlag = 0x80"

datatype PublishFlags =
    Retain | QoS0 | QoS1 | Dup

primrec PublishFlags_to_u8 :: "PublishFlags \<Rightarrow> u8" where
  "PublishFlags_to_u8 PublishFlags.Retain = 0x01"
| "PublishFlags_to_u8 PublishFlags.QoS0 = 0x02"
| "PublishFlags_to_u8 PublishFlags.QoS1 = 0x04"
| "PublishFlags_to_u8 PublishFlags.Dup = 0x08"

datatype ConnAckFlags =
    SessionPresent

primrec ConnAckFlags_to_u8 :: "ConnAckFlags \<Rightarrow> u8" where
  "ConnAckFlags_to_u8 ConnAckFlags.SessionPresent = 0x01"

definition ConnectFlags_extract_will_qos :: "u8 \<Rightarrow> u8" where
  "ConnectFlags_extract_will_qos flags = drop_bit 3 flags AND 0x03"

definition ConnectFlags_with_will_qos :: "u8 \<Rightarrow> u8 \<Rightarrow> u8" where
  "ConnectFlags_with_will_qos flags qos =
     (flags AND NOT 0x18) OR push_bit 3 (qos AND 0x03)"

definition PublishFlags_extract_qos :: "u8 \<Rightarrow> u8" where
  "PublishFlags_extract_qos flags = drop_bit 1 flags AND 0x03"

definition PublishFlags_with_qos :: "u8 \<Rightarrow> u8 \<Rightarrow> u8" where
  "PublishFlags_with_qos flags qos =
     (flags AND NOT 0x06) OR push_bit 1 (qos AND 0x03)"

subsection \<open>Property identifiers and values\<close>

datatype (plugins only: code size) PropertyId =
    PayloadFormatIndicator | RequestProblemInformation | RequestResponseInformation
  | MaximumQoS | RetainAvailable | WildcardSubscriptionAvailable
  | SubscriptionIdentifierAvailable | SharedSubscriptionAvailable | ServerKeepAlive
  | ReceiveMaximum | TopicAliasMaximum | TopicAlias | MessageExpiryInterval
  | SessionExpiryInterval | WillDelayInterval | MaximumPacketSize | SubscriptionIdentifier
  | ContentType | ResponseTopic | AssignedClientIdentifier | AuthenticationMethod
  | ResponseInformation | ServerReference | ReasonString | CorrelationData
  | AuthenticationData | UserProperty

primrec PropertyId_to_u8 :: "PropertyId \<Rightarrow> u8" where
  "PropertyId_to_u8 PropertyId.PayloadFormatIndicator = 0x01"
| "PropertyId_to_u8 PropertyId.RequestProblemInformation = 0x17"
| "PropertyId_to_u8 PropertyId.RequestResponseInformation = 0x19"
| "PropertyId_to_u8 PropertyId.MaximumQoS = 0x24"
| "PropertyId_to_u8 PropertyId.RetainAvailable = 0x25"
| "PropertyId_to_u8 PropertyId.WildcardSubscriptionAvailable = 0x28"
| "PropertyId_to_u8 PropertyId.SubscriptionIdentifierAvailable = 0x29"
| "PropertyId_to_u8 PropertyId.SharedSubscriptionAvailable = 0x2A"
| "PropertyId_to_u8 PropertyId.ServerKeepAlive = 0x13"
| "PropertyId_to_u8 PropertyId.ReceiveMaximum = 0x21"
| "PropertyId_to_u8 PropertyId.TopicAliasMaximum = 0x22"
| "PropertyId_to_u8 PropertyId.TopicAlias = 0x23"
| "PropertyId_to_u8 PropertyId.MessageExpiryInterval = 0x02"
| "PropertyId_to_u8 PropertyId.SessionExpiryInterval = 0x11"
| "PropertyId_to_u8 PropertyId.WillDelayInterval = 0x18"
| "PropertyId_to_u8 PropertyId.MaximumPacketSize = 0x27"
| "PropertyId_to_u8 PropertyId.SubscriptionIdentifier = 0x0B"
| "PropertyId_to_u8 PropertyId.ContentType = 0x03"
| "PropertyId_to_u8 PropertyId.ResponseTopic = 0x08"
| "PropertyId_to_u8 PropertyId.AssignedClientIdentifier = 0x12"
| "PropertyId_to_u8 PropertyId.AuthenticationMethod = 0x15"
| "PropertyId_to_u8 PropertyId.ResponseInformation = 0x1A"
| "PropertyId_to_u8 PropertyId.ServerReference = 0x1C"
| "PropertyId_to_u8 PropertyId.ReasonString = 0x1F"
| "PropertyId_to_u8 PropertyId.CorrelationData = 0x09"
| "PropertyId_to_u8 PropertyId.AuthenticationData = 0x16"
| "PropertyId_to_u8 PropertyId.UserProperty = 0x26"

definition PropertyId_from_u8 :: "u8 \<Rightarrow> PropertyId option" where
  "PropertyId_from_u8 value = map_of
     [(0x01, PropertyId.PayloadFormatIndicator),
      (0x02, PropertyId.MessageExpiryInterval),
      (0x03, PropertyId.ContentType),
      (0x08, PropertyId.ResponseTopic),
      (0x09, PropertyId.CorrelationData),
      (0x0B, PropertyId.SubscriptionIdentifier),
      (0x11, PropertyId.SessionExpiryInterval),
      (0x12, PropertyId.AssignedClientIdentifier),
      (0x13, PropertyId.ServerKeepAlive),
      (0x15, PropertyId.AuthenticationMethod),
      (0x16, PropertyId.AuthenticationData),
      (0x17, PropertyId.RequestProblemInformation),
      (0x18, PropertyId.WillDelayInterval),
      (0x19, PropertyId.RequestResponseInformation),
      (0x1A, PropertyId.ResponseInformation),
      (0x1C, PropertyId.ServerReference),
      (0x1F, PropertyId.ReasonString),
      (0x21, PropertyId.ReceiveMaximum),
      (0x22, PropertyId.TopicAliasMaximum),
      (0x23, PropertyId.TopicAlias),
      (0x24, PropertyId.MaximumQoS),
      (0x25, PropertyId.RetainAvailable),
      (0x26, PropertyId.UserProperty),
      (0x27, PropertyId.MaximumPacketSize),
      (0x28, PropertyId.WildcardSubscriptionAvailable),
      (0x29, PropertyId.SubscriptionIdentifierAvailable),
      (0x2A, PropertyId.SharedSubscriptionAvailable)] value"

definition PropertyId_allows_multiple :: "PropertyId \<Rightarrow> bool" where
  "PropertyId_allows_multiple i \<longleftrightarrow>
     i \<in> {PropertyId.UserProperty, PropertyId.SubscriptionIdentifier}"

datatype PropertyValueType =
    Byte | TwoByteInteger | FourByteInteger | VariableByteInteger | BinaryData | Utf8String
  | Utf8StringPair

primrec PropertyId_value_type :: "PropertyId \<Rightarrow> PropertyValueType" where
  "PropertyId_value_type PropertyId.PayloadFormatIndicator = PropertyValueType.Byte"
| "PropertyId_value_type PropertyId.RequestProblemInformation = PropertyValueType.Byte"
| "PropertyId_value_type PropertyId.RequestResponseInformation = PropertyValueType.Byte"
| "PropertyId_value_type PropertyId.MaximumQoS = PropertyValueType.Byte"
| "PropertyId_value_type PropertyId.RetainAvailable = PropertyValueType.Byte"
| "PropertyId_value_type PropertyId.WildcardSubscriptionAvailable = PropertyValueType.Byte"
| "PropertyId_value_type PropertyId.SubscriptionIdentifierAvailable = PropertyValueType.Byte"
| "PropertyId_value_type PropertyId.SharedSubscriptionAvailable = PropertyValueType.Byte"
| "PropertyId_value_type PropertyId.ServerKeepAlive = PropertyValueType.TwoByteInteger"
| "PropertyId_value_type PropertyId.ReceiveMaximum = PropertyValueType.TwoByteInteger"
| "PropertyId_value_type PropertyId.TopicAliasMaximum = PropertyValueType.TwoByteInteger"
| "PropertyId_value_type PropertyId.TopicAlias = PropertyValueType.TwoByteInteger"
| "PropertyId_value_type PropertyId.MessageExpiryInterval = PropertyValueType.FourByteInteger"
| "PropertyId_value_type PropertyId.SessionExpiryInterval = PropertyValueType.FourByteInteger"
| "PropertyId_value_type PropertyId.WillDelayInterval = PropertyValueType.FourByteInteger"
| "PropertyId_value_type PropertyId.MaximumPacketSize = PropertyValueType.FourByteInteger"
| "PropertyId_value_type PropertyId.SubscriptionIdentifier = PropertyValueType.VariableByteInteger"
| "PropertyId_value_type PropertyId.ContentType = PropertyValueType.Utf8String"
| "PropertyId_value_type PropertyId.ResponseTopic = PropertyValueType.Utf8String"
| "PropertyId_value_type PropertyId.AssignedClientIdentifier = PropertyValueType.Utf8String"
| "PropertyId_value_type PropertyId.AuthenticationMethod = PropertyValueType.Utf8String"
| "PropertyId_value_type PropertyId.ResponseInformation = PropertyValueType.Utf8String"
| "PropertyId_value_type PropertyId.ServerReference = PropertyValueType.Utf8String"
| "PropertyId_value_type PropertyId.ReasonString = PropertyValueType.Utf8String"
| "PropertyId_value_type PropertyId.CorrelationData = PropertyValueType.BinaryData"
| "PropertyId_value_type PropertyId.AuthenticationData = PropertyValueType.BinaryData"
| "PropertyId_value_type PropertyId.UserProperty = PropertyValueType.Utf8StringPair"

datatype PropertyValue =
    Byte u8 | TwoByteInteger u16 | FourByteInteger u32 | VariableByteInteger u32
  | BinaryData bytes | Utf8String string | Utf8StringPair string string

primrec PropertyValue_value_type :: "PropertyValue \<Rightarrow> PropertyValueType" where
  "PropertyValue_value_type (PropertyValue.Byte _) = PropertyValueType.Byte"
| "PropertyValue_value_type (PropertyValue.TwoByteInteger _) = PropertyValueType.TwoByteInteger"
| "PropertyValue_value_type (PropertyValue.FourByteInteger _) = PropertyValueType.FourByteInteger"
| "PropertyValue_value_type (PropertyValue.VariableByteInteger _) =
     PropertyValueType.VariableByteInteger"
| "PropertyValue_value_type (PropertyValue.BinaryData _) = PropertyValueType.BinaryData"
| "PropertyValue_value_type (PropertyValue.Utf8String _) = PropertyValueType.Utf8String"
| "PropertyValue_value_type (PropertyValue.Utf8StringPair _ _) = PropertyValueType.Utf8StringPair"

definition PropertyValue_matches_type :: "PropertyValue \<Rightarrow> PropertyValueType \<Rightarrow> bool" where
  "PropertyValue_matches_type v expected \<longleftrightarrow> PropertyValue_value_type v = expected"

text \<open>\<open>Properties\<close> wraps a \<open>HashMap<PropertyId, Vec<PropertyValue>>\<close>.\<close>

type_synonym Properties = "PropertyId \<Rightarrow> PropertyValue list option"

subsection \<open>Subscription option bits, MQTT strings and ping packets\<close>

record SubscriptionOptionsBits =
  sob_reserved_bits :: u8
  sob_retain_handling :: u8
  sob_retain_as_published :: u8
  sob_no_local :: u8
  sob_qos :: u8

record MqttString =
  mqs_length :: u16
  mqs_data :: string

record PingReqPacket =
  pingreq_fixed_header :: u16

record PingRespPacket =
  pingresp_fixed_header :: u16

subsection \<open>Enumerations and their discriminants\<close>

lemma ReasonCode_from_to_u8 [enum_simps]: "ReasonCode_from_u8 (ReasonCode_to_u8 c) = Some c"
  by (cases c) (simp_all add: ReasonCode_from_u8_def)

lemma ReasonCode_from_u8_Some [enum_simps]:
  "ReasonCode_from_u8 b = Some c \<longleftrightarrow> b = ReasonCode_to_u8 c"
proof
  assume "ReasonCode_from_u8 b = Some c"
  then show "b = ReasonCode_to_u8 c"
    unfolding ReasonCode_from_u8_def by (rule map_of_enumD [rotated]) simp
qed (simp add: ReasonCode_from_to_u8)

lemma SubAckReasonCode_from_to_u8 [enum_simps]:
  "SubAckReasonCode_from_u8 (SubAckReasonCode_to_u8 c) = Some c"
  by (cases c) (simp_all add: SubAckReasonCode_from_u8_def)

lemma SubAckReasonCode_from_u8_Some [enum_simps]:
  "SubAckReasonCode_from_u8 b = Some c \<longleftrightarrow> b = SubAckReasonCode_to_u8 c"
proof
  assume "SubAckReasonCode_from_u8 b = Some c"
  then show "b = SubAckReasonCode_to_u8 c"
    unfolding SubAckReasonCode_from_u8_def by (rule map_of_enumD [rotated]) simp
qed (simp add: SubAckReasonCode_from_to_u8)

lemma PropertyId_from_to_u8 [enum_simps]: "PropertyId_from_u8 (PropertyId_to_u8 i) = Some i"
  by (cases i) (simp_all add: PropertyId_from_u8_def)

lemma PropertyId_from_u8_Some [enum_simps]:
  "PropertyId_from_u8 b = Some i \<longleftrightarrow> b = PropertyId_to_u8 i"
proof
  assume "PropertyId_from_u8 b = Some i"
  then show "b = PropertyId_to_u8 i"
    unfolding PropertyId_from_u8_def by (rule map_of_enumD [rotated]) simp
qed (simp add: PropertyId_from_to_u8)

lemma QoS_from_to_u8 [enum_simps]: "QoS_from_u8 (QoS_to_u8 q) = q"
  by (cases q) (simp_all add: QoS_from_u8_def)

lemma ProtocolVersion_try_from_as_u8 [enum_simps]:
  "ProtocolVersion_try_from (ProtocolVersion_as_u8 v) = Some v"
  by (cases v) (simp_all add: ProtocolVersion_try_from_def)

lemma PropertyId_to_u8_less: "PropertyId_to_u8 i < 0x80"
  by (cases i) simp_all

lemma PacketType_to_u8_bounds: "1 \<le> PacketType_to_u8 t" "PacketType_to_u8 t < 16"
  by (cases t; simp)+

lemma PacketType_to_u8_inject [simp]: "PacketType_to_u8 s = PacketType_to_u8 t \<longleftrightarrow> s = t"
  by (cases s; cases t) simp_all

text \<open>\<open>QoS\<close> levels are compared by their numeric value.\<close>

instantiation QoS :: linorder
begin

definition less_eq_QoS :: "QoS \<Rightarrow> QoS \<Rightarrow> bool" where
  "less_eq_QoS p q \<longleftrightarrow> QoS_to_u8 p \<le> QoS_to_u8 q"

definition less_QoS :: "QoS \<Rightarrow> QoS \<Rightarrow> bool" where
  "less_QoS p q \<longleftrightarrow> QoS_to_u8 p < QoS_to_u8 q"

instance
proof
  fix x y z :: QoS
  show "x < y \<longleftrightarrow> x \<le> y \<and> \<not> y \<le> x" "x \<le> x" "x \<le> y \<or> y \<le> x"
    by (auto simp: less_eq_QoS_def less_QoS_def)
  show "x \<le> y \<Longrightarrow> y \<le> z \<Longrightarrow> x \<le> z"
    by (auto simp: less_eq_QoS_def)
  show "x \<le> y \<Longrightarrow> y \<le> x \<Longrightarrow> x = y"
    by (metis QoS_from_to_u8 antisym less_eq_QoS_def)
qed

end

end
