(* ===== verification/Wire_Lib.thy ===== *)
theory Wire_Lib
  imports Mqtt_Types
begin

text \<open>
  The library code the codecs of \<open>mqtt5-protocol\<close> call: the multi-byte accessors of the
  \<open>bytes\<close> crate, the code the \<open>bebytes\<close> derive macro generates for the types that carry
  \<open>#[derive(BeBytes)]\<close>, and the iteration order of a \<open>HashMap\<close>. None of it is part of the
  repository, so each function is a field of the record \<open>wire_ops\<close>, which the codec definitions
  take as their first argument.

  The locale \<open>wire_lib\<close> states what the documentation of these crates promises: integers are
  written and read in big-endian order, a derived structure is the concatenation of its fields in
  declaration order, a derived enumeration converts from its discriminants, \<open>decompose\<close> lists the
  flags whose bit is set, and iteration visits every key of a map exactly once, in any order.
  \<open>ref_ops\<close> is an implementation of the interface; its interpretation shows that the promises
  are consistent.
\<close>

record wire_ops =
  lib_put_u16 :: "u16 \<Rightarrow> bytes"
  lib_put_u32 :: "u32 \<Rightarrow> bytes"
  lib_get_u16 :: "bytes \<Rightarrow> u16"
  lib_get_u32 :: "bytes \<Rightarrow> u32"
  lib_MqttString_to_be_bytes :: "MqttString \<Rightarrow> bytes"
  lib_PacketType_try_from :: "u8 \<Rightarrow> PacketType option"
  lib_ConnectFlags_decompose :: "u8 \<Rightarrow> ConnectFlags list"
  lib_PublishFlags_decompose :: "u8 \<Rightarrow> PublishFlags list"
  lib_ConnAckFlags_decompose :: "u8 \<Rightarrow> ConnAckFlags list"
  lib_SubscriptionOptionsBits_to_be_bytes :: "SubscriptionOptionsBits \<Rightarrow> bytes"
  lib_SubscriptionOptionsBits_try_from_be_bytes :: "bytes \<Rightarrow> (SubscriptionOptionsBits \<times> nat) option"
  lib_PingReqPacket_to_be_bytes :: "PingReqPacket \<Rightarrow> bytes"
  lib_PingReqPacket_try_from_be_bytes :: "bytes \<Rightarrow> (PingReqPacket \<times> nat) option"
  lib_PingRespPacket_to_be_bytes :: "PingRespPacket \<Rightarrow> bytes"
  lib_PingRespPacket_try_from_be_bytes :: "bytes \<Rightarrow> (PingRespPacket \<times> nat) option"
  lib_properties_iter :: "Properties \<Rightarrow> PropertyId list"

subsection \<open>Big-endian integers\<close>

definition be_bytes16 :: "u16 \<Rightarrow> bytes" where
  "be_bytes16 v = [ucast (drop_bit 8 v), ucast v]"

definition be_word16 :: "u8 \<Rightarrow> u8 \<Rightarrow> u16" where
  "be_word16 a b = push_bit 8 (ucast a) OR ucast b"

definition be_bytes32 :: "u32 \<Rightarrow> bytes" where
  "be_bytes32 v =
     [ucast (drop_bit 24 v), ucast (drop_bit 16 v), ucast (drop_bit 8 v), ucast v]"

definition be_word32 :: "u8 \<Rightarrow> u8 \<Rightarrow> u8 \<Rightarrow> u8 \<Rightarrow> u32" where
  "be_word32 a b c d =
     push_bit 24 (ucast a) OR push_bit 16 (ucast b) OR push_bit 8 (ucast c) OR ucast d"

lemma be_word16_be_bytes16: "be_word16 (ucast (drop_bit 8 v)) (ucast v) = v"
  unfolding be_word16_def by (rule bit_word_eqI) (auto simp: bit_simps)

lemma be_word32_be_bytes32:
  "be_word32 (ucast (drop_bit 24 v)) (ucast (drop_bit 16 v)) (ucast (drop_bit 8 v)) (ucast v) = v"
proof (rule bit_word_eqI)
  fix n
  assume "n < LENGTH(32)"
  then show "bit (be_word32 (ucast (drop_bit 24 v)) (ucast (drop_bit 16 v)) (ucast (drop_bit 8 v))
      (ucast v)) n = bit v n"
    by (cases "24 \<le> n"; cases "16 \<le> n"; cases "8 \<le> n")
      (auto simp: be_word32_def bit_simps)
qed

lemma length_be_bytes [simp]: "length (be_bytes16 v) = 2" "length (be_bytes32 w) = 4"
  by (simp_all add: be_bytes16_def be_bytes32_def)

subsection \<open>The documented contract\<close>

locale wire_lib =
  fixes L :: wire_ops
  assumes put_u16_be: "lib_put_u16 L v = be_bytes16 v"
    and put_u32_be: "lib_put_u32 L w = be_bytes32 w"
    and get_u16_be: "lib_get_u16 L (a # b # r) = be_word16 a b"
    and get_u32_be: "lib_get_u32 L (a # b # c # d # r) = be_word32 a b c d"
    and mqtt_string_be:
      "lib_MqttString_to_be_bytes L s = be_bytes16 (mqs_length s) @ bytes_of_string (mqs_data s)"
    and packet_type_try_from:
      "lib_PacketType_try_from L x = Some t \<longleftrightarrow> x = PacketType_to_u8 t"
    and connect_flags_decompose:
      "cf \<in> set (lib_ConnectFlags_decompose L x) \<longleftrightarrow> x AND ConnectFlags_to_u8 cf \<noteq> 0"
    and publish_flags_decompose:
      "pf \<in> set (lib_PublishFlags_decompose L x) \<longleftrightarrow> x AND PublishFlags_to_u8 pf \<noteq> 0"
    and connack_flags_decompose:
      "af \<in> set (lib_ConnAckFlags_decompose L x) \<longleftrightarrow> x AND ConnAckFlags_to_u8 af \<noteq> 0"
    and sub_bits_to_be_bytes:
      "sob_reserved_bits ob < 4 \<Longrightarrow> sob_retain_handling ob < 4 \<Longrightarrow>
       sob_retain_as_published ob < 2 \<Longrightarrow> sob_no_local ob < 2 \<Longrightarrow> sob_qos ob < 4 \<Longrightarrow>
       lib_SubscriptionOptionsBits_to_be_bytes L ob =
         [push_bit 6 (sob_reserved_bits ob) OR push_bit 4 (sob_retain_handling ob)
          OR push_bit 3 (sob_retain_as_published ob) OR push_bit 2 (sob_no_local ob)
          OR sob_qos ob]"
    and sub_bits_try_from:
      "lib_SubscriptionOptionsBits_try_from_be_bytes L (x # r) =
         Some (\<lparr>sob_reserved_bits = drop_bit 6 x AND 3, sob_retain_handling = drop_bit 4 x AND 3,
                sob_retain_as_published = drop_bit 3 x AND 1, sob_no_local = drop_bit 2 x AND 1,
                sob_qos = x AND 3\<rparr>, 1)"
    and pingreq_to_be_bytes:
      "lib_PingReqPacket_to_be_bytes L q = be_bytes16 (pingreq_fixed_header q)"
    and pingreq_try_from:
      "lib_PingReqPacket_try_from_be_bytes L (a # b # r) =
         Some (\<lparr>pingreq_fixed_header = be_word16 a b\<rparr>, 2)"
    and pingreq_try_from_short:
      "length r < 2 \<Longrightarrow> lib_PingReqPacket_try_from_be_bytes L r = None"
    and pingresp_to_be_bytes:
      "lib_PingRespPacket_to_be_bytes L p = be_bytes16 (pingresp_fixed_header p)"
    and pingresp_try_from:
      "lib_PingRespPacket_try_from_be_bytes L (a # b # r) =
         Some (\<lparr>pingresp_fixed_header = be_word16 a b\<rparr>, 2)"
    and pingresp_try_from_short:
      "length r < 2 \<Longrightarrow> lib_PingRespPacket_try_from_be_bytes L r = None"
    and properties_iter_distinct: "distinct (lib_properties_iter L m)"
    and properties_iter_set: "set (lib_properties_iter L m) = dom m"
begin

lemma length_put [simp]:
  "length (lib_put_u16 L v) = 2"
  "length (lib_put_u32 L w) = 4"
  by (simp_all add: put_u16_be put_u32_be)

lemma put_u16_not_Nil [simp]: "lib_put_u16 L v \<noteq> []"
  by (simp add: put_u16_be be_bytes16_def)

lemma get_put_u16 [simp]: "lib_get_u16 L (lib_put_u16 L v @ r) = v"
  by (simp add: put_u16_be be_bytes16_def get_u16_be be_word16_be_bytes16)

lemma get_put_u32 [simp]: "lib_get_u32 L (lib_put_u32 L v @ r) = v"
  by (simp add: put_u32_be be_bytes32_def get_u32_be be_word32_be_bytes32)

lemma PacketType_try_from_to_u8 [simp]:
  "lib_PacketType_try_from L (PacketType_to_u8 t) = Some t"
  by (simp add: packet_type_try_from)

end

subsection \<open>A reference implementation\<close>

definition PropertyId_all :: "PropertyId list" where
  "PropertyId_all =
     [PropertyId.PayloadFormatIndicator, PropertyId.MessageExpiryInterval,
      PropertyId.ContentType, PropertyId.ResponseTopic, PropertyId.CorrelationData,
      PropertyId.SubscriptionIdentifier, PropertyId.SessionExpiryInterval,
      PropertyId.AssignedClientIdentifier, PropertyId.ServerKeepAlive,
      PropertyId.AuthenticationMethod, PropertyId.AuthenticationData,
      PropertyId.RequestProblemInformation, PropertyId.WillDelayInterval,
      PropertyId.RequestResponseInformation, PropertyId.ResponseInformation,
      PropertyId.ServerReference, PropertyId.ReasonString, PropertyId.ReceiveMaximum,
      PropertyId.TopicAliasMaximum, PropertyId.TopicAlias, PropertyId.MaximumQoS,
      PropertyId.RetainAvailable, PropertyId.UserProperty, PropertyId.MaximumPacketSize,
      PropertyId.WildcardSubscriptionAvailable, PropertyId.SubscriptionIdentifierAvailable,
      PropertyId.SharedSubscriptionAvailable]"

definition PacketType_all :: "PacketType list" where
  "PacketType_all =
     [PacketType.Connect, PacketType.ConnAck, PacketType.Publish, PacketType.PubAck,
      PacketType.PubRec, PacketType.PubRel, PacketType.PubComp, PacketType.Subscribe,
      PacketType.SubAck, PacketType.Unsubscribe, PacketType.UnsubAck, PacketType.PingReq,
      PacketType.PingResp, PacketType.Disconnect, PacketType.Auth]"

definition ref_ops :: wire_ops where
  "ref_ops = \<lparr>
     lib_put_u16 = be_bytes16,
     lib_put_u32 = be_bytes32,
     lib_get_u16 = (\<lambda>bs. case bs of a # b # _ \<Rightarrow> be_word16 a b | _ \<Rightarrow> 0),
     lib_get_u32 = (\<lambda>bs. case bs of a # b # c # d # _ \<Rightarrow> be_word32 a b c d | _ \<Rightarrow> 0),
     lib_MqttString_to_be_bytes =
       (\<lambda>s. be_bytes16 (mqs_length s) @ bytes_of_string (mqs_data s)),
     lib_PacketType_try_from = (\<lambda>x. List.find (\<lambda>t. PacketType_to_u8 t = x) PacketType_all),
     lib_ConnectFlags_decompose = (\<lambda>x. filter (\<lambda>f. x AND ConnectFlags_to_u8 f \<noteq> 0)
       [Reserved, CleanStart, WillFlag, WillQoS0, WillQoS1, WillRetain, PasswordFlag,
        UsernameFlag]),
     lib_PublishFlags_decompose = (\<lambda>x. filter (\<lambda>f. x AND PublishFlags_to_u8 f \<noteq> 0)
       [Retain, QoS0, QoS1, Dup]),
     lib_ConnAckFlags_decompose = (\<lambda>x. filter (\<lambda>f. x AND ConnAckFlags_to_u8 f \<noteq> 0)
       [SessionPresent]),
     lib_SubscriptionOptionsBits_to_be_bytes = (\<lambda>b.
       [push_bit 6 (sob_reserved_bits b) OR push_bit 4 (sob_retain_handling b)
        OR push_bit 3 (sob_retain_as_published b) OR push_bit 2 (sob_no_local b)
        OR sob_qos b]),
     lib_SubscriptionOptionsBits_try_from_be_bytes = (\<lambda>bs. case bs of [] \<Rightarrow> None
       | x # _ \<Rightarrow> Some (\<lparr>sob_reserved_bits = drop_bit 6 x AND 3,
           sob_retain_handling = drop_bit 4 x AND 3,
           sob_retain_as_published = drop_bit 3 x AND 1, sob_no_local = drop_bit 2 x AND 1,
           sob_qos = x AND 3\<rparr>, 1)),
     lib_PingReqPacket_to_be_bytes = (\<lambda>p. be_bytes16 (pingreq_fixed_header p)),
     lib_PingReqPacket_try_from_be_bytes = (\<lambda>bs. case bs of
       a # b # _ \<Rightarrow> Some (\<lparr>pingreq_fixed_header = be_word16 a b\<rparr>, 2) | _ \<Rightarrow> None),
     lib_PingRespPacket_to_be_bytes = (\<lambda>p. be_bytes16 (pingresp_fixed_header p)),
     lib_PingRespPacket_try_from_be_bytes = (\<lambda>bs. case bs of
       a # b # _ \<Rightarrow> Some (\<lparr>pingresp_fixed_header = be_word16 a b\<rparr>, 2) | _ \<Rightarrow> None),
     lib_properties_iter = (\<lambda>m. filter (\<lambda>i. m i \<noteq> None) PropertyId_all)\<rparr>"

lemma set_PropertyId_all [simp]: "i \<in> set PropertyId_all"
  by (cases i) (simp_all add: PropertyId_all_def)

lemma distinct_PropertyId_all [simp]: "distinct PropertyId_all"
  by (simp add: PropertyId_all_def)

lemma find_PacketType:
  "List.find (\<lambda>t. PacketType_to_u8 t = x) PacketType_all = Some t \<longleftrightarrow> x = PacketType_to_u8 t"
proof
  assume "x = PacketType_to_u8 t"
  then show "List.find (\<lambda>t. PacketType_to_u8 t = x) PacketType_all = Some t"
    by (cases t) (simp_all add: PacketType_all_def)
qed (auto simp: find_Some_iff)

interpretation ref: wire_lib ref_ops
proof
  fix x t
  show "lib_PacketType_try_from ref_ops x = Some t \<longleftrightarrow> x = PacketType_to_u8 t"
    by (simp add: ref_ops_def find_PacketType)
next
  fix cf x
  show "cf \<in> set (lib_ConnectFlags_decompose ref_ops x) \<longleftrightarrow> x AND ConnectFlags_to_u8 cf \<noteq> 0"
    by (cases cf) (simp_all add: ref_ops_def)
next
  fix pf x
  show "pf \<in> set (lib_PublishFlags_decompose ref_ops x) \<longleftrightarrow> x AND PublishFlags_to_u8 pf \<noteq> 0"
    by (cases pf) (simp_all add: ref_ops_def)
next
  fix af x
  show "af \<in> set (lib_ConnAckFlags_decompose ref_ops x) \<longleftrightarrow> x AND ConnAckFlags_to_u8 af \<noteq> 0"
    by (cases af) (simp_all add: ref_ops_def)
next
  fix r :: bytes
  assume "length r < 2"
  then show "lib_PingReqPacket_try_from_be_bytes ref_ops r = None"
    and "lib_PingRespPacket_try_from_be_bytes ref_ops r = None"
    by (auto simp: ref_ops_def split: list.splits)
qed (auto simp: ref_ops_def)

lemmas wire_lib_ref_ops = ref.wire_lib_axioms

lemma ref_ops_sel [eval_simps]:
  "lib_put_u16 ref_ops = be_bytes16"
  "lib_put_u32 ref_ops = be_bytes32"
  "lib_get_u16 ref_ops = (\<lambda>bs. case bs of a # b # _ \<Rightarrow> be_word16 a b | _ \<Rightarrow> 0)"
  "lib_get_u32 ref_ops = (\<lambda>bs. case bs of a # b # c # d # _ \<Rightarrow> be_word32 a b c d | _ \<Rightarrow> 0)"
  "lib_MqttString_to_be_bytes ref_ops = (\<lambda>s. be_bytes16 (mqs_length s) @ bytes_of_string (mqs_data s))"
  "lib_PacketType_try_from ref_ops = (\<lambda>x. List.find (\<lambda>t. PacketType_to_u8 t = x) PacketType_all)"
  "lib_ConnectFlags_decompose ref_ops = (\<lambda>x. filter (\<lambda>f. x AND ConnectFlags_to_u8 f \<noteq> 0)
       [Reserved, CleanStart, WillFlag, WillQoS0, WillQoS1, WillRetain, PasswordFlag,
        UsernameFlag])"
  "lib_PublishFlags_decompose ref_ops = (\<lambda>x. filter (\<lambda>f. x AND PublishFlags_to_u8 f \<noteq> 0)
       [Retain, QoS0, QoS1, Dup])"
  "lib_ConnAckFlags_decompose ref_ops = (\<lambda>x. filter (\<lambda>f. x AND ConnAckFlags_to_u8 f \<noteq> 0)
       [SessionPresent])"
  "lib_SubscriptionOptionsBits_to_be_bytes ref_ops = (\<lambda>b.
       [push_bit 6 (sob_reserved_bits b) OR push_bit 4 (sob_retain_handling b)
        OR push_bit 3 (sob_retain_as_published b) OR push_bit 2 (sob_no_local b)
        OR sob_qos b])"
  "lib_SubscriptionOptionsBits_try_from_be_bytes ref_ops = (\<lambda>bs. case bs of [] \<Rightarrow> None
       | x # _ \<Rightarrow> Some (\<lparr>sob_reserved_bits = drop_bit 6 x AND 3,
           sob_retain_handling = drop_bit 4 x AND 3,
           sob_retain_as_published = drop_bit 3 x AND 1, sob_no_local = drop_bit 2 x AND 1,
           sob_qos = x AND 3\<rparr>, 1))"
  "lib_PingReqPacket_to_be_bytes ref_ops = (\<lambda>p. be_bytes16 (pingreq_fixed_header p))"
  "lib_PingReqPacket_try_from_be_bytes ref_ops = (\<lambda>bs. case bs of
       a # b # _ \<Rightarrow> Some (\<lparr>pingreq_fixed_header = be_word16 a b\<rparr>, 2) | _ \<Rightarrow> None)"
  "lib_PingRespPacket_to_be_bytes ref_ops = (\<lambda>p. be_bytes16 (pingresp_fixed_header p))"
  "lib_PingRespPacket_try_from_be_bytes ref_ops = (\<lambda>bs. case bs of
       a # b # _ \<Rightarrow> Some (\<lparr>pingresp_fixed_header = be_word16 a b\<rparr>, 2) | _ \<Rightarrow> None)"
  "lib_properties_iter ref_ops = (\<lambda>m. filter (\<lambda>i. m i \<noteq> None) PropertyId_all)"
  by (simp_all add: ref_ops_def)

declare be_bytes16_def [eval_simps] be_bytes32_def [eval_simps]
  be_word16_def [eval_simps] be_word32_def [eval_simps]

end
