(* ===== verification/Wire_Encoding.thy ===== *)
theory Wire_Encoding
  imports Wire_Lib
begin

text \<open>
  The primitive encodings of \<open>encoding/\<close>: variable byte integers (\<open>variable_int.rs\<close>), MQTT
  strings (\<open>mqtt_string.rs\<close>) and binary data (\<open>binary.rs\<close>, \<open>mqtt_binary.rs\<close>). An encoder yields
  the bytes it appends, a decoder the decoded value and the bytes left in the buffer; on an error
  only the error is kept.
\<close>

subsection \<open>Variable byte integers\<close>

definition VARIABLE_INT_MAX :: u32 where
  "VARIABLE_INT_MAX = 268435455"

record VariableInt =
  vi_value :: u32

definition VariableInt_new :: "u32 \<Rightarrow> VariableInt result" where
  "VariableInt_new value =
     (if VARIABLE_INT_MAX < value then Inl MqttError.ProtocolError else Inr \<lparr>vi_value = value\<rparr>)"

definition VariableInt_new_unchecked :: "u32 \<Rightarrow> VariableInt" where
  "VariableInt_new_unchecked value = \<lparr>vi_value = value\<rparr>"

text \<open>\<open>None\<close> is the \<open>unreachable!\<close> arm of the match.\<close>

definition VariableInt_encoded_size :: "VariableInt \<Rightarrow> u32 option" where
  "VariableInt_encoded_size vi =
     (let v = vi_value vi in
      if v \<le> 127 then Some 1
      else if v \<le> 16383 then Some 2
      else if v \<le> 2097151 then Some 3
      else if v \<le> VARIABLE_INT_MAX then Some 4
      else None)"

lemma u32_div_128_less: "v div 128 \<noteq> 0 \<Longrightarrow> unat (v div 128) < unat (v :: u32)"
  by (cases "v = 0") (auto simp: unat_div_distrib unat_gt_0 intro: div_less_dividend)

function VariableInt_encode_loop :: "u32 \<Rightarrow> bytes" where
  "VariableInt_encode_loop val =
     (let byte = ucast (val mod 128);
          val' = val div 128;
          byte' = (if val' > 0 then byte OR 0x80 else byte)
      in byte' # (if val' = 0 then [] else VariableInt_encode_loop val'))"
  by pat_completeness auto

termination
  by (relation "measure unat") (auto simp: u32_div_128_less)

declare VariableInt_encode_loop.simps [simp del]

definition VariableInt_encode :: "VariableInt \<Rightarrow> bytes result" where
  "VariableInt_encode vi = Inr (VariableInt_encode_loop (vi_value vi))"

text \<open>
  The loop of \<open>VariableInt::decode\<close>: \<open>value\<close>, \<open>multiplier\<close> and \<open>byte_count\<close> are its mutable
  variables. The last comparison with the maximum happens after the loop has ended.
\<close>

fun VariableInt_decode_loop ::
  "bytes \<Rightarrow> u32 \<Rightarrow> u32 \<Rightarrow> nat \<Rightarrow> (VariableInt \<times> bytes) result" where
  "VariableInt_decode_loop [] value multiplier byte_count = Inl MqttError.MalformedPacket"
| "VariableInt_decode_loop (byte # buf) value multiplier byte_count =
     (if 4 < byte_count + 1 then Inl MqttError.MalformedPacket
      else let value' = value + ucast (byte AND 0x7F) * multiplier in
        if byte AND 0x80 = 0 then
          (if VARIABLE_INT_MAX < value' then Inl MqttError.MalformedPacket
           else Inr (\<lparr>vi_value = value'\<rparr>, buf))
        else let multiplier' = multiplier * 128 in
          if 128 * 128 * 128 < multiplier' then Inl MqttError.MalformedPacket
          else VariableInt_decode_loop buf value' multiplier' (byte_count + 1))"

definition VariableInt_decode :: "bytes \<Rightarrow> (VariableInt \<times> bytes) result" where
  "VariableInt_decode buf = VariableInt_decode_loop buf 0 1 0"

text \<open>The error is \<open>BeBytesError::InsufficientData\<close> with its \<open>expected\<close> and \<open>actual\<close> fields.\<close>

definition encode_variable_int :: "u32 \<Rightarrow> bytes result" where
  "encode_variable_int value = res_bind (VariableInt_new value) VariableInt_encode"

definition decode_variable_int :: "bytes \<Rightarrow> (u32 \<times> bytes) result" where
  "decode_variable_int buf =
     res_bind (VariableInt_decode buf) (\<lambda>(vi, rest). Inr (vi_value vi, rest))"

definition variable_int_len :: "u32 \<Rightarrow> nat" where
  "variable_int_len value =
     unat (the (VariableInt_encoded_size
       (VariableInt_new_unchecked (min value VARIABLE_INT_MAX))))"

definition encoded_variable_int_len :: "u32 \<Rightarrow> nat" where
  "encoded_variable_int_len value = variable_int_len value"

subsection \<open>Binary data\<close>

definition MAX_STRING_LENGTH :: u16 where
  "MAX_STRING_LENGTH = 0xFFFF"

definition encode_binary :: "wire_ops \<Rightarrow> bytes \<Rightarrow> bytes result" where
  "encode_binary L data =
     (if unat MAX_STRING_LENGTH < length data then Inl MqttError.MalformedPacket
      else Inr (lib_put_u16 L (word_of_nat (length data)) @ data))"

definition decode_binary :: "wire_ops \<Rightarrow> bytes \<Rightarrow> (bytes \<times> bytes) result" where
  "decode_binary L buf =
     (if length buf < 2 then Inl MqttError.MalformedPacket
      else let len = unat (lib_get_u16 L buf); buf = drop 2 buf in
        if length buf < len then Inl MqttError.MalformedPacket
        else Inr (take len buf, drop len buf))"

definition binary_len :: "bytes \<Rightarrow> nat" where
  "binary_len data = 2 + length data"

subsection \<open>Strings\<close>

definition MqttString_create :: "string \<Rightarrow> MqttString result" where
  "MqttString_create s =
     (if str_contains s (CHR 0x00) then Inl MqttError.MalformedPacket
      else if 65535 < length s then Inl (MqttError.StringTooLong (length s))
      else Inr \<lparr>mqs_length = word_of_nat (length s), mqs_data = s\<rparr>)"

definition encode_string :: "wire_ops \<Rightarrow> string \<Rightarrow> bytes result" where
  "encode_string L s =
     (if str_contains s (CHR 0x00) then Inl MqttError.MalformedPacket
      else res_bind (MqttString_create s) (\<lambda>ms. Inr (lib_MqttString_to_be_bytes L ms)))"

definition decode_string :: "wire_ops \<Rightarrow> bytes \<Rightarrow> (string \<times> bytes) result" where
  "decode_string L buf =
     (if length buf < 2 then Inl MqttError.MalformedPacket
      else let len = unat (lib_get_u16 L buf); buf = drop 2 buf in
        if length buf < len then Inl MqttError.MalformedPacket
        else res_bind (ok_or (from_utf8 (take len buf)) MqttError.MalformedPacket) (\<lambda>s.
          if str_contains s (CHR 0x00) then Inl MqttError.MalformedPacket
          else Inr (s, drop len buf)))"

definition string_len :: "string \<Rightarrow> nat" where
  "string_len s = 2 + length s"

declare VARIABLE_INT_MAX_def [eval_simps] VariableInt_new_def [eval_simps]
  VariableInt_encode_def [eval_simps] VariableInt_decode_def [eval_simps]
  encode_variable_int_def [eval_simps] decode_variable_int_def [eval_simps]
  encode_binary_def [eval_simps] decode_binary_def [eval_simps] MAX_STRING_LENGTH_def [eval_simps]
  MqttString_create_def [eval_simps] encode_string_def [eval_simps] decode_string_def [eval_simps]
  Let_def [eval_simps]

text \<open>The strings the protocol can carry.\<close>

definition mqtt_string_ok :: "string \<Rightarrow> bool" where
  "mqtt_string_ok s \<longleftrightarrow> utf8_valid s \<and> CHR 0x00 \<notin> set s \<and> length s \<le> 65535"

subsection \<open>Properties of variable byte integers\<close>

lemma u8_and_7F: "(x :: u8) AND 0x7F = take_bit 7 x"
  by (simp add: take_bit_eq_mask mask_eq_exp_minus_1)

lemma u8_and_80: "(x :: u8) AND 0x80 = 0 \<longleftrightarrow> \<not> bit x 7"
  using and_exp_eq_0_iff_not_bit [of x 7] by simp

lemma bit_u8_80: "bit (0x80 :: u8) 7"
  using u8_and_80 by fastforce

lemma u32_mod_128: "(v :: u32) mod 128 = take_bit 7 v"
  by (simp add: take_bit_eq_mod)

lemma low7_roundtrip:
  "ucast (take_bit 7 (ucast (take_bit 7 v) :: u8)) = (take_bit 7 v :: u32)"
  "ucast (take_bit 7 ((ucast (take_bit 7 v) :: u8) OR 0x80)) = (take_bit 7 v :: u32)"
  "\<not> bit (ucast (take_bit 7 v) :: u8) 7"
proof -
  show A: "ucast (take_bit 7 (ucast (take_bit 7 v) :: u8)) = (take_bit 7 v :: u32)"
    by (auto intro!: bit_word_eqI simp: bit_simps)
  have "take_bit 7 (0x80 :: u8) = 0"
    by (simp add: take_bit_eq_mod)
  with A show "ucast (take_bit 7 ((ucast (take_bit 7 v) :: u8) OR 0x80)) = (take_bit 7 v :: u32)"
    by (simp only: take_bit_or or.right_neutral)
  show "\<not> bit (ucast (take_bit 7 v) :: u8) 7"
    by (simp add: bit_simps)
qed

lemma VariableInt_decode_encode_loop:
  assumes "unat v < 128 ^ (4 - cnt)" "cnt \<le> 3" "mult = 128 ^ cnt"
    and "acc + v * mult \<le> VARIABLE_INT_MAX"
  shows "VariableInt_decode_loop (VariableInt_encode_loop v @ r) acc mult cnt =
    Inr (\<lparr>vi_value = acc + v * mult\<rparr>, r)"
  using assms
proof (induction v arbitrary: acc mult cnt rule: VariableInt_encode_loop.induct)
  case (1 v)
  have v: "v = (v div 128) * 128 + take_bit 7 v"
    using word_mod_div_equality [of v 128] by (simp add: u32_mod_128)
  show ?case
  proof (cases "v div 128 = 0")
    case True
    then have low: "take_bit 7 v = v"
      using v by simp
    show ?thesis
      using True "1.prems"(2,4) low7_roundtrip [of v]
      by (subst VariableInt_encode_loop.simps)
        (simp add: u8_and_7F u8_and_80 u32_mod_128 low not_less Let_def)
  next
    case False
    have cnt: "cnt < 3"
    proof (rule ccontr)
      assume "\<not> cnt < 3"
      with "1.prems"(1,2) have "unat v < 128"
        by (simp add: le_antisym not_less)
      with False show False
        by (simp flip: unat_eq_0 add: unat_div_distrib)
    qed
    have "4 - cnt = Suc (4 - Suc cnt)"
      using cnt by simp
    then have less: "unat (v div 128) < 128 ^ (4 - Suc cnt)"
      using "1.prems"(1) by (simp add: unat_div_distrib div_less_iff_less_mult)
    have sum: "acc + take_bit 7 v * mult + (v div 128) * (mult * 128) = acc + v * mult"
      by (subst (3) v) (simp add: algebra_simps)
    have bound: "\<not> 128 * 128 * 128 < mult * 128"
      using cnt "1.prems"(3) by (auto simp: less_Suc_eq numeral_3_eq_3)
    have mult: "mult * 128 = 128 ^ Suc cnt"
      using "1.prems"(3) by simp
    have rec: "VariableInt_decode_loop (VariableInt_encode_loop (v div 128) @ r)
        (acc + take_bit 7 v * mult) (mult * 128) (Suc cnt) = Inr (\<lparr>vi_value = acc + v * mult\<rparr>, r)"
      using "1.IH" [OF refl refl refl False less _ mult, of "acc + take_bit 7 v * mult"]
        cnt "1.prems"(4) unfolding sum by simp
    have "VariableInt_encode_loop v =
        ((ucast (take_bit 7 v) :: u8) OR 0x80) # VariableInt_encode_loop (v div 128)"
      using False by (subst VariableInt_encode_loop.simps)
        (simp add: Let_def u32_mod_128 word_gt_0)
    then show ?thesis
      using rec cnt bound low7_roundtrip [of v]
      by (simp add: u8_and_7F u8_and_80 bit_or_iff bit_u8_80 Let_def)
  qed
qed

lemma decode_encode_variable_int [codec_simps]:
  assumes "v \<le> VARIABLE_INT_MAX"
  shows "decode_variable_int (VariableInt_encode_loop v @ r) = Inr (v, r)"
proof -
  have "unat v < 128 ^ (4 - 0)"
    using assms by (simp add: VARIABLE_INT_MAX_def word_le_nat_alt)
  from VariableInt_decode_encode_loop [OF this, of 1 0 r] assms show ?thesis
    by (simp add: decode_variable_int_def VariableInt_decode_def)
qed

lemma encode_variable_int_eq:
  "encode_variable_int v =
     (if v \<le> VARIABLE_INT_MAX then Inr (VariableInt_encode_loop v) else Inl MqttError.ProtocolError)"
  by (auto simp: encode_variable_int_def VariableInt_new_def VariableInt_encode_def)

lemma length_VariableInt_encode_loop_step:
  "length (VariableInt_encode_loop v) =
     (if v div 128 = 0 then 1 else Suc (length (VariableInt_encode_loop (v div 128))))"
  by (subst VariableInt_encode_loop.simps) (simp add: Let_def)

lemma u32_div_eq_0: "(v :: u32) div w = 0 \<longleftrightarrow> unat v div unat w = 0"
  by (simp flip: unat_eq_0 add: unat_div_distrib)

lemma VariableInt_encode_loop_not_Nil [simp]: "VariableInt_encode_loop v \<noteq> []"
  by (subst VariableInt_encode_loop.simps) (simp add: Let_def)

lemma length_VariableInt_encode_loop_pow:
  "unat v < 128 ^ Suc k \<Longrightarrow> k = 0 \<or> 128 ^ k \<le> unat v \<Longrightarrow>
   length (VariableInt_encode_loop v) = Suc k"
proof (induction k arbitrary: v)
  case 0
  then show ?case
    by (subst length_VariableInt_encode_loop_step) (simp add: u32_div_eq_0)
next
  case (Suc k)
  have lo: "128 ^ k \<le> unat (v div 128)"
    using Suc.prems(2) by (simp add: unat_div_distrib less_eq_div_iff_mult_less_eq mult.commute)
  have hi: "unat (v div 128) < 128 ^ Suc k"
    using Suc.prems(1) by (simp add: unat_div_distrib div_less_iff_less_mult mult.commute)
  have "v div 128 \<noteq> 0"
    using lo by (metis not_less_zero unat_0 zero_less_numeral zero_less_power le_zero_eq)
  with Suc.IH [OF hi] lo show ?case
    by (subst length_VariableInt_encode_loop_step) simp
qed

lemma variable_int_len_eq:
  "v \<le> VARIABLE_INT_MAX \<Longrightarrow> variable_int_len v =
     (if unat v < 128 then 1 else if unat v < 16384 then 2 else if unat v < 2097152 then 3 else 4)"
  by (auto simp: variable_int_len_def VariableInt_encoded_size_def min_absorb1
      VariableInt_new_unchecked_def VARIABLE_INT_MAX_def word_le_nat_alt Let_def)

lemma length_VariableInt_encode_loop:
  assumes "v \<le> VARIABLE_INT_MAX"
  shows "length (VariableInt_encode_loop v) = variable_int_len v"
proof -
  have "unat v < 268435456"
    using assms by (simp add: VARIABLE_INT_MAX_def word_le_nat_alt)
  then show ?thesis
    using assms length_VariableInt_encode_loop_pow [of v 0]
      length_VariableInt_encode_loop_pow [of v 1] length_VariableInt_encode_loop_pow [of v 2]
      length_VariableInt_encode_loop_pow [of v 3]
    by (auto simp: variable_int_len_eq)
qed

lemma variable_int_len_bounds: "1 \<le> variable_int_len v" "variable_int_len v \<le> 4"
proof -
  have "variable_int_len v = variable_int_len (min v VARIABLE_INT_MAX)"
    by (simp add: variable_int_len_def min.assoc)
  then show "1 \<le> variable_int_len v" "variable_int_len v \<le> 4"
    using variable_int_len_eq [of "min v VARIABLE_INT_MAX"] by auto
qed

text \<open>
  What the decoder computes, written without a loop: the continuation bytes are the longest prefix
  with bit 7 set, and the value is read off the seven-bit groups, least significant first.
\<close>

definition vbi_prefix :: "bytes \<Rightarrow> nat" where
  "vbi_prefix bs = length (takeWhile (\<lambda>b. bit b 7) bs)"

fun vbi_value :: "bytes \<Rightarrow> u32" where
  "vbi_value [] = 0"
| "vbi_value (b # bs) = ucast (take_bit 7 b) + 128 * vbi_value bs"

definition vbi_decode :: "bytes \<Rightarrow> (u32 \<times> bytes) result" where
  "vbi_decode bs =
     (let n = vbi_prefix bs in
      if n < length bs \<and> n < 4 then Inr (vbi_value (take (Suc n) bs), drop (Suc n) bs)
      else Inl MqttError.MalformedPacket)"

lemma u32_pow_128: "cnt \<le> 3 \<Longrightarrow> unat (128 ^ cnt :: u32) = 128 ^ cnt"
  by (auto simp: le_Suc_eq numeral_3_eq_3)

lemma unat_low7_less: "unat (ucast (take_bit 7 (b :: u8)) :: u32) < 128"
proof -
  have "unat (ucast (take_bit 7 b) :: u32) \<le> take_bit 7 (unat b)"
    by (simp add: unsigned_ucast_eq unsigned_take_bit_eq)
  also have "take_bit 7 (unat b) < 2 ^ 7"
    by (rule take_bit_nat_less_exp)
  finally show ?thesis by simp
qed

lemma vbi_acc_bound:
  fixes acc :: u32
  assumes "unat acc < 128 ^ cnt" "cnt \<le> 3"
  shows "unat (acc + ucast (take_bit 7 (b :: u8)) * 128 ^ cnt) < 128 ^ Suc cnt"
proof -
  let ?d = "ucast (take_bit 7 b) :: u32"
  have "unat (acc + ?d * 128 ^ cnt) \<le> unat acc + unat (?d * 128 ^ cnt)"
    by (simp add: unat_word_ariths)
  also have "unat (?d * 128 ^ cnt) \<le> unat ?d * 128 ^ cnt"
    using assms(2) by (simp add: unat_word_ariths u32_pow_128)
  also have "unat ?d * 128 ^ cnt \<le> 127 * 128 ^ cnt"
    using unat_low7_less [of b] by simp
  finally show ?thesis
    using assms(1) by simp
qed

lemma VariableInt_decode_loop_eq:
  assumes "mult = 128 ^ cnt" "cnt \<le> 3" "unat acc < 128 ^ cnt"
  shows "VariableInt_decode_loop bs acc mult cnt =
    (let n = vbi_prefix bs in
     if n < length bs \<and> n + cnt < 4
     then Inr (\<lparr>vi_value = acc + mult * vbi_value (take (Suc n) bs)\<rparr>, drop (Suc n) bs)
     else Inl MqttError.MalformedPacket)"
  using assms
proof (induction bs arbitrary: acc mult cnt)
  case Nil
  then show ?case by (simp add: vbi_prefix_def)
next
  case (Cons b bs)
  let ?acc = "acc + ucast (take_bit 7 b) * mult"
  have acc: "unat ?acc < 128 ^ Suc cnt"
    using vbi_acc_bound [OF Cons.prems(3,2)] Cons.prems(1) by simp
  show ?case
  proof (cases "bit b 7")
    case False
    have "(128 :: nat) ^ Suc cnt \<le> 128 ^ 4"
      using Cons.prems(2) by (intro power_increasing) auto
    with acc have "?acc \<le> VARIABLE_INT_MAX"
      by (simp add: VARIABLE_INT_MAX_def word_le_nat_alt)
    with False Cons.prems(2) show ?thesis
      by (simp add: vbi_prefix_def u8_and_7F u8_and_80 Let_def mult.commute)
  next
    case True
    show ?thesis
    proof (cases "cnt = 3")
      case False
      with Cons.prems(2) have cnt: "Suc cnt \<le> 3"
        by simp
      have "\<not> 128 * 128 * 128 < mult * 128"
        using cnt Cons.prems(1) by (auto simp: le_Suc_eq numeral_3_eq_3)
      moreover have "mult * 128 = 128 ^ Suc cnt"
        using Cons.prems(1) by simp
      ultimately show ?thesis
        using True Cons.IH [OF _ cnt acc, of "mult * 128"] cnt Cons.prems(1)
        by (simp add: vbi_prefix_def u8_and_7F u8_and_80 Let_def algebra_simps)
    qed (use True Cons.prems in
      \<open>simp add: vbi_prefix_def u8_and_7F u8_and_80 Let_def\<close>)
  qed
qed

lemma decode_variable_int_eq: "decode_variable_int bs = vbi_decode bs"
  using VariableInt_decode_loop_eq [of 1 0 0 bs]
  by (simp add: decode_variable_int_def VariableInt_decode_def vbi_decode_def Let_def)

lemma decode_variable_int_Inr:
  assumes "decode_variable_int bs = Inr (v, r)"
  shows "v \<le> VARIABLE_INT_MAX" and "length r < length bs" and "length bs \<le> length r + 4"
    and "\<exists>p. bs = p @ r \<and> 1 \<le> length p \<and> length p \<le> 4"
proof -
  have n: "vbi_prefix bs < length bs" "vbi_prefix bs < 4" "r = drop (Suc (vbi_prefix bs)) bs"
    using assms by (auto simp: decode_variable_int_eq vbi_decode_def Let_def split: if_splits)
  then show "length r < length bs" "length bs \<le> length r + 4"
    by auto
  from n show "\<exists>p. bs = p @ r \<and> 1 \<le> length p \<and> length p \<le> 4"
    by (intro exI [of _ "take (Suc (vbi_prefix bs)) bs"]) auto
  have inv: "VariableInt_decode_loop bs acc m c = Inr (vi, r) \<Longrightarrow> vi_value vi \<le> VARIABLE_INT_MAX"
    for acc m c vi
    by (induction bs acc m c rule: VariableInt_decode_loop.induct)
      (auto simp: Let_def split: if_splits)
  show "v \<le> VARIABLE_INT_MAX"
    using assms inv by (auto simp: decode_variable_int_def VariableInt_decode_def res_iffs)
qed

lemma decode_variable_int_append:
  "decode_variable_int bs = Inr (v, r) \<Longrightarrow> decode_variable_int (bs @ s) = Inr (v, r @ s)"
proof -
  assume *: "decode_variable_int bs = Inr (v, r)"
  then have n: "vbi_prefix bs < length bs" "vbi_prefix bs < 4"
    by (auto simp: decode_variable_int_eq vbi_decode_def Let_def split: if_splits)
  then have "vbi_prefix (bs @ s) = vbi_prefix bs"
    unfolding vbi_prefix_def
    by (metis takeWhile_append1 nth_mem nth_length_takeWhile)
  with * n show ?thesis
    by (auto simp: decode_variable_int_eq vbi_decode_def Let_def)
qed

subsection \<open>Properties of strings and binary data\<close>

lemma decode_string_Inr:
  assumes "decode_string L buf = Inr (s, r)"
  shows "mqtt_string_ok s" and "length buf = string_len s + length r"
    and "length r < length buf"
proof -
  define n where "n = unat (lib_get_u16 L buf)"
  have n: "n \<le> 65535"
    unfolding n_def by (rule unat_u16_le)
  have *: "2 \<le> length buf" "n \<le> length buf - 2" "from_utf8 (take n (drop 2 buf)) = Some s"
    "CHR 0x00 \<notin> set s" "r = drop n (drop 2 buf)"
    using assms
    by (auto simp: decode_string_def Let_def n_def res_iffs str_contains_def split: if_splits)
  have s: "utf8_valid s" "take n (drop 2 buf) = bytes_of_string s"
    using from_utf8_SomeD [OF *(3)] by auto
  have len: "length s = n"
    using arg_cong [OF s(2), of length] *(1,2) by simp
  show "mqtt_string_ok s"
    using s(1) *(4) len n by (simp add: mqtt_string_ok_def)
  show "length buf = string_len s + length r"
    using *(1,2,5) len by (simp add: string_len_def)
  then show "length r < length buf"
    by (simp add: string_len_def)
qed

lemma decode_binary_Inr:
  assumes "decode_binary L buf = Inr (d, r)"
  shows "length d \<le> 65535" and "length buf = binary_len d + length r"
    and "length r < length buf"
proof -
  define n where "n = unat (lib_get_u16 L buf)"
  have n: "n \<le> 65535"
    unfolding n_def by (rule unat_u16_le)
  have *: "2 \<le> length buf" "n \<le> length buf - 2" "d = take n (drop 2 buf)"
    "r = drop n (drop 2 buf)"
    using assms by (auto simp: decode_binary_def Let_def n_def split: if_splits)
  then have "length d = n"
    by simp
  with n show "length d \<le> 65535"
    by simp
  from * show "length buf = binary_len d + length r"
    by (simp add: binary_len_def)
  then show "length r < length buf"
    by (simp add: binary_len_def)
qed

context wire_lib
begin

lemma encode_string_eq:
  "encode_string L s =
     (if CHR 0x00 \<in> set s then Inl MqttError.MalformedPacket
      else if 65535 < length s then Inl (MqttError.StringTooLong (length s))
      else Inr (lib_put_u16 L (word_of_nat (length s)) @ bytes_of_string s))"
  by (simp add: encode_string_def MqttString_create_def str_contains_def mqtt_string_be put_u16_be)

lemma encode_string_ok:
  "mqtt_string_ok s \<Longrightarrow>
   encode_string L s = Inr (lib_put_u16 L (word_of_nat (length s)) @ bytes_of_string s)"
  by (simp add: encode_string_eq mqtt_string_ok_def)

lemma decode_string_app [simp]:
  assumes "mqtt_string_ok s"
  shows "decode_string L (lib_put_u16 L (word_of_nat (length s)) @ bytes_of_string s @ r)
    = Inr (s, r)"
  using assms unat_u16_of_nat [of "length s"]
  by (simp add: decode_string_def mqtt_string_ok_def str_contains_def Let_def)

lemma encode_binary_eq:
  "encode_binary L d =
     (if 65535 < length d then Inl MqttError.MalformedPacket
      else Inr (lib_put_u16 L (word_of_nat (length d)) @ d))"
  by (simp add: encode_binary_def MAX_STRING_LENGTH_def)

lemma decode_binary_app [simp]:
  assumes "length d \<le> 65535"
  shows "decode_binary L (lib_put_u16 L (word_of_nat (length d)) @ d @ r) = Inr (d, r)"
  using assms unat_u16_of_nat [of "length d"]
  by (simp add: decode_binary_def Let_def)

lemma encode_decode_string:
  "utf8_valid s \<Longrightarrow>
   (case encode_string L s of
     Inr bs \<Rightarrow> length bs = string_len s \<and> decode_string L (bs @ r) = Inr (s, r)
   | Inl e \<Rightarrow> e = (if CHR 0x00 \<in> set s then MqttError.MalformedPacket
       else MqttError.StringTooLong (length s)) \<and> (CHR 0x00 \<in> set s \<or> 65535 < length s))"
  by (auto simp: encode_string_eq string_len_def mqtt_string_ok_def)

end

subsection \<open>The encodings are correct\<close>

text \<open>
  The variable byte integer codec. A value up to 268,435,455 is written in exactly
  \<open>variable_int_len\<close> bytes and read back unchanged whatever follows it in the buffer; every
  larger value is refused with a protocol error.
\<close>

theorem variable_int_roundtrip:
  "case encode_variable_int v of
     Inr bs \<Rightarrow> v \<le> VARIABLE_INT_MAX \<and> length bs = variable_int_len v
       \<and> decode_variable_int (bs @ r) = Inr (v, r)
   | Inl e \<Rightarrow> VARIABLE_INT_MAX < v \<and> e = MqttError.ProtocolError"
  by (simp add: encode_variable_int_eq length_VariableInt_encode_loop codec_simps not_le)

text \<open>
  The decoding loop agrees with the closed form of the encoding. It accepts a buffer exactly
  when one of its first four bytes has no continuation bit, then consumes through that byte,
  returns the seven-bit groups least significant first, and stays within the maximum; otherwise
  the packet is malformed.
\<close>

theorem decode_variable_int_spec:
  "decode_variable_int bs =
     (let n = length (takeWhile (\<lambda>b. b AND 0x80 \<noteq> 0) bs) in
      if n < length bs \<and> n < 4 then Inr (vbi_value (take (Suc n) bs), drop (Suc n) bs)
      else Inl MqttError.MalformedPacket) \<and>
   (\<forall>v r. decode_variable_int bs = Inr (v, r) \<longrightarrow> v \<le> VARIABLE_INT_MAX)"
  using decode_variable_int_Inr(1)
  by (auto simp: decode_variable_int_eq vbi_decode_def vbi_prefix_def u8_and_80)

theorem decode_variable_int_spec_witness:
  "decode_variable_int [0x80, 0x01, 0x55] = Inr (128, [0x55])"
  using decode_variable_int_spec [of "[0x80, 0x01, 0x55]"] by simp

text \<open>
  Strings. Encoding refuses exactly the strings with a null character and those of more than
  65,535 bytes, each with its own error. What it writes for a UTF-8 string decodes to the same
  string and leaves the rest of the buffer.
\<close>

theorem string_roundtrip:
  assumes "wire_lib L" and "utf8_valid s"
  shows "case encode_string L s of
     Inr bs \<Rightarrow> length bs = string_len s \<and> decode_string L (bs @ r) = Inr (s, r)
   | Inl e \<Rightarrow> e = (if CHR 0x00 \<in> set s then MqttError.MalformedPacket
       else MqttError.StringTooLong (length s)) \<and> (CHR 0x00 \<in> set s \<or> 65535 < length s)"
  using assms by (rule wire_lib.encode_decode_string)

theorem string_roundtrip_witness:
  "utf8_valid ''a/b'' \<and> decode_string ref_ops [0, 3, 0x61, 0x2F, 0x62, 7] = Inr (''a/b'', [7])"
proof -
  have "utf8_valid ''a/b''"
    by (simp add: eval_simps)
  moreover have "encode_string ref_ops ''a/b'' = Inr [0, 3, 0x61, 0x2F, 0x62]"
    by (simp add: eval_simps)
  ultimately show ?thesis
    using string_roundtrip [OF wire_lib_ref_ops, of "''a/b''" "[7]"] by simp
qed

end
