(* ===== verification/Mqtt_Properties.thy ===== *)
theory Mqtt_Properties
  imports Wire_Encoding
begin

text \<open>
  Packet properties: the container (\<open>protocol/v5/properties/mod.rs\<close>), its wire format
  (\<open>codec.rs\<close>) and the typed accessors (\<open>accessors.rs\<close>). A \<open>Properties\<close> value is a finite map
  from identifiers to value lists; the order in which a codec visits its keys is the iteration
  order of the wire library, so every statement about encodings holds for any order.
\<close>

subsection \<open>The container\<close>

definition Properties_new :: Properties where
  "Properties_new = Map.empty"

text \<open>\<open>entry(id).or_default().push(value)\<close>\<close>

definition Properties_push :: "Properties \<Rightarrow> PropertyId \<Rightarrow> PropertyValue \<Rightarrow> Properties" where
  "Properties_push p i v = p(i \<mapsto> (case p i of None \<Rightarrow> [] | Some vs \<Rightarrow> vs) @ [v])"

definition Properties_add :: "Properties \<Rightarrow> PropertyId \<Rightarrow> PropertyValue \<Rightarrow> Properties result" where
  "Properties_add p i v =
     (if \<not> PropertyValue_matches_type v (PropertyId_value_type i) then Inl MqttError.ProtocolError
      else if \<not> PropertyId_allows_multiple i \<and> p i \<noteq> None
      then Inl (MqttError.DuplicatePropertyId (PropertyId_to_u8 i))
      else Inr (Properties_push p i v))"

definition Properties_get :: "Properties \<Rightarrow> PropertyId \<Rightarrow> PropertyValue option" where
  "Properties_get p i = (case p i of Some (v # _) \<Rightarrow> Some v | _ \<Rightarrow> None)"

definition Properties_get_all :: "Properties \<Rightarrow> PropertyId \<Rightarrow> PropertyValue list option" where
  "Properties_get_all p i = p i"

definition Properties_contains :: "Properties \<Rightarrow> PropertyId \<Rightarrow> bool" where
  "Properties_contains p i \<longleftrightarrow> p i \<noteq> None"

definition Properties_is_empty :: "Properties \<Rightarrow> bool" where
  "Properties_is_empty p \<longleftrightarrow> list_all (\<lambda>i. p i = None) PropertyId_all"

definition Properties_iter :: "wire_ops \<Rightarrow> Properties \<Rightarrow> (PropertyId \<times> PropertyValue) list" where
  "Properties_iter L p =
     concat (map (\<lambda>i. case p i of None \<Rightarrow> [] | Some vs \<Rightarrow> map (Pair i) vs)
       (lib_properties_iter L p))"

subsection \<open>The codec\<close>

definition PropertyValue_encode :: "wire_ops \<Rightarrow> PropertyValue \<Rightarrow> bytes result" where
  "PropertyValue_encode L v =
     (case v of
        PropertyValue.Byte b \<Rightarrow> Inr [b]
      | PropertyValue.TwoByteInteger w \<Rightarrow> Inr (lib_put_u16 L w)
      | PropertyValue.FourByteInteger w \<Rightarrow> Inr (lib_put_u32 L w)
      | PropertyValue.VariableByteInteger w \<Rightarrow> encode_variable_int w
      | PropertyValue.BinaryData d \<Rightarrow> encode_binary L d
      | PropertyValue.Utf8String s \<Rightarrow> encode_string L s
      | PropertyValue.Utf8StringPair k s \<Rightarrow>
          res_bind (encode_string L k) (\<lambda>a.
          res_bind (encode_string L s) (\<lambda>b. Inr (a @ b))))"

text \<open>The two nested loops of \<open>encode_properties\<close>, over the entries in iteration order.\<close>

fun encode_entries :: "wire_ops \<Rightarrow> (PropertyId \<times> PropertyValue) list \<Rightarrow> bytes result" where
  "encode_entries L [] = Inr []"
| "encode_entries L ((i, v) # es) =
     res_bind (encode_variable_int (ucast (PropertyId_to_u8 i))) (\<lambda>a.
     res_bind (PropertyValue_encode L v) (\<lambda>b.
     res_bind (encode_entries L es) (\<lambda>c. Inr (a @ b @ c))))"

definition Properties_encode_properties :: "wire_ops \<Rightarrow> Properties \<Rightarrow> bytes result" where
  "Properties_encode_properties L p = encode_entries L (Properties_iter L p)"

definition usize_to_u32 :: "nat \<Rightarrow> u32 result" where
  "usize_to_u32 n =
     (if n < 2 ^ 32 then Inr (word_of_nat n) else Inl (MqttError.PacketTooLarge n 4294967295))"

definition Properties_encode :: "wire_ops \<Rightarrow> Properties \<Rightarrow> bytes result" where
  "Properties_encode L p =
     res_bind (Properties_encode_properties L p) (\<lambda>props_buf.
     res_bind (usize_to_u32 (length props_buf)) (\<lambda>len.
     res_bind (encode_variable_int len) (\<lambda>hd. Inr (hd @ props_buf))))"

definition PropertyValue_encoded_len :: "PropertyValue \<Rightarrow> nat" where
  "PropertyValue_encoded_len v =
     (case v of
        PropertyValue.Byte _ \<Rightarrow> 1
      | PropertyValue.TwoByteInteger _ \<Rightarrow> 2
      | PropertyValue.FourByteInteger _ \<Rightarrow> 4
      | PropertyValue.VariableByteInteger w \<Rightarrow> variable_int_len w
      | PropertyValue.BinaryData d \<Rightarrow> binary_len d
      | PropertyValue.Utf8String s \<Rightarrow> string_len s
      | PropertyValue.Utf8StringPair k s \<Rightarrow> string_len k + string_len s)"

definition Properties_properties_encoded_len :: "wire_ops \<Rightarrow> Properties \<Rightarrow> nat" where
  "Properties_properties_encoded_len L p =
     sum_list (map (\<lambda>(i, v). variable_int_len (ucast (PropertyId_to_u8 i))
       + PropertyValue_encoded_len v) (Properties_iter L p))"

definition Properties_encode_direct :: "wire_ops \<Rightarrow> Properties \<Rightarrow> bytes result" where
  "Properties_encode_direct L p =
     res_bind (usize_to_u32 (Properties_properties_encoded_len L p)) (\<lambda>len.
     res_bind (encode_variable_int len) (\<lambda>hd.
     res_bind (Properties_encode_properties L p) (\<lambda>body. Inr (hd @ body))))"

definition Properties_encoded_len :: "wire_ops \<Rightarrow> Properties \<Rightarrow> nat" where
  "Properties_encoded_len L p =
     (let n = Properties_properties_encoded_len L p in
      variable_int_len (if n < 2 ^ 32 then word_of_nat n else 0xFFFFFFFF) + n)"

definition PropertyValue_decode ::
  "wire_ops \<Rightarrow> PropertyValueType \<Rightarrow> bytes \<Rightarrow> (PropertyValue \<times> bytes) result" where
  "PropertyValue_decode L ty buf =
     (case ty of
        PropertyValueType.Byte \<Rightarrow>
          (case buf of [] \<Rightarrow> Inl MqttError.MalformedPacket
           | b # r \<Rightarrow> Inr (PropertyValue.Byte b, r))
      | PropertyValueType.TwoByteInteger \<Rightarrow>
          (if length buf < 2 then Inl MqttError.MalformedPacket
           else Inr (PropertyValue.TwoByteInteger (lib_get_u16 L buf), drop 2 buf))
      | PropertyValueType.FourByteInteger \<Rightarrow>
          (if length buf < 4 then Inl MqttError.MalformedPacket
           else Inr (PropertyValue.FourByteInteger (lib_get_u32 L buf), drop 4 buf))
      | PropertyValueType.VariableByteInteger \<Rightarrow>
          res_bind (decode_variable_int buf) (\<lambda>(v, r). Inr (PropertyValue.VariableByteInteger v, r))
      | PropertyValueType.BinaryData \<Rightarrow>
          res_bind (decode_binary L buf) (\<lambda>(v, r). Inr (PropertyValue.BinaryData v, r))
      | PropertyValueType.Utf8String \<Rightarrow>
          res_bind (decode_string L buf) (\<lambda>(v, r). Inr (PropertyValue.Utf8String v, r))
      | PropertyValueType.Utf8StringPair \<Rightarrow>
          res_bind (decode_string L buf) (\<lambda>(k, r).
          res_bind (decode_string L r) (\<lambda>(v, r'). Inr (PropertyValue.Utf8StringPair k v, r'))))"

lemma PropertyValue_decode_length:
  "PropertyValue_decode L ty buf = Inr (v, r) \<Longrightarrow> length r \<le> length buf"
  by (cases ty)
    (auto simp: PropertyValue_decode_def res_iffs split: list.splits if_splits
      dest!: decode_variable_int_Inr(2) decode_binary_Inr(3) decode_string_Inr(3))

text \<open>The \<open>while props_buf.has_remaining()\<close> loop.\<close>

function Properties_decode_loop :: "wire_ops \<Rightarrow> bytes \<Rightarrow> Properties \<Rightarrow> Properties result" where
  "Properties_decode_loop L props_buf properties =
     (if props_buf = [] then Inr properties
      else res_bind (decode_variable_int props_buf) (\<lambda>(id_val, buf).
        if 255 < id_val then Inl (MqttError.InvalidPropertyId 255)
        else let id_byte = ucast id_val in
          res_bind (ok_or (PropertyId_from_u8 id_byte) (MqttError.InvalidPropertyId id_byte)) (\<lambda>i.
          res_bind (PropertyValue_decode L (PropertyId_value_type i) buf) (\<lambda>(v, buf').
          res_bind (Properties_add properties i v) (\<lambda>properties'.
            Properties_decode_loop L buf' properties')))))"
  by pat_completeness auto
termination
  by (relation "measure (\<lambda>(_, buf, _). length buf)")
    (auto dest!: decode_variable_int_Inr(2) PropertyValue_decode_length)

declare Properties_decode_loop.simps [simp del]

definition Properties_decode :: "wire_ops \<Rightarrow> bytes \<Rightarrow> (Properties \<times> bytes) result" where
  "Properties_decode L buf =
     res_bind (decode_variable_int buf) (\<lambda>(props_len, buf).
       if length buf < unat props_len then Inl MqttError.MalformedPacket
       else res_bind (Properties_decode_loop L (take (unat props_len) buf) Properties_new) (\<lambda>p.
         Inr (p, drop (unat props_len) buf)))"

subsection \<open>Typed accessors\<close>

definition Properties_set_payload_format_indicator :: "Properties \<Rightarrow> bool \<Rightarrow> Properties" where
  "Properties_set_payload_format_indicator p is_utf8 =
     Properties_push p PropertyId.PayloadFormatIndicator (PropertyValue.Byte (of_bool is_utf8))"

definition Properties_set_message_expiry_interval :: "Properties \<Rightarrow> u32 \<Rightarrow> Properties" where
  "Properties_set_message_expiry_interval p seconds =
     Properties_push p PropertyId.MessageExpiryInterval (PropertyValue.FourByteInteger seconds)"

definition Properties_get_message_expiry_interval :: "Properties \<Rightarrow> u32 option" where
  "Properties_get_message_expiry_interval p =
     (case Properties_get p PropertyId.MessageExpiryInterval of
        Some (PropertyValue.FourByteInteger v) \<Rightarrow> Some v | _ \<Rightarrow> None)"

definition Properties_set_topic_alias :: "Properties \<Rightarrow> u16 \<Rightarrow> Properties" where
  "Properties_set_topic_alias p alias =
     Properties_push p PropertyId.TopicAlias (PropertyValue.TwoByteInteger alias)"

definition Properties_get_topic_alias :: "Properties \<Rightarrow> u16 option" where
  "Properties_get_topic_alias p =
     (case Properties_get p PropertyId.TopicAlias of
        Some (PropertyValue.TwoByteInteger v) \<Rightarrow> Some v | _ \<Rightarrow> None)"

definition Properties_remove_topic_alias :: "Properties \<Rightarrow> Properties" where
  "Properties_remove_topic_alias p = p(PropertyId.TopicAlias := None)"

definition Properties_set_response_topic :: "Properties \<Rightarrow> string \<Rightarrow> Properties" where
  "Properties_set_response_topic p topic =
     Properties_push p PropertyId.ResponseTopic (PropertyValue.Utf8String topic)"

definition Properties_set_correlation_data :: "Properties \<Rightarrow> bytes \<Rightarrow> Properties" where
  "Properties_set_correlation_data p data =
     Properties_push p PropertyId.CorrelationData (PropertyValue.BinaryData data)"

definition Properties_add_user_property :: "Properties \<Rightarrow> string \<Rightarrow> string \<Rightarrow> Properties" where
  "Properties_add_user_property p key value =
     Properties_push p PropertyId.UserProperty (PropertyValue.Utf8StringPair key value)"

definition Properties_remove_user_property_by_key :: "Properties \<Rightarrow> string \<Rightarrow> Properties" where
  "Properties_remove_user_property_by_key p key =
     (case p PropertyId.UserProperty of
        None \<Rightarrow> p
      | Some values \<Rightarrow>
          (let kept = filter (\<lambda>v. case v of
               PropertyValue.Utf8StringPair k _ \<Rightarrow> k \<noteq> key | _ \<Rightarrow> True) values
           in if kept = [] then p(PropertyId.UserProperty := None)
              else p(PropertyId.UserProperty \<mapsto> kept)))"

definition Properties_inject_sender :: "Properties \<Rightarrow> string option \<Rightarrow> Properties" where
  "Properties_inject_sender p user_id =
     (let p' = Properties_remove_user_property_by_key p ''x-mqtt-sender'' in
      case user_id of
        Some uid \<Rightarrow> Properties_add_user_property p' ''x-mqtt-sender'' uid
      | None \<Rightarrow> p')"

definition Properties_inject_client_id :: "Properties \<Rightarrow> string option \<Rightarrow> Properties" where
  "Properties_inject_client_id p client_id =
     (let p' = Properties_remove_user_property_by_key p ''x-mqtt-client-id'' in
      case client_id of
        Some cid \<Rightarrow> Properties_add_user_property p' ''x-mqtt-client-id'' cid
      | None \<Rightarrow> p')"

fun find_user_property :: "string \<Rightarrow> PropertyValue list \<Rightarrow> string option" where
  "find_user_property key [] = None"
| "find_user_property key (v # vs) =
     (case v of
        PropertyValue.Utf8StringPair k val \<Rightarrow>
          if k = key then Some val else find_user_property key vs
      | _ \<Rightarrow> find_user_property key vs)"

definition Properties_get_user_property_value :: "Properties \<Rightarrow> string \<Rightarrow> string option" where
  "Properties_get_user_property_value p key =
     Option.bind (p PropertyId.UserProperty) (find_user_property key)"

definition Properties_set_subscription_identifier :: "Properties \<Rightarrow> u32 \<Rightarrow> Properties" where
  "Properties_set_subscription_identifier p i =
     Properties_push p PropertyId.SubscriptionIdentifier (PropertyValue.VariableByteInteger i)"

definition Properties_subscription_identifiers :: "Properties \<Rightarrow> u32 list" where
  "Properties_subscription_identifiers p =
     (case p PropertyId.SubscriptionIdentifier of
        None \<Rightarrow> []
      | Some values \<Rightarrow> List.map_filter (\<lambda>v. case v of
          PropertyValue.VariableByteInteger i \<Rightarrow> Some i | _ \<Rightarrow> None) values)"

definition Properties_get_subscription_identifier :: "Properties \<Rightarrow> u32 option" where
  "Properties_get_subscription_identifier p =
     (case Properties_get p PropertyId.SubscriptionIdentifier of
        Some (PropertyValue.VariableByteInteger v) \<Rightarrow> Some v | _ \<Rightarrow> None)"

definition Properties_set_reason_string :: "Properties \<Rightarrow> string \<Rightarrow> Properties" where
  "Properties_set_reason_string p reason =
     Properties_push p PropertyId.ReasonString (PropertyValue.Utf8String reason)"

definition Properties_remove_reason_string :: "Properties \<Rightarrow> Properties" where
  "Properties_remove_reason_string p = p(PropertyId.ReasonString := None)"

definition Properties_set_content_type :: "Properties \<Rightarrow> string \<Rightarrow> Properties" where
  "Properties_set_content_type p content_type =
     Properties_push p PropertyId.ContentType (PropertyValue.Utf8String content_type)"

definition Properties_get_content_type :: "Properties \<Rightarrow> string option" where
  "Properties_get_content_type p =
     (case Properties_get p PropertyId.ContentType of
        Some (PropertyValue.Utf8String v) \<Rightarrow> Some v | _ \<Rightarrow> None)"

subsection \<open>Well-formed properties\<close>

definition property_value_ok :: "PropertyValue \<Rightarrow> bool" where
  "property_value_ok v =
     (case v of
        PropertyValue.VariableByteInteger w \<Rightarrow> w \<le> VARIABLE_INT_MAX
      | PropertyValue.BinaryData d \<Rightarrow> length d \<le> 65535
      | PropertyValue.Utf8String s \<Rightarrow> mqtt_string_ok s
      | PropertyValue.Utf8StringPair k s \<Rightarrow> mqtt_string_ok k \<and> mqtt_string_ok s
      | _ \<Rightarrow> True)"

definition entry_ok :: "PropertyId \<Rightarrow> PropertyValue list \<Rightarrow> bool" where
  "entry_ok i vs \<longleftrightarrow>
     vs \<noteq> [] \<and> (PropertyId_allows_multiple i \<or> length vs = 1) \<and>
     list_all (\<lambda>v. PropertyValue_value_type v = PropertyId_value_type i \<and> property_value_ok v) vs"

definition properties_ok :: "Properties \<Rightarrow> bool" where
  "properties_ok p \<longleftrightarrow> list_all (\<lambda>i. case p i of None \<Rightarrow> True | Some vs \<Rightarrow> entry_ok i vs) PropertyId_all"

lemma properties_ok_iff: "properties_ok p \<longleftrightarrow> (\<forall>i vs. p i = Some vs \<longrightarrow> entry_ok i vs)"
  by (auto simp: properties_ok_def list_all_iff split: option.splits)

lemma Properties_is_empty_iff: "Properties_is_empty p \<longleftrightarrow> p = Map.empty"
  by (auto simp: Properties_is_empty_def list_all_iff fun_eq_iff)

lemma properties_ok_empty [simp]: "properties_ok Map.empty" "properties_ok Properties_new"
  by (simp_all add: properties_ok_iff Properties_new_def)

lemma Properties_push_ok:
  assumes "properties_ok p" "PropertyId_allows_multiple i \<or> p i = None"
    and "PropertyValue_value_type v = PropertyId_value_type i" "property_value_ok v"
  shows "properties_ok (Properties_push p i v)"
  using assms by (auto simp: properties_ok_iff Properties_push_def entry_ok_def split: option.splits)

lemma Properties_add_Inr:
  "Properties_add p i v = Inr q \<longleftrightarrow>
     PropertyValue_value_type v = PropertyId_value_type i
     \<and> (PropertyId_allows_multiple i \<or> p i = None) \<and> q = Properties_push p i v"
  by (auto simp: Properties_add_def PropertyValue_matches_type_def)

lemma Properties_add_ok:
  "properties_ok p \<Longrightarrow> property_value_ok v \<Longrightarrow> Properties_add p i v = Inr q \<Longrightarrow> properties_ok q"
  by (auto simp: Properties_add_Inr intro: Properties_push_ok)

subsection \<open>Decoding yields well-formed properties\<close>

lemma PropertyValue_decode_ok:
  "PropertyValue_decode L ty buf = Inr (v, r) \<Longrightarrow>
   property_value_ok v \<and> PropertyValue_value_type v = ty"
  by (cases ty)
    (auto simp: PropertyValue_decode_def res_iffs property_value_ok_def
      split: list.splits if_splits
      dest: decode_variable_int_Inr(1) decode_binary_Inr(1) decode_string_Inr(1))

lemma Properties_decode_loop_ok:
  "Properties_decode_loop L buf p = Inr q \<Longrightarrow> properties_ok p \<Longrightarrow> properties_ok q"
proof (induction L buf p rule: Properties_decode_loop.induct)
  case (1 L buf p)
  show ?case
  proof (cases "buf = []")
    case True
    with "1.prems" show ?thesis
      by (simp add: Properties_decode_loop.simps)
  next
    case False
    then obtain id_val b i v b' p' where step:
      "decode_variable_int buf = Inr (id_val, b)" "\<not> 255 < id_val"
      "PropertyId_from_u8 (ucast id_val) = Some i"
      "PropertyValue_decode L (PropertyId_value_type i) b = Inr (v, b')"
      "Properties_add p i v = Inr p'" "Properties_decode_loop L b' p' = Inr q"
      using "1.prems"(1)
      by (subst (asm) Properties_decode_loop.simps) (auto simp: res_iffs Let_def split: if_splits)
    have "properties_ok p'"
      using step(4,5) "1.prems"(2) PropertyValue_decode_ok Properties_add_ok by blast
    then show ?thesis
      using "1.IH" [OF False step(1) refl step(2) refl _ step(4) refl step(5,6)] step(3) by simp
  qed
qed

lemma Properties_decode_Inr:
  assumes "Properties_decode L buf = Inr (p, r)"
  shows "properties_ok p" and "length r < length buf"
  using assms Properties_decode_loop_ok
  by (fastforce simp: Properties_decode_def res_iffs split: if_splits
      dest: decode_variable_int_Inr(2))+

subsection \<open>Round trip of the codec\<close>

fun add_entries :: "Properties \<Rightarrow> (PropertyId \<times> PropertyValue) list \<Rightarrow> Properties result" where
  "add_entries p [] = Inr p"
| "add_entries p ((i, v) # es) = res_bind (Properties_add p i v) (\<lambda>p'. add_entries p' es)"

lemma add_entries_append:
  "add_entries p (es @ fs) = res_bind (add_entries p es) (\<lambda>p'. add_entries p' fs)"
  by (induction p es rule: add_entries.induct) (simp_all add: res_bind_assoc cong: res_bind_cong)

lemma add_entries_more:
  assumes "PropertyId_allows_multiple i" "p i = Some ws"
    and "list_all (\<lambda>v. PropertyValue_value_type v = PropertyId_value_type i \<and> property_value_ok v) vs"
  shows "add_entries p (map (Pair i) vs) = Inr (p(i \<mapsto> ws @ vs))"
  using assms
proof (induction vs arbitrary: p ws)
  case Nil
  then show ?case by (simp add: fun_upd_idem)
next
  case (Cons v vs)
  then show ?case
    by (simp add: Properties_add_def PropertyValue_matches_type_def Properties_push_def fun_eq_iff)
qed

lemma add_entries_single:
  assumes "entry_ok i vs" "p i = None"
  shows "add_entries p (map (Pair i) vs) = Inr (p(i \<mapsto> vs))"
proof -
  obtain v us where vs: "vs = v # us"
    using assms(1) by (cases vs) (auto simp: entry_ok_def)
  show ?thesis
  proof (cases "us = []")
    case True
    with assms vs show ?thesis
      by (simp add: entry_ok_def Properties_add_def PropertyValue_matches_type_def
          Properties_push_def)
  next
    case False
    with assms(1) vs have "PropertyId_allows_multiple i"
      by (auto simp: entry_ok_def)
    then show ?thesis
      using assms vs add_entries_more [of i "p(i \<mapsto> [v])" "[v]" us]
      by (simp add: entry_ok_def Properties_add_def PropertyValue_matches_type_def
          Properties_push_def)
  qed
qed

lemma restrict_map_dom: "p |` dom p = p"
proof
  show "(p |` dom p) x = p x" for x
    by (cases "p x") (auto simp: restrict_map_def)
qed

lemma add_entries_ids:
  assumes "properties_ok p" "distinct ids" "set ids \<subseteq> dom p" "\<forall>i\<in>set ids. q i = None"
  shows "add_entries q (concat (map (\<lambda>i. case p i of None \<Rightarrow> [] | Some vs \<Rightarrow> map (Pair i) vs) ids))
    = Inr (q ++ (p |` set ids))"
  using assms(2-)
proof (induction ids arbitrary: q)
  case Nil
  then show ?case by simp
next
  case (Cons i ids)
  then obtain vs where vs: "p i = Some vs"
    by auto
  with assms(1) have "entry_ok i vs"
    by (simp add: properties_ok_iff)
  with vs Cons have "add_entries q (map (Pair i) vs) = Inr (q(i \<mapsto> vs))"
    by (simp add: add_entries_single)
  moreover have "q(i \<mapsto> vs) ++ (p |` set ids) = q ++ (p |` set (i # ids))"
    using vs Cons.prems(1)
    by (auto simp: fun_eq_iff map_add_def restrict_map_def split: option.splits)
  moreover have "\<forall>j\<in>set ids. (q(i \<mapsto> vs)) j = None"
    using Cons.prems by auto
  ultimately show ?case
    using Cons.IH [of "q(i \<mapsto> vs)"] Cons.prems vs
    by (simp add: add_entries_append del: fun_upd_apply)
qed

lemma add_entries_repeated:
  assumes p: "properties_ok p" "p i = None" "\<not> PropertyId_allows_multiple i"
    and v: "PropertyValue_value_type v = PropertyId_value_type i"
    and w: "PropertyValue_value_type w = PropertyId_value_type i"
    and ids: "distinct ids" "i \<in> set ids" "set ids \<subseteq> insert i (dom p)"
  shows "add_entries Map.empty (concat (map (\<lambda>j. case (p(i \<mapsto> [v, w])) j of
      None \<Rightarrow> [] | Some vs \<Rightarrow> map (Pair j) vs) ids))
    = Inl (MqttError.DuplicatePropertyId (PropertyId_to_u8 i))"
proof -
  let ?e = "\<lambda>m j. case m j of None \<Rightarrow> [] | Some vs \<Rightarrow> map (Pair j) vs"
  obtain xs ys where split: "ids = xs @ i # ys" "i \<notin> set xs"
    using split_list_first [OF ids(2)] by blast
  have same: "map (?e (p(i \<mapsto> [v, w]))) xs = map (?e p) xs"
    using split(2) by (intro map_cong) auto
  have "add_entries Map.empty (concat (map (?e p) xs)) = Inr (Map.empty ++ (p |` set xs))"
    using ids split by (intro add_entries_ids [OF p(1)]) auto
  moreover have "(p |` set xs) i = None"
    using p(2) by (simp add: restrict_map_def)
  ultimately show ?thesis
    using p(3) v w unfolding split(1) map_append concat_append same add_entries_append
    by (simp add: add_entries_append Properties_add_def PropertyValue_matches_type_def
        Properties_push_def)
qed

lemma property_id_small: "ucast (PropertyId_to_u8 i) \<le> VARIABLE_INT_MAX"
  by (cases i) (simp_all add: VARIABLE_INT_MAX_def)

lemma property_id_back:
  "\<not> 255 < (ucast (PropertyId_to_u8 i) :: u32)"
  "(ucast (ucast (PropertyId_to_u8 i) :: u32) :: u8) = PropertyId_to_u8 i"
  by (cases i; simp)+

context wire_lib
begin

lemma PropertyValue_roundtrip:
  assumes "property_value_ok v" "PropertyValue_encode L v = Inr bs"
  shows "PropertyValue_decode L (PropertyValue_value_type v) (bs @ r) = Inr (v, r)"
  using assms
  by (cases v)
    (auto simp: PropertyValue_encode_def PropertyValue_decode_def property_value_ok_def
      encode_string_ok encode_binary_eq encode_variable_int_eq codec_simps)

lemma PropertyValue_encode_Inr:
  "property_value_ok v \<Longrightarrow> \<exists>bs. PropertyValue_encode L v = Inr bs"
  by (cases v)
    (auto simp: PropertyValue_encode_def property_value_ok_def encode_string_ok encode_binary_eq
      encode_variable_int_eq)

lemma PropertyValue_encode_length:
  "PropertyValue_encode L v = Inr bs \<Longrightarrow> length bs = PropertyValue_encoded_len v"
  by (cases v)
    (auto simp: PropertyValue_encode_def PropertyValue_encoded_len_def encode_string_eq
      encode_binary_eq encode_variable_int_eq res_iffs binary_len_def string_len_def
      length_VariableInt_encode_loop split: if_splits)

lemma decode_loop_entries:
  assumes "list_all (\<lambda>(i, v). PropertyValue_value_type v = PropertyId_value_type i
      \<and> property_value_ok v) es"
    and "encode_entries L es = Inr bs"
  shows "Properties_decode_loop L bs p = add_entries p es"
  using assms
proof (induction es arbitrary: bs p)
  case Nil
  then show ?case by (simp add: Properties_decode_loop.simps)
next
  case (Cons e es)
  obtain i v where e: "e = (i, v)"
    by (cases e)
  let ?id = "ucast (PropertyId_to_u8 i) :: u32"
  obtain b c where bs: "PropertyValue_encode L v = Inr b" "encode_entries L es = Inr c"
    "bs = VariableInt_encode_loop ?id @ b @ c"
    using Cons.prems(2) property_id_small [of i]
    by (auto simp: e res_iffs encode_variable_int_eq)
  have rec: "Properties_decode_loop L c = (\<lambda>p. add_entries p es)"
    using Cons.IH [OF _ bs(2)] Cons.prems(1) by (simp add: fun_eq_iff)
  have val: "PropertyValue_decode L (PropertyId_value_type i) (b @ c) = Inr (v, c)"
    using Cons.prems(1) PropertyValue_roundtrip [OF _ bs(1), of c] by (simp add: e)
  show ?case
    using val rec
    by (subst Properties_decode_loop.simps)
      (simp add: bs(3) e codec_simps property_id_small property_id_back enum_simps Let_def)
qed

lemma properties_iter_ok:
  "properties_ok p \<Longrightarrow> list_all (\<lambda>(i, v). PropertyValue_value_type v = PropertyId_value_type i
      \<and> property_value_ok v) (Properties_iter L p)"
  unfolding list_all_iff Properties_iter_def properties_ok_iff entry_ok_def
  by (auto split: option.splits) (metis+)

lemma add_entries_iter:
  assumes "properties_ok p"
  shows "add_entries Properties_new (Properties_iter L p) = Inr p"
  using add_entries_ids [OF assms properties_iter_distinct [of p], of Map.empty]
  by (simp add: Properties_iter_def Properties_new_def properties_iter_set restrict_map_dom)

lemma encode_entries_length:
  "encode_entries L es = Inr bs \<Longrightarrow> length bs =
     sum_list (map (\<lambda>(i, v). variable_int_len (ucast (PropertyId_to_u8 i))
       + PropertyValue_encoded_len v) es)"
proof (induction es arbitrary: bs)
  case (Cons e es)
  obtain i v where e: "e = (i, v)"
    by (cases e)
  obtain b c where "PropertyValue_encode L v = Inr b" "encode_entries L es = Inr c"
    "bs = VariableInt_encode_loop (ucast (PropertyId_to_u8 i)) @ b @ c"
    using Cons.prems property_id_small [of i] by (auto simp: e res_iffs encode_variable_int_eq)
  then show ?case
    using Cons.IH PropertyValue_encode_length
    by (simp add: e length_VariableInt_encode_loop property_id_small)
qed simp

lemma encode_properties_length:
  "Properties_encode_properties L p = Inr bs \<Longrightarrow>
   Properties_properties_encoded_len L p = length bs"
  by (simp add: Properties_encode_properties_def Properties_properties_encoded_len_def
      encode_entries_length)

lemma encode_properties_succeeds:
  assumes "properties_ok p"
  shows "\<exists>bs. Properties_encode_properties L p = Inr bs"
proof -
  have "\<exists>bs. encode_entries L es = Inr bs" if "list_all (\<lambda>(i, v). property_value_ok v) es" for es
    using that
  proof (induction es)
    case (Cons e es)
    then show ?case
      using PropertyValue_encode_Inr [of "snd e"]
      by (cases e) (auto simp: encode_variable_int_eq property_id_small)
  qed simp
  moreover have "list_all (\<lambda>(i, v). property_value_ok v) (Properties_iter L p)"
    using properties_iter_ok [OF assms] by (auto simp: list_all_iff)
  ultimately show ?thesis
    unfolding Properties_encode_properties_def .
qed

lemma Properties_encode_eq:
  "Properties_encode L p = Inr bs \<longleftrightarrow>
     (\<exists>body. Properties_encode_properties L p = Inr body \<and> length body \<le> 268435455
        \<and> bs = VariableInt_encode_loop (word_of_nat (length body)) @ body)"
proof -
  have *: "word_of_nat n \<le> VARIABLE_INT_MAX \<longleftrightarrow> n \<le> 268435455" if "n < 2 ^ 32" for n
    using that unat_u32_of_nat [of n] by (simp add: word_le_nat_alt VARIABLE_INT_MAX_def)
  show ?thesis
    using * by (auto simp: Properties_encode_def res_iffs usize_to_u32_def encode_variable_int_eq
        split: if_splits)
qed

lemma Properties_decode_encode:
  assumes "properties_ok p" "Properties_encode L p = Inr bs"
  shows "Properties_decode L (bs @ r) = Inr (p, r)"
proof -
  obtain body where body: "Properties_encode_properties L p = Inr body"
    "length body \<le> 268435455" "bs = VariableInt_encode_loop (word_of_nat (length body)) @ body"
    using assms(2) by (auto simp: Properties_encode_eq)
  have len: "unat (word_of_nat (length body) :: u32) = length body"
    using body(2) by (intro unat_u32_of_nat) simp
  then have "word_of_nat (length body) \<le> VARIABLE_INT_MAX"
    using body(2) by (simp add: word_le_nat_alt VARIABLE_INT_MAX_def)
  moreover have "Properties_decode_loop L body Properties_new = Inr p"
    using decode_loop_entries [OF properties_iter_ok [OF assms(1)]] body(1)
      add_entries_iter [OF assms(1)] by (simp add: Properties_encode_properties_def)
  ultimately show ?thesis
    using len by (simp add: Properties_decode_def body(3) codec_simps)
qed

lemma optional_properties_roundtrip:
  assumes "(if c then Properties_encode L q else Inr []) = Inr bs" "properties_ok q"
    and "\<not> c \<longrightarrow> Properties_is_empty q"
  shows "(if c then Properties_decode L (bs @ r) else Inr (Properties_new, bs @ r)) = Inr (q, r)"
  using assms Properties_decode_encode [of q bs]
  by (auto simp: Properties_is_empty_iff Properties_new_def split: if_splits)

lemma Properties_encode_direct_iff:
  "Properties_encode_direct L p = Inr bs \<longleftrightarrow> Properties_encode L p = Inr bs"
  by (auto simp: Properties_encode_direct_def Properties_encode_def res_iffs
      dest: encode_properties_length) (metis encode_properties_length)+

lemma Properties_encoded_len_eq:
  assumes "Properties_encode L p = Inr bs"
  shows "Properties_encoded_len L p = length bs"
proof -
  obtain body where body: "Properties_encode_properties L p = Inr body"
    "length body \<le> 268435455" "bs = VariableInt_encode_loop (word_of_nat (length body)) @ body"
    using assms by (auto simp: Properties_encode_eq)
  have "word_of_nat (length body) \<le> VARIABLE_INT_MAX"
    using body(2) unat_u32_of_nat [of "length body"]
    by (simp add: word_le_nat_alt VARIABLE_INT_MAX_def)
  then show ?thesis
    using body by (simp add: Properties_encoded_len_def encode_properties_length
        length_VariableInt_encode_loop Let_def)
qed

lemma Properties_encode_succeeds:
  assumes "properties_ok p" "Properties_properties_encoded_len L p \<le> 268435455"
  shows "\<exists>bs. Properties_encode L p = Inr bs"
  using encode_properties_succeeds [OF assms(1)] assms(2)
  by (auto simp: Properties_encode_eq encode_properties_length)

lemma Properties_decode_repeated:
  assumes p: "properties_ok p" "p i = None" "\<not> PropertyId_allows_multiple i"
    and v: "PropertyValue_value_type v = PropertyId_value_type i" "property_value_ok v"
    and w: "PropertyValue_value_type w = PropertyId_value_type i" "property_value_ok w"
    and enc: "Properties_encode L (p(i \<mapsto> [v, w])) = Inr bs"
  shows "Properties_decode L (bs @ r) = Inl (MqttError.DuplicatePropertyId (PropertyId_to_u8 i))"
proof -
  let ?q = "p(i \<mapsto> [v, w])"
  obtain body where body: "Properties_encode_properties L ?q = Inr body"
    "length body \<le> 268435455" "bs = VariableInt_encode_loop (word_of_nat (length body)) @ body"
    using enc by (auto simp: Properties_encode_eq)
  have len: "unat (word_of_nat (length body) :: u32) = length body"
    using body(2) by (intro unat_u32_of_nat) simp
  then have max: "word_of_nat (length body) \<le> VARIABLE_INT_MAX"
    using body(2) by (simp add: word_le_nat_alt VARIABLE_INT_MAX_def)
  have "list_all (\<lambda>(i, v). PropertyValue_value_type v = PropertyId_value_type i
      \<and> property_value_ok v) (Properties_iter L ?q)"
    using p(1) v w
    by (auto simp: Properties_iter_def list_all_iff properties_ok_iff entry_ok_def
        split: option.splits if_splits) (metis+)
  then have "Properties_decode_loop L body Properties_new =
      add_entries Properties_new (Properties_iter L ?q)"
    using decode_loop_entries body(1) by (simp add: Properties_encode_properties_def)
  also have "\<dots> = Inl (MqttError.DuplicatePropertyId (PropertyId_to_u8 i))"
    unfolding Properties_iter_def Properties_new_def
    by (rule add_entries_repeated [OF p v(1) w(1)])
      (auto simp: properties_iter_distinct properties_iter_set)
  finally show ?thesis
    using len max by (simp add: Properties_decode_def body(3) codec_simps)
qed

lemma Properties_encode_not_Nil: "Properties_encode L p = Inr bs \<Longrightarrow> bs \<noteq> []"
  by (auto simp: Properties_encode_eq)

lemma Properties_encode_empty: "Properties_encode L Map.empty = Inr [0]"
proof -
  have "lib_properties_iter L Map.empty = []"
    using properties_iter_set [of Map.empty] by simp
  then have "Properties_encode_properties L Map.empty = Inr []"
    by (simp add: Properties_encode_properties_def Properties_iter_def)
  moreover have "VariableInt_encode_loop 0 = [0]"
    by (subst VariableInt_encode_loop.simps) (simp add: Let_def)
  ultimately show ?thesis
    by (simp add: Properties_encode_eq)
qed

end

subsection \<open>User properties the broker injects\<close>

definition user_property_values :: "Properties \<Rightarrow> PropertyValue list" where
  "user_property_values p = (case p PropertyId.UserProperty of None \<Rightarrow> [] | Some vs \<Rightarrow> vs)"

definition has_key :: "string \<Rightarrow> PropertyValue \<Rightarrow> bool" where
  "has_key key v = (case v of PropertyValue.Utf8StringPair k _ \<Rightarrow> k = key | _ \<Rightarrow> False)"

lemma remove_user_property_by_key_values:
  "user_property_values (Properties_remove_user_property_by_key p key) =
     filter (\<lambda>v. \<not> has_key key v) (user_property_values p)"
proof -
  have "(\<lambda>v. case v of PropertyValue.Utf8StringPair k _ \<Rightarrow> k \<noteq> key | _ \<Rightarrow> True) =
      (\<lambda>v. \<not> has_key key v)"
    by (auto simp: has_key_def fun_eq_iff split: PropertyValue.splits)
  then show ?thesis
    by (auto simp: user_property_values_def Properties_remove_user_property_by_key_def Let_def
        split: option.splits)
qed

lemma remove_user_property_by_key_other:
  "i \<noteq> PropertyId.UserProperty \<Longrightarrow> Properties_remove_user_property_by_key p key i = p i"
  by (auto simp: Properties_remove_user_property_by_key_def Let_def split: option.splits)

lemma add_user_property_values:
  "user_property_values (Properties_add_user_property p k v) =
     user_property_values p @ [PropertyValue.Utf8StringPair k v]"
  by (auto simp: user_property_values_def Properties_add_user_property_def Properties_push_def
      split: option.splits)

lemma add_user_property_other:
  "i \<noteq> PropertyId.UserProperty \<Longrightarrow> Properties_add_user_property p k v i = p i"
  by (simp add: Properties_add_user_property_def Properties_push_def)

lemma find_user_property_last:
  "list_all (\<lambda>v. \<not> has_key key v) vs \<Longrightarrow>
   find_user_property key (vs @ [PropertyValue.Utf8StringPair key val]) = Some val"
  by (induction vs) (auto simp: has_key_def split: PropertyValue.splits)

lemma find_user_property_None:
  "list_all (\<lambda>v. \<not> has_key key v) vs \<Longrightarrow> find_user_property key vs = None"
  by (induction vs) (auto simp: has_key_def split: PropertyValue.splits)

lemma get_user_property_value_eq:
  "Properties_get_user_property_value p key = find_user_property key (user_property_values p)"
  by (auto simp: Properties_get_user_property_value_def user_property_values_def
      split: option.splits)

lemmas inject_simps =
  remove_user_property_by_key_values remove_user_property_by_key_other
  add_user_property_values add_user_property_other get_user_property_value_eq
  find_user_property_None [OF list_all_iff [THEN iffD2]]
  find_user_property_last [OF list_all_iff [THEN iffD2]]

lemma inject_sender_other:
  "i \<noteq> PropertyId.UserProperty \<Longrightarrow> Properties_inject_sender p uid i = p i"
  by (cases uid) (simp_all add: Properties_inject_sender_def inject_simps)

subsection \<open>Properties of the component\<close>

text \<open>
  C10: round trip of the property section. Well-formed properties whose encoding fits a variable
  byte integer are encoded, in whatever order the map is iterated, by both the buffering and the
  direct encoder to the same bytes, as many as \<open>encoded_len\<close> announces, and decoding these bytes
  gives the properties back and leaves the rest of the buffer.
\<close>

theorem properties_roundtrip:
  assumes "wire_lib L" and "properties_ok p"
    and "Properties_properties_encoded_len L p \<le> 268435455"
  shows "\<exists>bs. Properties_encode L p = Inr bs \<and> Properties_encode_direct L p = Inr bs
    \<and> length bs = Properties_encoded_len L p \<and> Properties_decode L (bs @ r) = Inr (p, r)"
  using wire_lib.Properties_encode_succeeds [OF assms] wire_lib.Properties_decode_encode [OF assms(1,2)]
    wire_lib.Properties_encode_direct_iff [OF assms(1)]
    wire_lib.Properties_encoded_len_eq [OF assms(1)]
  by metis

theorem properties_roundtrip_witness:
  "\<exists>bs. Properties_encode ref_ops [PropertyId.TopicAlias \<mapsto> [PropertyValue.TwoByteInteger 7]] = Inr bs
    \<and> Properties_decode ref_ops (bs @ [9])
        = Inr ([PropertyId.TopicAlias \<mapsto> [PropertyValue.TwoByteInteger 7]], [9])"
proof -
  let ?p = "[PropertyId.TopicAlias \<mapsto> [PropertyValue.TwoByteInteger 7]]"
  have "properties_ok ?p"
    by (simp add: properties_ok_def PropertyId_all_def entry_ok_def property_value_ok_def
        PropertyId_allows_multiple_def)
  moreover have "Properties_properties_encoded_len ref_ops ?p \<le> 268435455"
    by (simp add: Properties_properties_encoded_len_def Properties_iter_def PropertyId_all_def
        PropertyValue_encoded_len_def variable_int_len_def VariableInt_encoded_size_def
        VariableInt_new_unchecked_def VARIABLE_INT_MAX_def Let_def eval_simps)
  ultimately show ?thesis
    using properties_roundtrip [OF wire_lib_ref_ops, of ?p "[9]"] by blast
qed

text \<open>
  C20: whatever the input, decoded properties are well formed: every value has the type its
  identifier prescribes, only user properties and subscription identifiers repeat, strings are
  valid UTF-8 without null characters, and the decoder consumes at least one byte.
\<close>

theorem properties_decode_wellformed:
  assumes "Properties_decode L buf = Inr (p, r)"
  shows "properties_ok p \<and> length r < length buf"
  using Properties_decode_Inr [OF assms] by simp

theorem properties_decode_wellformed_witness:
  "\<exists>p r. Properties_decode ref_ops [3, 0x23, 0, 7, 9] = Inr (p, r) \<and> properties_ok p"
proof -
  have "Properties_decode ref_ops [3, 0x23, 0, 7, 9] =
      Inr ([PropertyId.TopicAlias \<mapsto> [PropertyValue.TwoByteInteger 7]], [9])"
    by (simp add: Properties_decode_def Properties_decode_loop.simps PropertyId_from_u8_def
        PropertyValue_decode_def Properties_add_def PropertyValue_matches_type_def
        Properties_push_def Properties_new_def eval_simps)
  then show ?thesis
    using properties_decode_wellformed by blast
qed

text \<open>
  The direct encoder, which computes the length first and then writes in place, succeeds
  exactly when the buffering encoder does, with the same bytes, for arbitrary properties.
\<close>

theorem encode_direct_equiv:
  assumes "wire_lib L"
  shows "Properties_encode_direct L p = Inr bs \<longleftrightarrow> Properties_encode L p = Inr bs"
  by (rule wire_lib.Properties_encode_direct_iff [OF assms])

theorem encode_direct_equiv_witness:
  "Properties_encode_direct ref_ops Map.empty = Inr [0]"
  using encode_direct_equiv [OF wire_lib_ref_ops, of Map.empty "[0]"]
    ref.Properties_encode_empty by simp

text \<open>
  C21: a client cannot spoof the sender the broker injects. After \<open>inject_sender\<close> the user
  properties carry the injected user as their only \<open>x-mqtt-sender\<close> entry (none for an anonymous
  user), whatever the packet carried before; all other user properties keep their order, and all
  other properties are untouched.
\<close>

theorem inject_sender_authentic:
  "Properties_get_user_property_value (Properties_inject_sender p uid) ''x-mqtt-sender'' = uid
   \<and> filter (has_key ''x-mqtt-sender'') (user_property_values (Properties_inject_sender p uid)) =
       (case uid of None \<Rightarrow> [] | Some u \<Rightarrow> [PropertyValue.Utf8StringPair ''x-mqtt-sender'' u])
   \<and> filter (\<lambda>v. \<not> has_key ''x-mqtt-sender'' v)
        (user_property_values (Properties_inject_sender p uid)) =
      filter (\<lambda>v. \<not> has_key ''x-mqtt-sender'' v) (user_property_values p)
   \<and> (\<forall>i. i = PropertyId.UserProperty \<or> Properties_inject_sender p uid i = p i)"
proof (intro conjI allI)
  show "i = PropertyId.UserProperty \<or> Properties_inject_sender p uid i = p i" for i
    using inject_sender_other by blast
qed (cases uid; simp add: Properties_inject_sender_def inject_simps has_key_def)+



end
