(* ===== verification/Fixed_Header.thy ===== *)
theory Fixed_Header
  imports Mqtt_Properties
begin

text \<open>
  The fixed header of a packet and the framing every packet shares (\<open>packet.rs\<close>): the
  \<open>FixedHeader\<close> codec and the default \<open>encode\<close> of the \<open>MqttPacket\<close>
  trait. The locale \<open>packet_codec\<close> is the contract of that trait: a packet type with a body
  encoder and decoder that invert each other; from it follows the round trip of the complete
  packet. Each packet theory adds its packet as a \<open>sublocale\<close> of the wire library.
\<close>

subsection \<open>Fixed header\<close>

record FixedHeader =
  fh_packet_type :: PacketType
  fh_flags :: u8
  fh_remaining_length :: u32

definition FixedHeader_new :: "PacketType \<Rightarrow> u8 \<Rightarrow> u32 \<Rightarrow> FixedHeader" where
  "FixedHeader_new packet_type flags remaining_length =
     \<lparr>fh_packet_type = packet_type, fh_flags = flags, fh_remaining_length = remaining_length\<rparr>"

definition masks_FLAGS :: u8 where
  "masks_FLAGS = 0x0F"

definition FixedHeader_encode :: "FixedHeader \<Rightarrow> bytes result" where
  "FixedHeader_encode h =
     (let byte1 = push_bit 4 (PacketType_to_u8 (fh_packet_type h)) OR (fh_flags h AND masks_FLAGS) in
      res_bind (encode_variable_int (fh_remaining_length h)) (\<lambda>len. Inr (byte1 # len)))"

definition PacketType_from_u8 :: "wire_ops \<Rightarrow> u8 \<Rightarrow> PacketType option" where
  "PacketType_from_u8 L v = lib_PacketType_try_from L v"

definition FixedHeader_decode :: "wire_ops \<Rightarrow> bytes \<Rightarrow> (FixedHeader \<times> bytes) result" where
  "FixedHeader_decode L buf =
     (case buf of
        [] \<Rightarrow> Inl MqttError.MalformedPacket
      | byte1 # buf' \<Rightarrow>
          let packet_type_val = drop_bit 4 byte1 AND masks_FLAGS;
              flags = byte1 AND masks_FLAGS
          in res_bind (ok_or (PacketType_from_u8 L packet_type_val)
               (MqttError.InvalidPacketType packet_type_val)) (\<lambda>packet_type.
             res_bind (decode_variable_int buf') (\<lambda>(remaining_length, rest).
               Inr (\<lparr>fh_packet_type = packet_type, fh_flags = flags,
                     fh_remaining_length = remaining_length\<rparr>, rest))))"

definition FixedHeader_validate_flags :: "FixedHeader \<Rightarrow> bool" where
  "FixedHeader_validate_flags h =
     (case fh_packet_type h of
        PacketType.Publish \<Rightarrow> True
      | PacketType.PubRel \<Rightarrow> fh_flags h = 0x02
      | PacketType.Subscribe \<Rightarrow> fh_flags h = 0x02
      | PacketType.Unsubscribe \<Rightarrow> fh_flags h = 0x02
      | _ \<Rightarrow> fh_flags h = 0)"

definition FixedHeader_encoded_len :: "FixedHeader \<Rightarrow> nat" where
  "FixedHeader_encoded_len h = 1 + encoded_variable_int_len (fh_remaining_length h)"

subsection \<open>Complete packets\<close>

text \<open>
  The default method \<open>MqttPacket::encode\<close>; its arguments are what the packet's \<open>packet_type\<close>,
  \<open>flags\<close> and \<open>encode_body\<close> return.
\<close>

definition MqttPacket_encode :: "PacketType \<Rightarrow> u8 \<Rightarrow> bytes result \<Rightarrow> bytes result" where
  "MqttPacket_encode packet_type flags encode_body =
     res_bind encode_body (\<lambda>body.
       let fixed_header = FixedHeader_new packet_type flags
         (if length body < 2 ^ 32 then word_of_nat (length body) else 0xFFFFFFFF)
       in res_bind (FixedHeader_encode fixed_header) (\<lambda>hd. Inr (hd @ body)))"

declare FixedHeader_new_def [eval_simps] masks_FLAGS_def [eval_simps]
  FixedHeader_encode_def [eval_simps] FixedHeader_decode_def [eval_simps]
  PacketType_from_u8_def [eval_simps] MqttPacket_encode_def [eval_simps]
  PacketType_all_def [eval_simps]

lemma u8_and_0F: "(x :: u8) AND 0x0F = take_bit 4 x"
  by (simp add: take_bit_eq_mask mask_eq_exp_minus_1)

lemma header_byte:
  assumes "(f :: u8) < 16"
  shows "drop_bit 4 (push_bit 4 (PacketType_to_u8 t) OR (f AND 0x0F)) AND 0x0F = PacketType_to_u8 t"
    and "(push_bit 4 (PacketType_to_u8 t) OR (f AND 0x0F)) AND 0x0F = f"
proof -
  have t: "take_bit 4 (PacketType_to_u8 t) = PacketType_to_u8 t"
    by (cases t) simp_all
  have "take_bit 4 f = f"
    using assms
    by (simp add: take_bit_eq_mod word_unat_eq_iff unat_mod_distrib word_less_nat_alt)
  then have f: "f = take_bit 4 f"
    by simp
  show "drop_bit 4 (push_bit 4 (PacketType_to_u8 t) OR (f AND 0x0F)) AND 0x0F = PacketType_to_u8 t"
    unfolding u8_and_0F
    by (subst t [symmetric]) (auto intro!: bit_word_eqI simp: bit_simps)
  show "(push_bit 4 (PacketType_to_u8 t) OR (f AND 0x0F)) AND 0x0F = f"
    unfolding u8_and_0F
    by (subst (2) f) (auto intro!: bit_word_eqI simp: bit_simps)
qed

context wire_lib
begin

lemma FixedHeader_roundtrip:
  assumes "fh_flags h < 16" "FixedHeader_encode h = Inr bs"
  shows "FixedHeader_decode L (bs @ r) = Inr (h, r)"
  using assms header_byte [OF assms(1), of "fh_packet_type h"]
  by (auto simp: FixedHeader_encode_def FixedHeader_decode_def PacketType_from_u8_def
      masks_FLAGS_def Let_def encode_variable_int_eq codec_simps split: if_splits)

lemma FixedHeader_encode_length:
  "FixedHeader_encode h = Inr bs \<Longrightarrow> length bs = FixedHeader_encoded_len h"
  by (auto simp: FixedHeader_encode_def FixedHeader_encoded_len_def encoded_variable_int_len_def
      encode_variable_int_eq length_VariableInt_encode_loop Let_def split: if_splits)

lemma MqttPacket_encode_Inr:
  "MqttPacket_encode t f body = Inr bs \<longleftrightarrow>
     (\<exists>b hd. body = Inr b \<and> length b \<le> 268435455
        \<and> FixedHeader_encode (FixedHeader_new t f (word_of_nat (length b))) = Inr hd
        \<and> bs = hd @ b)"
proof -
  have "word_of_nat n \<le> VARIABLE_INT_MAX \<longleftrightarrow> n \<le> 268435455" if "n < 2 ^ 32" for n
    using that unat_u32_of_nat [of n] by (simp add: word_le_nat_alt VARIABLE_INT_MAX_def)
  moreover have "\<not> (0xFFFFFFFF :: u32) \<le> VARIABLE_INT_MAX"
    by (simp add: VARIABLE_INT_MAX_def)
  ultimately show ?thesis
    by (auto simp: MqttPacket_encode_def FixedHeader_encode_def FixedHeader_new_def res_iffs Let_def
        encode_variable_int_eq split: if_splits)
qed

lemma FixedHeader_decode_shorter:
  "FixedHeader_decode L buf = Inr (h, r) \<Longrightarrow> length r < length buf"
  by (auto simp: FixedHeader_decode_def res_iffs Let_def split: list.splits
      dest: decode_variable_int_Inr(2))

end

text \<open>
  A byte string that is one packet on the wire: a fixed header with the flags its packet type
  demands, followed by exactly the announced number of body bytes.
\<close>

definition is_frame :: "bytes \<Rightarrow> FixedHeader \<Rightarrow> bytes \<Rightarrow> bool" where
  "is_frame bs h body \<longleftrightarrow>
     (\<exists>hd. FixedHeader_encode h = Inr hd \<and> bs = hd @ body)
     \<and> length body = unat (fh_remaining_length h) \<and> fh_flags h < 16 \<and> FixedHeader_validate_flags h"

text \<open>
  The contract of the \<open>MqttPacket\<close> trait: \<open>ok\<close> singles out the packets the wire can carry, and
  for these the body decoder, given the header \<open>encode\<close> writes, inverts the body encoder.
\<close>

locale packet_codec = wire_lib L for L +
  fixes packet_type :: PacketType
    and flags :: "'p \<Rightarrow> u8"
    and encode_body :: "'p \<Rightarrow> bytes result"
    and decode_body :: "bytes \<Rightarrow> FixedHeader \<Rightarrow> ('p \<times> bytes) result"
    and ok :: "'p \<Rightarrow> bool"
  assumes flags_ok: "ok p \<Longrightarrow> flags p < 16"
    and flags_valid: "ok p \<Longrightarrow> FixedHeader_validate_flags (FixedHeader_new packet_type (flags p) n)"
    and body_roundtrip:
      "ok p \<Longrightarrow> encode_body p = Inr b \<Longrightarrow> length b \<le> 268435455 \<Longrightarrow>
       decode_body b (FixedHeader_new packet_type (flags p) (word_of_nat (length b))) = Inr (p, [])"
begin

lemma packet_frame:
  assumes "ok p" "MqttPacket_encode packet_type (flags p) (encode_body p) = Inr bs"
  shows "\<exists>h b. is_frame bs h b \<and> fh_packet_type h = packet_type \<and> decode_body b h = Inr (p, [])"
proof -
  obtain b hd where b: "encode_body p = Inr b" "length b \<le> 268435455" "bs = hd @ b"
    "FixedHeader_encode (FixedHeader_new packet_type (flags p) (word_of_nat (length b))) = Inr hd"
    using assms(2) by (auto simp: MqttPacket_encode_Inr)
  let ?h = "FixedHeader_new packet_type (flags p) (word_of_nat (length b))"
  have "is_frame bs ?h b"
    using b unat_u32_of_nat [of "length b"] flags_ok [OF assms(1)] flags_valid [OF assms(1)]
    by (auto simp: is_frame_def FixedHeader_new_def)
  then show ?thesis
    using body_roundtrip [OF assms(1) b(1,2)]
    by (intro exI [of _ ?h] exI [of _ b]) (simp add: FixedHeader_new_def)
qed

lemma packet_roundtrip:
  assumes "ok p" "MqttPacket_encode packet_type (flags p) (encode_body p) = Inr bs"
  shows "\<exists>h b. FixedHeader_decode L (bs @ r) = Inr (h, b @ r) \<and> length b = unat (fh_remaining_length h)
    \<and> fh_packet_type h = packet_type \<and> FixedHeader_validate_flags h
    \<and> decode_body b h = Inr (p, [])"
  using packet_frame [OF assms] FixedHeader_roundtrip by (fastforce simp: is_frame_def)

end

subsection \<open>Properties of the component\<close>

text \<open>
  The fixed header. A header whose flags fit four bits and whose remaining length is encodable
  is written in \<open>encoded_len\<close> bytes and read back, with the rest of the buffer left over; a
  remaining length above the maximum is refused.
\<close>

theorem fixed_header_roundtrip:
  assumes "wire_lib L" and "fh_flags h < 16"
  shows "case FixedHeader_encode h of
      Inr bs \<Rightarrow> length bs = FixedHeader_encoded_len h \<and> FixedHeader_decode L (bs @ r) = Inr (h, r)
    | Inl e \<Rightarrow> VARIABLE_INT_MAX < fh_remaining_length h \<and> e = MqttError.ProtocolError"
proof (cases "FixedHeader_encode h")
  case (Inl e)
  then show ?thesis
    by (auto simp: FixedHeader_encode_def encode_variable_int_eq Let_def split: if_splits)
next
  case (Inr bs)
  then show ?thesis
    using wire_lib.FixedHeader_roundtrip [OF assms Inr]
      wire_lib.FixedHeader_encode_length [OF assms(1) Inr] by simp
qed

theorem fixed_header_roundtrip_witness:
  "FixedHeader_decode ref_ops [0x82, 0x05, 7] =
     Inr (FixedHeader_new PacketType.Subscribe 2 5, [7])"
proof -
  have "FixedHeader_encode (FixedHeader_new PacketType.Subscribe 2 5) = Inr [0x82, 0x05]"
    by (simp add: eval_simps VariableInt_encode_loop.simps)
  then show ?thesis
    using fixed_header_roundtrip [OF wire_lib_ref_ops, of "FixedHeader_new PacketType.Subscribe 2 5" "[7]"]
    by (simp add: FixedHeader_new_def)
qed

end
