(* ===== verification/Packet_Ack.thy ===== *)
theory Packet_Ack
  imports Fixed_Header
begin

text \<open>
  The publish acknowledgements PUBACK, PUBREC, PUBREL and PUBCOMP. The sources generate the four
  packets from one macro (\<open>packet/ack_common.rs\<close>); so does the model: the macro body is a
  definition over the macro's parameters, and \<open>puback.rs\<close>, \<open>pubrec.rs\<close>, \<open>pubrel.rs\<close> and
  \<open>pubcomp.rs\<close> are its instances.
\<close>

subsection \<open>The macro\<close>

record AckPacket =
  ack_packet_id :: u16
  ack_reason_code :: ReasonCode
  ack_properties :: Properties

definition AckPacket_new :: "u16 \<Rightarrow> AckPacket" where
  "AckPacket_new packet_id =
     \<lparr>ack_packet_id = packet_id, ack_reason_code = ReasonCode.Success,
      ack_properties = Properties_new\<rparr>"

definition AckPacket_new_with_reason :: "u16 \<Rightarrow> ReasonCode \<Rightarrow> AckPacket" where
  "AckPacket_new_with_reason packet_id reason_code =
     \<lparr>ack_packet_id = packet_id, ack_reason_code = reason_code, ack_properties = Properties_new\<rparr>"

text \<open>\<open>ack_impl_flags!\<close> and \<open>ack_validate_flags!\<close>; \<open>None\<close> is the variant without \<open>flags\<close>.\<close>

definition ack_flags :: "u8 option \<Rightarrow> u8" where
  "ack_flags fl = (case fl of None \<Rightarrow> 0 | Some v \<Rightarrow> v)"

definition ack_validate_flags :: "u8 option \<Rightarrow> FixedHeader \<Rightarrow> unit result" where
  "ack_validate_flags fl fixed_header =
     (case fl of
        None \<Rightarrow> Inr ()
      | Some v \<Rightarrow> if fh_flags fixed_header \<noteq> v then Inl MqttError.MalformedPacket else Inr ())"

definition AckPacket_encode_body :: "wire_ops \<Rightarrow> AckPacket \<Rightarrow> bytes result" where
  "AckPacket_encode_body L p =
     (if ack_reason_code p \<noteq> ReasonCode.Success \<or> \<not> Properties_is_empty (ack_properties p)
      then res_bind (Properties_encode L (ack_properties p)) (\<lambda>props.
        Inr (lib_put_u16 L (ack_packet_id p) @ [ReasonCode_to_u8 (ack_reason_code p)] @ props))
      else Inr (lib_put_u16 L (ack_packet_id p)))"

definition AckPacket_decode_body ::
  "wire_ops \<Rightarrow> u8 option \<Rightarrow> (ReasonCode \<Rightarrow> bool) \<Rightarrow> bytes \<Rightarrow> FixedHeader \<Rightarrow> (AckPacket \<times> bytes) result"
where
  "AckPacket_decode_body L fl validator buf fixed_header =
     res_bind (ack_validate_flags fl fixed_header) (\<lambda>_.
       if length buf < 2 then Inl MqttError.MalformedPacket
       else let packet_id = lib_get_u16 L buf; buf = drop 2 buf in
         res_bind
           (case buf of
              [] \<Rightarrow> Inr (ReasonCode.Success, Properties_new, [])
            | reason_byte # buf' \<Rightarrow>
                res_bind (ok_or (ReasonCode_from_u8 reason_byte) MqttError.MalformedPacket) (\<lambda>code.
                  if \<not> validator code then Inl MqttError.MalformedPacket
                  else if buf' \<noteq> [] then
                    res_bind (Properties_decode L buf') (\<lambda>(props, rest). Inr (code, props, rest))
                  else Inr (code, Properties_new, [])))
           (\<lambda>(reason_code, properties, rest).
             Inr (\<lparr>ack_packet_id = packet_id, ack_reason_code = reason_code,
                   ack_properties = properties\<rparr>, rest)))"

definition is_valid_publish_ack_reason_code :: "ReasonCode \<Rightarrow> bool" where
  "is_valid_publish_ack_reason_code code \<longleftrightarrow>
     code \<in> {ReasonCode.Success, ReasonCode.NoMatchingSubscribers, ReasonCode.UnspecifiedError,
       ReasonCode.ImplementationSpecificError, ReasonCode.NotAuthorized,
       ReasonCode.TopicNameInvalid, ReasonCode.PacketIdentifierInUse, ReasonCode.QuotaExceeded,
       ReasonCode.PayloadFormatInvalid}"

definition is_valid_pubrel_reason_code :: "ReasonCode \<Rightarrow> bool" where
  "is_valid_pubrel_reason_code code \<longleftrightarrow>
     code \<in> {ReasonCode.Success, ReasonCode.PacketIdentifierNotFound}"

subsection \<open>The four packets\<close>

definition PubAckPacket_decode_body ::
  "wire_ops \<Rightarrow> bytes \<Rightarrow> FixedHeader \<Rightarrow> (AckPacket \<times> bytes) result" where
  "PubAckPacket_decode_body L = AckPacket_decode_body L None is_valid_publish_ack_reason_code"

definition PubRecPacket_decode_body ::
  "wire_ops \<Rightarrow> bytes \<Rightarrow> FixedHeader \<Rightarrow> (AckPacket \<times> bytes) result" where
  "PubRecPacket_decode_body L = AckPacket_decode_body L None is_valid_publish_ack_reason_code"

definition PubRelPacket_decode_body ::
  "wire_ops \<Rightarrow> bytes \<Rightarrow> FixedHeader \<Rightarrow> (AckPacket \<times> bytes) result" where
  "PubRelPacket_decode_body L = AckPacket_decode_body L (Some 0x02) is_valid_pubrel_reason_code"

definition PubCompPacket_decode_body ::
  "wire_ops \<Rightarrow> bytes \<Rightarrow> FixedHeader \<Rightarrow> (AckPacket \<times> bytes) result" where
  "PubCompPacket_decode_body L = AckPacket_decode_body L None is_valid_pubrel_reason_code"

subsection \<open>Round trip\<close>

definition ack_ok :: "(ReasonCode \<Rightarrow> bool) \<Rightarrow> AckPacket \<Rightarrow> bool" where
  "ack_ok validator p \<longleftrightarrow> validator (ack_reason_code p) \<and> properties_ok (ack_properties p)"

lemma is_valid_Success [simp]:
  "is_valid_publish_ack_reason_code ReasonCode.Success"
  "is_valid_pubrel_reason_code ReasonCode.Success"
  by (simp_all add: is_valid_publish_ack_reason_code_def is_valid_pubrel_reason_code_def)

context wire_lib
begin

lemma AckPacket_body_roundtrip:
  assumes "ack_ok validator p" "ack_validate_flags fl h = Inr ()"
    and "AckPacket_encode_body L p = Inr b"
  shows "AckPacket_decode_body L fl validator b h = Inr (p, [])"
proof (cases "ack_reason_code p \<noteq> ReasonCode.Success \<or> \<not> Properties_is_empty (ack_properties p)")
  case True
  then obtain props where props: "Properties_encode L (ack_properties p) = Inr props"
    "b = lib_put_u16 L (ack_packet_id p) @ ReasonCode_to_u8 (ack_reason_code p) # props"
    using assms(3) by (auto simp: AckPacket_encode_body_def res_iffs)
  have "Properties_decode L props = Inr (ack_properties p, [])"
    using Properties_decode_encode [OF _ props(1), of "[]"] assms(1) by (simp add: ack_ok_def)
  with assms(1,2) Properties_encode_not_Nil [OF props(1)] show ?thesis
    by (simp add: AckPacket_decode_body_def props(2) ack_ok_def enum_simps Let_def)
next
  case False
  with assms show ?thesis
    by (auto simp: AckPacket_encode_body_def AckPacket_decode_body_def Let_def
        Properties_is_empty_iff Properties_new_def
        intro!: AckPacket.equality) (simp add: get_put_u16 [of _ "[]", simplified])
qed

end

sublocale wire_lib \<subseteq> puback: packet_codec L PacketType.PubAck "\<lambda>_. ack_flags None"
    "AckPacket_encode_body L" "PubAckPacket_decode_body L" "ack_ok is_valid_publish_ack_reason_code"
  by unfold_locales
    (simp_all add: PubAckPacket_decode_body_def AckPacket_body_roundtrip ack_validate_flags_def
      ack_flags_def FixedHeader_validate_flags_def FixedHeader_new_def)

sublocale wire_lib \<subseteq> pubrec: packet_codec L PacketType.PubRec "\<lambda>_. ack_flags None"
    "AckPacket_encode_body L" "PubRecPacket_decode_body L" "ack_ok is_valid_publish_ack_reason_code"
  by unfold_locales
    (simp_all add: PubRecPacket_decode_body_def AckPacket_body_roundtrip ack_validate_flags_def
      ack_flags_def FixedHeader_validate_flags_def FixedHeader_new_def)

sublocale wire_lib \<subseteq> pubrel: packet_codec L PacketType.PubRel "\<lambda>_. ack_flags (Some 0x02)"
    "AckPacket_encode_body L" "PubRelPacket_decode_body L" "ack_ok is_valid_pubrel_reason_code"
  by unfold_locales
    (simp_all add: PubRelPacket_decode_body_def AckPacket_body_roundtrip ack_validate_flags_def
      ack_flags_def FixedHeader_validate_flags_def FixedHeader_new_def)

sublocale wire_lib \<subseteq> pubcomp: packet_codec L PacketType.PubComp "\<lambda>_. ack_flags None"
    "AckPacket_encode_body L" "PubCompPacket_decode_body L" "ack_ok is_valid_pubrel_reason_code"
  by unfold_locales
    (simp_all add: PubCompPacket_decode_body_def AckPacket_body_roundtrip ack_validate_flags_def
      ack_flags_def FixedHeader_validate_flags_def FixedHeader_new_def)

end
