(* ===== verification/Packet_Publish.thy ===== *)
theory Packet_Publish
  imports Fixed_Header
begin

text \<open>
  The PUBLISH packet (\<open>packet/publish.rs\<close>): its constructors, the flag nibble, both body encoders, the
  size computation and the version-dependent decoder.
\<close>

subsection \<open>The packet\<close>

record PublishPacket =
  pub_topic_name :: string
  pub_packet_id :: "u16 option"
  pub_payload :: bytes
  pub_qos :: QoS
  pub_retain :: bool
  pub_dup :: bool
  pub_properties :: Properties
  pub_protocol_version :: u8
  pub_stream_id :: "u64 option"

definition PublishPacket_new :: "string \<Rightarrow> bytes \<Rightarrow> QoS \<Rightarrow> PublishPacket" where
  "PublishPacket_new topic_name payload qos =
     \<lparr>pub_topic_name = topic_name, pub_packet_id = None, pub_payload = payload, pub_qos = qos,
      pub_retain = False, pub_dup = False, pub_properties = Properties_new,
      pub_protocol_version = 5, pub_stream_id = None\<rparr>"

definition PublishPacket_new_v311 :: "string \<Rightarrow> bytes \<Rightarrow> QoS \<Rightarrow> PublishPacket" where
  "PublishPacket_new_v311 topic_name payload qos =
     \<lparr>pub_topic_name = topic_name, pub_packet_id = None, pub_payload = payload, pub_qos = qos,
      pub_retain = False, pub_dup = False, pub_properties = Properties_new,
      pub_protocol_version = 4, pub_stream_id = None\<rparr>"

definition PublishPacket_with_retain :: "PublishPacket \<Rightarrow> bool \<Rightarrow> PublishPacket" where
  "PublishPacket_with_retain p retain = p\<lparr>pub_retain := retain\<rparr>"

definition PublishPacket_topic_alias :: "PublishPacket \<Rightarrow> u16 option" where
  "PublishPacket_topic_alias p =
     (case Properties_get (pub_properties p) PropertyId.TopicAlias of
        Some (PropertyValue.TwoByteInteger alias) \<Rightarrow> Some alias | _ \<Rightarrow> None)"

subsection \<open>Encoding and decoding\<close>

definition PublishPacket_body_encoded_size :: "wire_ops \<Rightarrow> PublishPacket \<Rightarrow> nat" where
  "PublishPacket_body_encoded_size L p =
     2 + length (pub_topic_name p)
     + (if pub_qos p \<noteq> AtMostOnce then 2 else 0)
     + (if pub_protocol_version p = 5 then Properties_encoded_len L (pub_properties p) else 0)
     + length (pub_payload p)"

text \<open>The packet identifier step both encoders share.\<close>

definition PublishPacket_encode_packet_id :: "wire_ops \<Rightarrow> PublishPacket \<Rightarrow> bytes result" where
  "PublishPacket_encode_packet_id L p =
     (if pub_qos p \<noteq> AtMostOnce then
        res_bind (ok_or (pub_packet_id p) MqttError.MalformedPacket) (\<lambda>packet_id.
          Inr (lib_put_u16 L packet_id))
      else Inr [])"

definition PublishPacket_encode_body_direct :: "wire_ops \<Rightarrow> PublishPacket \<Rightarrow> bytes result" where
  "PublishPacket_encode_body_direct L p =
     res_bind (encode_string L (pub_topic_name p)) (\<lambda>topic.
     res_bind (PublishPacket_encode_packet_id L p) (\<lambda>pid.
     res_bind (if pub_protocol_version p = 5 then Properties_encode_direct L (pub_properties p)
               else Inr []) (\<lambda>props.
       Inr (topic @ pid @ props @ pub_payload p))))"

definition PublishPacket_flags :: "PublishPacket \<Rightarrow> u8" where
  "PublishPacket_flags p =
     (let flags = (if pub_dup p then 0 OR PublishFlags_to_u8 Dup else 0);
          flags = PublishFlags_with_qos flags (QoS_to_u8 (pub_qos p))
      in if pub_retain p then flags OR PublishFlags_to_u8 Retain else flags)"

definition PublishPacket_encode_body :: "wire_ops \<Rightarrow> PublishPacket \<Rightarrow> bytes result" where
  "PublishPacket_encode_body L p =
     res_bind (encode_string L (pub_topic_name p)) (\<lambda>topic.
     res_bind (PublishPacket_encode_packet_id L p) (\<lambda>pid.
     res_bind (if pub_protocol_version p = 5 then Properties_encode L (pub_properties p)
               else Inr []) (\<lambda>props.
       Inr (topic @ pid @ props @ pub_payload p))))"

definition PublishPacket_decode_body_with_version ::
  "wire_ops \<Rightarrow> u8 \<Rightarrow> bytes \<Rightarrow> FixedHeader \<Rightarrow> (PublishPacket \<times> bytes) result" where
  "PublishPacket_decode_body_with_version L protocol_version buf fixed_header =
     res_bind (ok_or (ProtocolVersion_try_from protocol_version)
       MqttError.UnsupportedProtocolVersion) (\<lambda>_.
     let flags = lib_PublishFlags_decompose L (fh_flags fixed_header);
         dup = Dup \<in> set flags;
         qos_val = PublishFlags_extract_qos (fh_flags fixed_header);
         retain = Retain \<in> set flags
     in res_bind (if qos_val = 0 then Inr AtMostOnce else if qos_val = 1 then Inr AtLeastOnce
          else if qos_val = 2 then Inr ExactlyOnce else Inl (MqttError.InvalidQoS qos_val)) (\<lambda>qos.
        if dup \<and> qos = AtMostOnce then Inl MqttError.MalformedPacket
        else res_bind (decode_string L buf) (\<lambda>(topic_name, buf).
          res_bind (if qos = AtMostOnce then Inr (None, buf)
            else if length buf < 2 then Inl MqttError.MalformedPacket
            else Inr (Some (lib_get_u16 L buf), drop 2 buf)) (\<lambda>(packet_id, buf).
          res_bind (if protocol_version = 5 then Properties_decode L buf
            else Inr (Properties_new, buf)) (\<lambda>(properties, buf).
            Inr (\<lparr>pub_topic_name = topic_name, pub_packet_id = packet_id, pub_payload = buf,
                  pub_qos = qos, pub_retain = retain, pub_dup = dup,
                  pub_properties = properties, pub_protocol_version = protocol_version,
                  pub_stream_id = None\<rparr>, []))))))"

definition PublishPacket_decode_body ::
  "wire_ops \<Rightarrow> bytes \<Rightarrow> FixedHeader \<Rightarrow> (PublishPacket \<times> bytes) result" where
  "PublishPacket_decode_body L = PublishPacket_decode_body_with_version L 5"

subsection \<open>Round trip\<close>

definition publish_ok :: "u8 \<Rightarrow> PublishPacket \<Rightarrow> bool" where
  "publish_ok version p \<longleftrightarrow>
     (version = 4 \<or> version = 5) \<and> pub_protocol_version p = version \<and> pub_stream_id p = None
     \<and> mqtt_string_ok (pub_topic_name p) \<and> properties_ok (pub_properties p)
     \<and> (version = 4 \<longrightarrow> Properties_is_empty (pub_properties p))
     \<and> (pub_qos p = AtMostOnce \<longrightarrow> pub_packet_id p = None \<and> \<not> pub_dup p)
     \<and> (pub_qos p \<noteq> AtMostOnce \<longrightarrow> pub_packet_id p \<noteq> None)"

lemma PublishPacket_flags_bits:
  "PublishPacket_flags p < 16"
  "PublishFlags_extract_qos (PublishPacket_flags p) = QoS_to_u8 (pub_qos p)"
  "PublishPacket_flags p AND PublishFlags_to_u8 Dup \<noteq> 0 \<longleftrightarrow> pub_dup p"
  "PublishPacket_flags p AND PublishFlags_to_u8 Retain \<noteq> 0 \<longleftrightarrow> pub_retain p"
  by (cases "pub_qos p"; simp add: PublishPacket_flags_def PublishFlags_with_qos_def
      PublishFlags_extract_qos_def Let_def)+

context wire_lib
begin

lemma PublishPacket_body_roundtrip:
  assumes ok: "publish_ok v p" and enc: "PublishPacket_encode_body L p = Inr b"
    and flags: "fh_flags h = PublishPacket_flags p"
  shows "PublishPacket_decode_body_with_version L v b h = Inr (p, [])"
proof -
  obtain pid props where b:
    "b = (lib_put_u16 L (word_of_nat (length (pub_topic_name p))) @ bytes_of_string (pub_topic_name p))
      @ pid @ props @ pub_payload p"
    "PublishPacket_encode_packet_id L p = Inr pid"
    "(if v = 5 then Properties_encode L (pub_properties p) else Inr []) = Inr props"
    using enc ok by (auto simp: PublishPacket_encode_body_def res_iffs publish_ok_def encode_string_ok)
  have "(if v = 5 then Properties_decode L (props @ pub_payload p)
      else Inr (Properties_new, props @ pub_payload p)) = Inr (pub_properties p, pub_payload p)"
    using b(3) ok Properties_decode_encode [of "pub_properties p" props]
    by (auto simp: publish_ok_def Properties_is_empty_iff Properties_new_def split: if_splits)
  moreover have "ProtocolVersion_try_from v \<noteq> None"
    using ok by (auto simp: publish_ok_def ProtocolVersion_try_from_def)
  moreover have "(if pub_qos p = AtMostOnce then Inr (None, pid @ r)
      else if length (pid @ r) < 2 then Inl MqttError.MalformedPacket
      else Inr (Some (lib_get_u16 L (pid @ r)), drop 2 (pid @ r))) = Inr (pub_packet_id p, r)" for r
    using ok b(2)
    by (auto simp: PublishPacket_encode_packet_id_def publish_ok_def res_iffs split: if_splits)
  moreover have "\<not> (pub_dup p \<and> pub_qos p = AtMostOnce)" "mqtt_string_ok (pub_topic_name p)"
    "pub_protocol_version p = v" "pub_stream_id p = None"
    using ok by (auto simp: publish_ok_def)
  moreover have "(if qv = 0 then Inr AtMostOnce else if qv = 1 then Inr AtLeastOnce
      else if qv = 2 then Inr ExactlyOnce else Inl (MqttError.InvalidQoS qv)) = Inr (pub_qos p)"
    if "qv = QoS_to_u8 (pub_qos p)" for qv
    using that by (cases "pub_qos p") simp_all
  ultimately show ?thesis
    using PublishPacket_flags_bits [of p]
    by (auto simp add: PublishPacket_decode_body_with_version_def b(1) flags Let_def
        publish_flags_decompose simp del: if_split intro: PublishPacket.equality)
qed

lemma PublishPacket_body_size:
  assumes "PublishPacket_encode_body L p = Inr b"
  shows "PublishPacket_body_encoded_size L p = length b"
  using assms
  by (auto simp: PublishPacket_encode_body_def PublishPacket_body_encoded_size_def
      PublishPacket_encode_packet_id_def encode_string_eq res_iffs Properties_encoded_len_eq
      split: if_splits)

lemma PublishPacket_encode_body_direct_iff:
  "PublishPacket_encode_body_direct L p = Inr b \<longleftrightarrow> PublishPacket_encode_body L p = Inr b"
  by (auto simp: PublishPacket_encode_body_direct_def PublishPacket_encode_body_def res_iffs
      Properties_encode_direct_iff)

end

sublocale wire_lib \<subseteq> publish: packet_codec L PacketType.Publish PublishPacket_flags
    "PublishPacket_encode_body L" "PublishPacket_decode_body_with_version L v" "publish_ok v" for v
  by unfold_locales
    (simp_all add: PublishPacket_flags_bits PublishPacket_body_roundtrip
      FixedHeader_validate_flags_def FixedHeader_new_def)

subsection \<open>Properties of the component\<close>

text \<open>
  C23: the fast PUBLISH encoder. \<open>encode_body_direct\<close>, which writes straight into the output
  buffer behind a length computed by \<open>body_encoded_size\<close>, writes exactly the bytes of
  \<open>encode_body\<close>, fails on the same packets, and the announced length is the number of bytes written.
\<close>

theorem publish_direct_encoder:
  assumes "wire_lib L"
  shows "case PublishPacket_encode_body L p of
      Inr b \<Rightarrow> PublishPacket_encode_body_direct L p = Inr b
        \<and> PublishPacket_body_encoded_size L p = length b
    | Inl _ \<Rightarrow> (case PublishPacket_encode_body_direct L p of Inl _ \<Rightarrow> True | Inr _ \<Rightarrow> False)"
  using wire_lib.PublishPacket_encode_body_direct_iff [OF assms, of p]
    wire_lib.PublishPacket_body_size [OF assms, of p]
  by (auto split: sum.split)

theorem publish_direct_encoder_witness:
  "PublishPacket_encode_body_direct ref_ops (PublishPacket_new_v311 ''a'' [7] AtMostOnce)
     = Inr [0, 1, 0x61, 7]
   \<and> PublishPacket_body_encoded_size ref_ops (PublishPacket_new_v311 ''a'' [7] AtMostOnce) = 4"
proof -
  have "PublishPacket_encode_body ref_ops (PublishPacket_new_v311 ''a'' [7] AtMostOnce)
     = Inr [0, 1, 0x61, 7]"
    by (simp add: PublishPacket_encode_body_def PublishPacket_new_v311_def
        PublishPacket_encode_packet_id_def eval_simps)
  then show ?thesis
    using publish_direct_encoder [OF wire_lib_ref_ops,
        of "PublishPacket_new_v311 ''a'' [7] AtMostOnce"] by simp
qed

end
