(* ===== verification/Packet_Connect.thy ===== *)
theory Packet_Connect
  imports Fixed_Header
begin

text \<open>
  The CONNECT packet (\<open>packet/connect.rs\<close>) with the option types it is built from
  (\<open>types/connect.rs\<close>, and the will message of \<open>types/message.rs\<close>): construction from options,
  the flag byte, and the codec for protocol versions 5 and 3.1.1.

  A \<open>Duration\<close> is its number of nanoseconds.
\<close>

subsection \<open>Will messages and options\<close>

record WillProperties =
  wp_will_delay_interval :: "u32 option"
  wp_payload_format_indicator :: "bool option"
  wp_message_expiry_interval :: "u32 option"
  wp_content_type :: "string option"
  wp_response_topic :: "string option"
  wp_correlation_data :: "bytes option"
  wp_user_properties :: "(string \<times> string) list"

definition WillProperties_default :: WillProperties where
  "WillProperties_default =
     \<lparr>wp_will_delay_interval = None, wp_payload_format_indicator = None,
      wp_message_expiry_interval = None, wp_content_type = None, wp_response_topic = None,
      wp_correlation_data = None, wp_user_properties = []\<rparr>"

record WillMessage =
  wm_topic :: string
  wm_payload :: bytes
  wm_qos :: QoS
  wm_retain :: bool
  wm_properties :: WillProperties

text \<open>\<open>if let Some(v) = x { ... }\<close> updating the properties.\<close>

definition if_some :: "'a option \<Rightarrow> (Properties \<Rightarrow> 'a \<Rightarrow> Properties) \<Rightarrow> Properties \<Rightarrow> Properties" where
  "if_some x f p = (case x of None \<Rightarrow> p | Some v \<Rightarrow> f p v)"

definition WillProperties_apply_to_publish_properties ::
  "WillProperties \<Rightarrow> Properties \<Rightarrow> Properties" where
  "WillProperties_apply_to_publish_properties w props =
     (let props = if_some (wp_payload_format_indicator w)
            Properties_set_payload_format_indicator props;
          props = if_some (wp_message_expiry_interval w)
            Properties_set_message_expiry_interval props;
          props = if_some (wp_content_type w) Properties_set_content_type props;
          props = if_some (wp_response_topic w) Properties_set_response_topic props;
          props = if_some (wp_correlation_data w) Properties_set_correlation_data props
      in fold (\<lambda>(k, v) p. Properties_add_user_property p k v) (wp_user_properties w) props)"

text \<open>\<open>let _ = properties.add(id, value)\<close>: a failing \<open>add\<close> leaves the properties unchanged.\<close>

definition add_ignore :: "Properties \<Rightarrow> PropertyId \<Rightarrow> PropertyValue \<Rightarrow> Properties" where
  "add_ignore p i v = (case Properties_add p i v of Inr q \<Rightarrow> q | Inl _ \<Rightarrow> p)"

definition add_user_properties :: "(string \<times> string) list \<Rightarrow> Properties \<Rightarrow> Properties" where
  "add_user_properties kvs p =
     fold (\<lambda>(k, v) p. add_ignore p PropertyId.UserProperty (PropertyValue.Utf8StringPair k v)) kvs p"

definition Properties_from_WillProperties :: "WillProperties \<Rightarrow> Properties" where
  "Properties_from_WillProperties w =
     (let p = Properties_new;
          p = if_some (wp_will_delay_interval w) (\<lambda>p v.
            add_ignore p PropertyId.WillDelayInterval (PropertyValue.FourByteInteger v)) p;
          p = if_some (wp_payload_format_indicator w) (\<lambda>p v.
            add_ignore p PropertyId.PayloadFormatIndicator (PropertyValue.Byte (of_bool v))) p;
          p = if_some (wp_message_expiry_interval w) (\<lambda>p v.
            add_ignore p PropertyId.MessageExpiryInterval (PropertyValue.FourByteInteger v)) p;
          p = if_some (wp_content_type w) (\<lambda>p v.
            add_ignore p PropertyId.ContentType (PropertyValue.Utf8String v)) p;
          p = if_some (wp_response_topic w) (\<lambda>p v.
            add_ignore p PropertyId.ResponseTopic (PropertyValue.Utf8String v)) p;
          p = if_some (wp_correlation_data w) (\<lambda>p v.
            add_ignore p PropertyId.CorrelationData (PropertyValue.BinaryData v)) p
      in add_user_properties (wp_user_properties w) p)"

record ConnectProperties =
  cp_session_expiry_interval :: "u32 option"
  cp_receive_maximum :: "u16 option"
  cp_maximum_packet_size :: "u32 option"
  cp_topic_alias_maximum :: "u16 option"
  cp_request_response_information :: "bool option"
  cp_request_problem_information :: "bool option"
  cp_user_properties :: "(string \<times> string) list"
  cp_authentication_method :: "string option"
  cp_authentication_data :: "bytes option"

definition ConnectProperties_default :: ConnectProperties where
  "ConnectProperties_default =
     \<lparr>cp_session_expiry_interval = None, cp_receive_maximum = None, cp_maximum_packet_size = None,
      cp_topic_alias_maximum = None, cp_request_response_information = None,
      cp_request_problem_information = None, cp_user_properties = [],
      cp_authentication_method = None, cp_authentication_data = None\<rparr>"

type_synonym Duration = nat

definition Duration_from_secs :: "nat \<Rightarrow> Duration" where
  "Duration_from_secs n = n * 1000000000"

definition Duration_as_secs :: "Duration \<Rightarrow> nat" where
  "Duration_as_secs d = d div 1000000000"

record ConnectOptions =
  co_client_id :: string
  co_keep_alive :: Duration
  co_clean_start :: bool
  co_username :: "string option"
  co_password :: "bytes option"
  co_will :: "WillMessage option"
  co_properties :: ConnectProperties
  co_protocol_version :: ProtocolVersion

definition ConnectOptions_new :: "string \<Rightarrow> ConnectOptions" where
  "ConnectOptions_new client_id =
     \<lparr>co_client_id = client_id, co_keep_alive = Duration_from_secs 60, co_clean_start = True,
      co_username = None, co_password = None, co_will = None,
      co_properties = ConnectProperties_default, co_protocol_version = V5\<rparr>"

subsection \<open>The packet\<close>

record ConnectPacket =
  con_protocol_version :: u8
  con_clean_start :: bool
  con_keep_alive :: u16
  con_client_id :: string
  con_username :: "string option"
  con_password :: "bytes option"
  con_will :: "WillMessage option"
  con_properties :: Properties
  con_will_properties :: Properties

definition PROTOCOL_NAME :: string where
  "PROTOCOL_NAME = ''MQTT''"

definition PROTOCOL_VERSION_V5 :: u8 where
  "PROTOCOL_VERSION_V5 = 5"

definition PROTOCOL_VERSION_V311 :: u8 where
  "PROTOCOL_VERSION_V311 = 4"

definition ConnectPacket_build_connect_properties :: "ConnectProperties \<Rightarrow> Properties" where
  "ConnectPacket_build_connect_properties props =
     (let p = Properties_new;
          p = if_some (cp_session_expiry_interval props) (\<lambda>p v.
            add_ignore p PropertyId.SessionExpiryInterval (PropertyValue.FourByteInteger v)) p;
          p = if_some (cp_receive_maximum props) (\<lambda>p v.
            add_ignore p PropertyId.ReceiveMaximum (PropertyValue.TwoByteInteger v)) p;
          p = if_some (cp_maximum_packet_size props) (\<lambda>p v.
            add_ignore p PropertyId.MaximumPacketSize (PropertyValue.FourByteInteger v)) p;
          p = if_some (cp_topic_alias_maximum props) (\<lambda>p v.
            add_ignore p PropertyId.TopicAliasMaximum (PropertyValue.TwoByteInteger v)) p;
          p = if_some (cp_request_response_information props) (\<lambda>p v.
            add_ignore p PropertyId.RequestResponseInformation (PropertyValue.Byte (of_bool v))) p;
          p = if_some (cp_request_problem_information props) (\<lambda>p v.
            add_ignore p PropertyId.RequestProblemInformation (PropertyValue.Byte (of_bool v))) p;
          p = if_some (cp_authentication_method props) (\<lambda>p v.
            add_ignore p PropertyId.AuthenticationMethod (PropertyValue.Utf8String v)) p;
          p = if_some (cp_authentication_data props) (\<lambda>p v.
            add_ignore p PropertyId.AuthenticationData (PropertyValue.BinaryData v)) p
      in add_user_properties (cp_user_properties props) p)"

definition ConnectPacket_build_will_properties :: "WillProperties \<Rightarrow> Properties" where
  "ConnectPacket_build_will_properties w =
     (let p = Properties_new;
          p = if_some (wp_will_delay_interval w) (\<lambda>p v.
            add_ignore p PropertyId.WillDelayInterval (PropertyValue.FourByteInteger v)) p;
          p = if_some (wp_payload_format_indicator w) (\<lambda>p v.
            add_ignore p PropertyId.PayloadFormatIndicator (PropertyValue.Byte (of_bool v))) p;
          p = if_some (wp_message_expiry_interval w) (\<lambda>p v.
            add_ignore p PropertyId.MessageExpiryInterval (PropertyValue.FourByteInteger v)) p;
          p = if_some (wp_content_type w) (\<lambda>p v.
            add_ignore p PropertyId.ContentType (PropertyValue.Utf8String v)) p;
          p = if_some (wp_response_topic w) (\<lambda>p v.
            add_ignore p PropertyId.ResponseTopic (PropertyValue.Utf8String v)) p;
          p = if_some (wp_correlation_data w) (\<lambda>p v.
            add_ignore p PropertyId.CorrelationData (PropertyValue.BinaryData v)) p
      in add_user_properties (wp_user_properties w) p)"

definition ConnectPacket_calculate_keep_alive :: "Duration \<Rightarrow> u16" where
  "ConnectPacket_calculate_keep_alive keep_alive =
     word_of_nat (min (Duration_as_secs keep_alive) 65535)"

definition ConnectPacket_new :: "ConnectOptions \<Rightarrow> ConnectPacket" where
  "ConnectPacket_new options =
     \<lparr>con_protocol_version = PROTOCOL_VERSION_V5,
      con_clean_start = co_clean_start options,
      con_keep_alive = ConnectPacket_calculate_keep_alive (co_keep_alive options),
      con_client_id = co_client_id options,
      con_username = co_username options,
      con_password = co_password options,
      con_will = co_will options,
      con_properties = ConnectPacket_build_connect_properties (co_properties options),
      con_will_properties =
        (case co_will options of
           None \<Rightarrow> Properties_new
         | Some will \<Rightarrow> ConnectPacket_build_will_properties (wm_properties will))\<rparr>"

definition ConnectPacket_new_v311 :: "ConnectOptions \<Rightarrow> ConnectPacket" where
  "ConnectPacket_new_v311 options =
     \<lparr>con_protocol_version = PROTOCOL_VERSION_V311,
      con_clean_start = co_clean_start options,
      con_keep_alive = ConnectPacket_calculate_keep_alive (co_keep_alive options),
      con_client_id = co_client_id options,
      con_username = co_username options,
      con_password = co_password options,
      con_will = co_will options,
      con_properties = Properties_new,
      con_will_properties = Properties_new\<rparr>"

definition ConnectPacket_connect_flags :: "ConnectPacket \<Rightarrow> u8" where
  "ConnectPacket_connect_flags p =
     (let flags = (if con_clean_start p then 0 OR ConnectFlags_to_u8 CleanStart else 0);
          flags = (case con_will p of
              None \<Rightarrow> flags
            | Some will \<Rightarrow>
                let flags = flags OR ConnectFlags_to_u8 WillFlag;
                    flags = ConnectFlags_with_will_qos flags (QoS_to_u8 (wm_qos will))
                in if wm_retain will then flags OR ConnectFlags_to_u8 WillRetain else flags);
          flags = (if con_username p \<noteq> None then flags OR ConnectFlags_to_u8 UsernameFlag else flags)
      in if con_password p \<noteq> None then flags OR ConnectFlags_to_u8 PasswordFlag else flags)"

definition ConnectPacket_encode_body :: "wire_ops \<Rightarrow> ConnectPacket \<Rightarrow> bytes result" where
  "ConnectPacket_encode_body L p =
     res_bind (encode_string L PROTOCOL_NAME) (\<lambda>name.
     res_bind (if con_protocol_version p = PROTOCOL_VERSION_V5
               then Properties_encode L (con_properties p) else Inr []) (\<lambda>props.
     res_bind (encode_string L (con_client_id p)) (\<lambda>client_id.
     res_bind (case con_will p of
         None \<Rightarrow> Inr []
       | Some will \<Rightarrow>
           res_bind (if con_protocol_version p = PROTOCOL_VERSION_V5
                     then Properties_encode L (con_will_properties p) else Inr []) (\<lambda>wprops.
           res_bind (encode_string L (wm_topic will)) (\<lambda>topic.
           res_bind (encode_binary L (wm_payload will)) (\<lambda>payload.
             Inr (wprops @ topic @ payload))))) (\<lambda>will.
     res_bind (case con_username p of None \<Rightarrow> Inr [] | Some u \<Rightarrow> encode_string L u) (\<lambda>username.
     res_bind (case con_password p of None \<Rightarrow> Inr [] | Some d \<Rightarrow> encode_binary L d) (\<lambda>password.
       Inr (name @ [con_protocol_version p, ConnectPacket_connect_flags p]
         @ lib_put_u16 L (con_keep_alive p) @ props @ client_id @ will @ username @ password)))))))"

record DecodedConnectFlags =
  dcf_clean_start :: bool
  dcf_will_flag :: bool
  dcf_will_qos :: u8
  dcf_will_retain :: bool
  dcf_username_flag :: bool
  dcf_password_flag :: bool

definition ConnectPacket_decode_protocol_header :: "wire_ops \<Rightarrow> bytes \<Rightarrow> (u8 \<times> bytes) result" where
  "ConnectPacket_decode_protocol_header L buf =
     res_bind (decode_string L buf) (\<lambda>(protocol_name, buf).
       if protocol_name \<noteq> PROTOCOL_NAME then Inl MqttError.ProtocolError
       else case buf of
         [] \<Rightarrow> Inl MqttError.MalformedPacket
       | protocol_version # buf \<Rightarrow> Inr (protocol_version, buf))"

definition ConnectPacket_decode_connect_flags_and_keepalive ::
  "wire_ops \<Rightarrow> bytes \<Rightarrow> ((DecodedConnectFlags \<times> u16) \<times> bytes) result" where
  "ConnectPacket_decode_connect_flags_and_keepalive L buf =
     (case buf of
        [] \<Rightarrow> Inl MqttError.MalformedPacket
      | flags # buf \<Rightarrow>
          let decomposed_flags = set (lib_ConnectFlags_decompose L flags) in
          if Reserved \<in> decomposed_flags then Inl MqttError.MalformedPacket
          else let will_flag = WillFlag \<in> decomposed_flags;
                   will_qos = ConnectFlags_extract_will_qos flags;
                   will_retain = WillRetain \<in> decomposed_flags
          in if \<not> will_flag \<and> will_qos \<noteq> 0 then Inl MqttError.MalformedPacket
          else if \<not> will_flag \<and> will_retain then Inl MqttError.MalformedPacket
          else let decoded_flags =
                 \<lparr>dcf_clean_start = (CleanStart \<in> decomposed_flags), dcf_will_flag = will_flag,
                  dcf_will_qos = will_qos, dcf_will_retain = will_retain,
                  dcf_username_flag = (UsernameFlag \<in> decomposed_flags),
                  dcf_password_flag = (PasswordFlag \<in> decomposed_flags)\<rparr>
          in if length buf < 2 then Inl MqttError.MalformedPacket
          else Inr ((decoded_flags, lib_get_u16 L buf), drop 2 buf))"

definition ConnectPacket_properties_to_will_properties :: "Properties \<Rightarrow> WillProperties" where
  "ConnectPacket_properties_to_will_properties props =
     \<lparr>wp_will_delay_interval =
        (case Properties_get props PropertyId.WillDelayInterval of
           Some (PropertyValue.FourByteInteger delay) \<Rightarrow> Some delay | _ \<Rightarrow> None),
      wp_payload_format_indicator =
        (case Properties_get props PropertyId.PayloadFormatIndicator of
           Some (PropertyValue.Byte indicator) \<Rightarrow> Some (indicator \<noteq> 0) | _ \<Rightarrow> None),
      wp_message_expiry_interval =
        (case Properties_get props PropertyId.MessageExpiryInterval of
           Some (PropertyValue.FourByteInteger expiry) \<Rightarrow> Some expiry | _ \<Rightarrow> None),
      wp_content_type =
        (case Properties_get props PropertyId.ContentType of
           Some (PropertyValue.Utf8String content_type) \<Rightarrow> Some content_type | _ \<Rightarrow> None),
      wp_response_topic =
        (case Properties_get props PropertyId.ResponseTopic of
           Some (PropertyValue.Utf8String topic) \<Rightarrow> Some topic | _ \<Rightarrow> None),
      wp_correlation_data =
        (case Properties_get props PropertyId.CorrelationData of
           Some (PropertyValue.BinaryData data) \<Rightarrow> Some data | _ \<Rightarrow> None),
      wp_user_properties =
        (case Properties_get_all props PropertyId.UserProperty of
           None \<Rightarrow> []
         | Some values \<Rightarrow> List.map_filter (\<lambda>v. case v of
             PropertyValue.Utf8StringPair k val \<Rightarrow> Some (k, val) | _ \<Rightarrow> None) values)\<rparr>"

definition ConnectPacket_decode_will ::
  "wire_ops \<Rightarrow> DecodedConnectFlags \<Rightarrow> u8 \<Rightarrow> bytes \<Rightarrow>
   ((WillMessage option \<times> Properties) \<times> bytes) result" where
  "ConnectPacket_decode_will L flags protocol_version buf =
     (if \<not> dcf_will_flag flags then Inr ((None, Properties_new), buf)
      else
        res_bind (if protocol_version = PROTOCOL_VERSION_V5 then Properties_decode L buf
                  else Inr (Properties_new, buf)) (\<lambda>(will_properties, buf).
        res_bind (decode_string L buf) (\<lambda>(topic, buf).
        res_bind (decode_binary L buf) (\<lambda>(payload, buf).
        res_bind (if dcf_will_qos flags = 0 then Inr AtMostOnce
          else if dcf_will_qos flags = 1 then Inr AtLeastOnce
          else if dcf_will_qos flags = 2 then Inr ExactlyOnce
          else Inl MqttError.MalformedPacket) (\<lambda>qos.
          Inr ((Some \<lparr>wm_topic = topic, wm_payload = payload, wm_qos = qos,
                  wm_retain = dcf_will_retain flags,
                  wm_properties = ConnectPacket_properties_to_will_properties will_properties\<rparr>,
                will_properties), buf))))))"

definition ConnectPacket_decode_credentials ::
  "wire_ops \<Rightarrow> DecodedConnectFlags \<Rightarrow> bytes \<Rightarrow> ((string option \<times> bytes option) \<times> bytes) result" where
  "ConnectPacket_decode_credentials L flags buf =
     res_bind (if dcf_username_flag flags
               then res_bind (decode_string L buf) (\<lambda>(u, buf). Inr (Some u, buf))
               else Inr (None, buf)) (\<lambda>(username, buf).
     res_bind (if dcf_password_flag flags
               then res_bind (decode_binary L buf) (\<lambda>(d, buf). Inr (Some d, buf))
               else Inr (None, buf)) (\<lambda>(password, buf).
       if password \<noteq> None \<and> username = None then Inl MqttError.MalformedPacket
       else Inr ((username, password), buf)))"

definition ConnectPacket_decode_body ::
  "wire_ops \<Rightarrow> bytes \<Rightarrow> FixedHeader \<Rightarrow> (ConnectPacket \<times> bytes) result" where
  "ConnectPacket_decode_body L buf fixed_header =
     res_bind (ConnectPacket_decode_protocol_header L buf) (\<lambda>(protocol_version, buf).
     res_bind (ConnectPacket_decode_connect_flags_and_keepalive L buf) (\<lambda>((flags, keep_alive), buf).
     res_bind (if protocol_version = PROTOCOL_VERSION_V5 then Properties_decode L buf
               else Inr (Properties_new, buf)) (\<lambda>(properties, buf).
     res_bind (decode_string L buf) (\<lambda>(client_id, buf).
     res_bind (ConnectPacket_decode_will L flags protocol_version buf)
       (\<lambda>((will, will_properties), buf).
     res_bind (ConnectPacket_decode_credentials L flags buf) (\<lambda>((username, password), buf).
       Inr (\<lparr>con_protocol_version = protocol_version, con_clean_start = dcf_clean_start flags,
             con_keep_alive = keep_alive, con_client_id = client_id, con_username = username,
             con_password = password, con_will = will, con_properties = properties,
             con_will_properties = will_properties\<rparr>, buf)))))))"

subsection \<open>The flag byte\<close>

lemma ConnectPacket_flags_bits:
  fixes p :: ConnectPacket
  defines "f \<equiv> ConnectPacket_connect_flags p"
  shows "f AND ConnectFlags_to_u8 Reserved = 0"
    and "f AND ConnectFlags_to_u8 CleanStart \<noteq> 0 \<longleftrightarrow> con_clean_start p"
    and "f AND ConnectFlags_to_u8 WillFlag \<noteq> 0 \<longleftrightarrow> con_will p \<noteq> None"
    and "f AND ConnectFlags_to_u8 WillRetain \<noteq> 0 \<longleftrightarrow>
      (case con_will p of None \<Rightarrow> False | Some w \<Rightarrow> wm_retain w)"
    and "f AND ConnectFlags_to_u8 UsernameFlag \<noteq> 0 \<longleftrightarrow> con_username p \<noteq> None"
    and "f AND ConnectFlags_to_u8 PasswordFlag \<noteq> 0 \<longleftrightarrow> con_password p \<noteq> None"
    and "ConnectFlags_extract_will_qos f =
      (case con_will p of None \<Rightarrow> 0 | Some w \<Rightarrow> QoS_to_u8 (wm_qos w))"
proof -
  have will: "\<exists>q. wm_qos w = q" for w
    by simp
  have *: "f AND ConnectFlags_to_u8 Reserved = 0
    \<and> (f AND ConnectFlags_to_u8 CleanStart \<noteq> 0 \<longleftrightarrow> con_clean_start p)
    \<and> (f AND ConnectFlags_to_u8 WillFlag \<noteq> 0 \<longleftrightarrow> con_will p \<noteq> None)
    \<and> (f AND ConnectFlags_to_u8 WillRetain \<noteq> 0 \<longleftrightarrow>
      (case con_will p of None \<Rightarrow> False | Some w \<Rightarrow> wm_retain w))
    \<and> (f AND ConnectFlags_to_u8 UsernameFlag \<noteq> 0 \<longleftrightarrow> con_username p \<noteq> None)
    \<and> (f AND ConnectFlags_to_u8 PasswordFlag \<noteq> 0 \<longleftrightarrow> con_password p \<noteq> None)
    \<and> (ConnectFlags_extract_will_qos f =
      (case con_will p of None \<Rightarrow> 0 | Some w \<Rightarrow> QoS_to_u8 (wm_qos w)))"
  proof (cases "con_will p")
    case None
    then show ?thesis
      by (simp add: f_def ConnectPacket_connect_flags_def ConnectFlags_extract_will_qos_def Let_def)
  next
    case (Some w)
    then show ?thesis
      by (cases "wm_qos w")
        (simp_all add: f_def ConnectPacket_connect_flags_def ConnectFlags_extract_will_qos_def
          ConnectFlags_with_will_qos_def Let_def)
  qed
  then show "f AND ConnectFlags_to_u8 Reserved = 0"
    and "f AND ConnectFlags_to_u8 CleanStart \<noteq> 0 \<longleftrightarrow> con_clean_start p"
    and "f AND ConnectFlags_to_u8 WillFlag \<noteq> 0 \<longleftrightarrow> con_will p \<noteq> None"
    and "f AND ConnectFlags_to_u8 WillRetain \<noteq> 0 \<longleftrightarrow>
      (case con_will p of None \<Rightarrow> False | Some w \<Rightarrow> wm_retain w)"
    and "f AND ConnectFlags_to_u8 UsernameFlag \<noteq> 0 \<longleftrightarrow> con_username p \<noteq> None"
    and "f AND ConnectFlags_to_u8 PasswordFlag \<noteq> 0 \<longleftrightarrow> con_password p \<noteq> None"
    and "ConnectFlags_extract_will_qos f =
      (case con_will p of None \<Rightarrow> 0 | Some w \<Rightarrow> QoS_to_u8 (wm_qos w))"
    by blast+
qed

subsection \<open>Properties built from options\<close>

lemma add_ignore_fresh:
  "PropertyValue_value_type v = PropertyId_value_type i \<Longrightarrow> p i = None \<Longrightarrow>
   add_ignore p i v = p(i \<mapsto> [v])"
  by (simp add: add_ignore_def Properties_add_def PropertyValue_matches_type_def Properties_push_def)

lemma add_user_properties_eq:
  "add_user_properties kvs p =
     (if kvs = [] then p
      else p(PropertyId.UserProperty \<mapsto>
        (case p PropertyId.UserProperty of None \<Rightarrow> [] | Some vs \<Rightarrow> vs)
        @ map (\<lambda>(k, v). PropertyValue.Utf8StringPair k v) kvs))"
proof (induction kvs arbitrary: p)
  case Nil
  then show ?case by (simp add: add_user_properties_def)
next
  case (Cons kv kvs)
  obtain k v where kv: "kv = (k, v)"
    by (cases kv)
  have "add_user_properties (kv # kvs) p =
      add_user_properties kvs
        (Properties_push p PropertyId.UserProperty (PropertyValue.Utf8StringPair k v))"
    by (simp add: kv add_user_properties_def add_ignore_def Properties_add_def
        PropertyValue_matches_type_def PropertyId_allows_multiple_def)
  then show ?case
    by (simp add: Cons.IH kv Properties_push_def fun_eq_iff)
qed

lemma if_some_add_ignore:
  "p i = None \<Longrightarrow> (\<And>v. PropertyValue_value_type (g v) = PropertyId_value_type i) \<Longrightarrow>
   if_some x (\<lambda>p v. add_ignore p i (g v)) p = p(i := map_option (\<lambda>v. [g v]) x)"
  by (cases x) (auto simp: if_some_def add_ignore_fresh)

text \<open>The property map a will is encoded with, as a table.\<close>

lemma build_will_properties_eq:
  "ConnectPacket_build_will_properties w i =
     (case i of
        PropertyId.WillDelayInterval \<Rightarrow>
          map_option (\<lambda>v. [PropertyValue.FourByteInteger v]) (wp_will_delay_interval w)
      | PropertyId.PayloadFormatIndicator \<Rightarrow>
          map_option (\<lambda>v. [PropertyValue.Byte (of_bool v)]) (wp_payload_format_indicator w)
      | PropertyId.MessageExpiryInterval \<Rightarrow>
          map_option (\<lambda>v. [PropertyValue.FourByteInteger v]) (wp_message_expiry_interval w)
      | PropertyId.ContentType \<Rightarrow>
          map_option (\<lambda>v. [PropertyValue.Utf8String v]) (wp_content_type w)
      | PropertyId.ResponseTopic \<Rightarrow>
          map_option (\<lambda>v. [PropertyValue.Utf8String v]) (wp_response_topic w)
      | PropertyId.CorrelationData \<Rightarrow>
          map_option (\<lambda>v. [PropertyValue.BinaryData v]) (wp_correlation_data w)
      | PropertyId.UserProperty \<Rightarrow>
          (if wp_user_properties w = [] then None
           else Some (map (\<lambda>(k, v). PropertyValue.Utf8StringPair k v) (wp_user_properties w)))
      | _ \<Rightarrow> None)"
proof -
  have "ConnectPacket_build_will_properties w = add_user_properties (wp_user_properties w)
    (Map.empty(
      PropertyId.WillDelayInterval :=
        map_option (\<lambda>v. [PropertyValue.FourByteInteger v]) (wp_will_delay_interval w),
      PropertyId.PayloadFormatIndicator :=
        map_option (\<lambda>v. [PropertyValue.Byte (of_bool v)]) (wp_payload_format_indicator w),
      PropertyId.MessageExpiryInterval :=
        map_option (\<lambda>v. [PropertyValue.FourByteInteger v]) (wp_message_expiry_interval w),
      PropertyId.ContentType :=
        map_option (\<lambda>v. [PropertyValue.Utf8String v]) (wp_content_type w),
      PropertyId.ResponseTopic :=
        map_option (\<lambda>v. [PropertyValue.Utf8String v]) (wp_response_topic w),
      PropertyId.CorrelationData :=
        map_option (\<lambda>v. [PropertyValue.BinaryData v]) (wp_correlation_data w)))"
    by (simp add: ConnectPacket_build_will_properties_def Let_def if_some_add_ignore
        Properties_new_def)
  then show ?thesis
    by (cases i) (simp_all add: add_user_properties_eq)
qed

lemma build_connect_properties_eq:
  "ConnectPacket_build_connect_properties c i =
     (case i of
        PropertyId.SessionExpiryInterval \<Rightarrow>
          map_option (\<lambda>v. [PropertyValue.FourByteInteger v]) (cp_session_expiry_interval c)
      | PropertyId.ReceiveMaximum \<Rightarrow>
          map_option (\<lambda>v. [PropertyValue.TwoByteInteger v]) (cp_receive_maximum c)
      | PropertyId.MaximumPacketSize \<Rightarrow>
          map_option (\<lambda>v. [PropertyValue.FourByteInteger v]) (cp_maximum_packet_size c)
      | PropertyId.TopicAliasMaximum \<Rightarrow>
          map_option (\<lambda>v. [PropertyValue.TwoByteInteger v]) (cp_topic_alias_maximum c)
      | PropertyId.RequestResponseInformation \<Rightarrow>
          map_option (\<lambda>v. [PropertyValue.Byte (of_bool v)]) (cp_request_response_information c)
      | PropertyId.RequestProblemInformation \<Rightarrow>
          map_option (\<lambda>v. [PropertyValue.Byte (of_bool v)]) (cp_request_problem_information c)
      | PropertyId.AuthenticationMethod \<Rightarrow>
          map_option (\<lambda>v. [PropertyValue.Utf8String v]) (cp_authentication_method c)
      | PropertyId.AuthenticationData \<Rightarrow>
          map_option (\<lambda>v. [PropertyValue.BinaryData v]) (cp_authentication_data c)
      | PropertyId.UserProperty \<Rightarrow>
          (if cp_user_properties c = [] then None
           else Some (map (\<lambda>(k, v). PropertyValue.Utf8StringPair k v) (cp_user_properties c)))
      | _ \<Rightarrow> None)"
proof -
  have "ConnectPacket_build_connect_properties c = add_user_properties (cp_user_properties c)
    (Map.empty(
      PropertyId.SessionExpiryInterval :=
        map_option (\<lambda>v. [PropertyValue.FourByteInteger v]) (cp_session_expiry_interval c),
      PropertyId.ReceiveMaximum :=
        map_option (\<lambda>v. [PropertyValue.TwoByteInteger v]) (cp_receive_maximum c),
      PropertyId.MaximumPacketSize :=
        map_option (\<lambda>v. [PropertyValue.FourByteInteger v]) (cp_maximum_packet_size c),
      PropertyId.TopicAliasMaximum :=
        map_option (\<lambda>v. [PropertyValue.TwoByteInteger v]) (cp_topic_alias_maximum c),
      PropertyId.RequestResponseInformation :=
        map_option (\<lambda>v. [PropertyValue.Byte (of_bool v)]) (cp_request_response_information c),
      PropertyId.RequestProblemInformation :=
        map_option (\<lambda>v. [PropertyValue.Byte (of_bool v)]) (cp_request_problem_information c),
      PropertyId.AuthenticationMethod :=
        map_option (\<lambda>v. [PropertyValue.Utf8String v]) (cp_authentication_method c),
      PropertyId.AuthenticationData :=
        map_option (\<lambda>v. [PropertyValue.BinaryData v]) (cp_authentication_data c)))"
    by (simp add: ConnectPacket_build_connect_properties_def Let_def if_some_add_ignore
        Properties_new_def)
  then show ?thesis
    by (cases i) (simp_all add: add_user_properties_eq)
qed

text \<open>Reading the will properties back recovers the options they were built from.\<close>

lemma map_filter_pairs:
  "List.map_filter (\<lambda>v. case v of PropertyValue.Utf8StringPair k val \<Rightarrow> Some (k, val) | _ \<Rightarrow> None)
     (map (\<lambda>(k, v). PropertyValue.Utf8StringPair k v) kvs) = kvs"
  by (induction kvs) (auto simp: map_filter_def)

lemma will_properties_roundtrip:
  "ConnectPacket_properties_to_will_properties (ConnectPacket_build_will_properties w) = w"
  by (rule WillProperties.equality)
    (simp_all add: ConnectPacket_properties_to_will_properties_def Properties_get_def
      Properties_get_all_def build_will_properties_eq map_filter_pairs split: option.splits)

lemma map_filter_Nil: "List.map_filter f [] = []"
  by (simp add: map_filter_def)

lemma properties_to_will_properties_new:
  "ConnectPacket_properties_to_will_properties Properties_new = WillProperties_default"
  by (simp add: ConnectPacket_properties_to_will_properties_def Properties_new_def
      Properties_get_def Properties_get_all_def WillProperties_default_def)

definition string_pairs_ok :: "(string \<times> string) list \<Rightarrow> bool" where
  "string_pairs_ok kvs \<longleftrightarrow> list_all (\<lambda>(k, v). mqtt_string_ok k \<and> mqtt_string_ok v) kvs"

definition will_properties_ok :: "WillProperties \<Rightarrow> bool" where
  "will_properties_ok w \<longleftrightarrow>
     pred_option mqtt_string_ok (wp_content_type w)
     \<and> pred_option mqtt_string_ok (wp_response_topic w)
     \<and> pred_option (\<lambda>d. length d \<le> 65535) (wp_correlation_data w)
     \<and> string_pairs_ok (wp_user_properties w)"

definition connect_properties_ok :: "ConnectProperties \<Rightarrow> bool" where
  "connect_properties_ok c \<longleftrightarrow>
     pred_option mqtt_string_ok (cp_authentication_method c)
     \<and> pred_option (\<lambda>d. length d \<le> 65535) (cp_authentication_data c)
     \<and> string_pairs_ok (cp_user_properties c)"

lemma user_entry_ok:
  "kvs \<noteq> [] \<Longrightarrow> string_pairs_ok kvs \<Longrightarrow>
   entry_ok PropertyId.UserProperty (map (\<lambda>(k, v). PropertyValue.Utf8StringPair k v) kvs)"
  by (auto simp: entry_ok_def list_all_iff string_pairs_ok_def PropertyId_allows_multiple_def
      property_value_ok_def)

lemma entry_ok_single:
  "entry_ok i [v] \<longleftrightarrow>
     PropertyValue_value_type v = PropertyId_value_type i \<and> property_value_ok v"
  "property_value_ok (PropertyValue.Byte b)"
  "property_value_ok (PropertyValue.TwoByteInteger x)"
  "property_value_ok (PropertyValue.FourByteInteger y)"
  "property_value_ok (PropertyValue.BinaryData d) \<longleftrightarrow> length d \<le> 65535"
  "property_value_ok (PropertyValue.Utf8String s) \<longleftrightarrow> mqtt_string_ok s"
  by (auto simp: entry_ok_def property_value_ok_def)

lemma build_will_properties_ok:
  "will_properties_ok w \<Longrightarrow> properties_ok (ConnectPacket_build_will_properties w)"
  unfolding properties_ok_iff
proof (intro allI impI)
  fix i vs
  assume "will_properties_ok w" "ConnectPacket_build_will_properties w i = Some vs"
  then show "entry_ok i vs"
    by (cases i) (auto simp: build_will_properties_eq will_properties_ok_def user_entry_ok
        entry_ok_single split: if_splits)
qed

lemma build_connect_properties_ok:
  "connect_properties_ok c \<Longrightarrow> properties_ok (ConnectPacket_build_connect_properties c)"
  unfolding properties_ok_iff
proof (intro allI impI)
  fix i vs
  assume "connect_properties_ok c" "ConnectPacket_build_connect_properties c i = Some vs"
  then show "entry_ok i vs"
    by (cases i) (auto simp: build_connect_properties_eq connect_properties_ok_def user_entry_ok
        entry_ok_single split: if_splits)
qed

subsection \<open>Round trip\<close>

definition connect_wire_ok :: "ConnectPacket \<Rightarrow> bool" where
  "connect_wire_ok p \<longleftrightarrow>
     mqtt_string_ok (con_client_id p)
     \<and> properties_ok (con_properties p)
     \<and> (con_protocol_version p \<noteq> 5 \<longrightarrow> Properties_is_empty (con_properties p))
     \<and> pred_option mqtt_string_ok (con_username p)
     \<and> pred_option (\<lambda>d. length d \<le> 65535) (con_password p)
     \<and> (case con_will p of
          None \<Rightarrow> Properties_is_empty (con_will_properties p)
        | Some w \<Rightarrow> mqtt_string_ok (wm_topic w) \<and> length (wm_payload w) \<le> 65535
            \<and> properties_ok (con_will_properties p)
            \<and> (con_protocol_version p \<noteq> 5 \<longrightarrow> Properties_is_empty (con_will_properties p))
            \<and> wm_properties w =
                ConnectPacket_properties_to_will_properties (con_will_properties p))"

definition connect_ok :: "ConnectPacket \<Rightarrow> bool" where
  "connect_ok p \<longleftrightarrow>
     connect_wire_ok p \<and> (con_password p \<noteq> None \<longrightarrow> con_username p \<noteq> None)"

definition decoded_flags :: "ConnectPacket \<Rightarrow> DecodedConnectFlags" where
  "decoded_flags p =
     \<lparr>dcf_clean_start = con_clean_start p, dcf_will_flag = (con_will p \<noteq> None),
      dcf_will_qos = (case con_will p of None \<Rightarrow> 0 | Some w \<Rightarrow> QoS_to_u8 (wm_qos w)),
      dcf_will_retain = (case con_will p of None \<Rightarrow> False | Some w \<Rightarrow> wm_retain w),
      dcf_username_flag = (con_username p \<noteq> None),
      dcf_password_flag = (con_password p \<noteq> None)\<rparr>"

lemma mqtt_string_ok_PROTOCOL_NAME: "mqtt_string_ok PROTOCOL_NAME"
  by (simp add: mqtt_string_ok_def PROTOCOL_NAME_def eval_simps)

context wire_lib
begin

lemma ConnectPacket_decode_flags:
  "ConnectPacket_decode_connect_flags_and_keepalive L
     (ConnectPacket_connect_flags p # lib_put_u16 L k @ r) = Inr ((decoded_flags p, k), r)"
  using ConnectPacket_flags_bits [of p]
  by (cases "con_will p")
    (simp_all add: ConnectPacket_decode_connect_flags_and_keepalive_def Let_def
      connect_flags_decompose decoded_flags_def)

lemma ConnectPacket_decode_will_app:
  assumes "connect_wire_ok p" "con_will p = Some w"
    and "(if con_protocol_version p = 5 then Properties_encode L (con_will_properties p)
          else Inr []) = Inr wprops"
    and "encode_string L (wm_topic w) = Inr topic" "encode_binary L (wm_payload w) = Inr payload"
  shows "ConnectPacket_decode_will L (decoded_flags p) (con_protocol_version p)
      (wprops @ topic @ payload @ r) = Inr ((Some w, con_will_properties p), r)"
proof -
  have ok: "mqtt_string_ok (wm_topic w)" "length (wm_payload w) \<le> 65535"
    "properties_ok (con_will_properties p)"
    "con_protocol_version p \<noteq> 5 \<longrightarrow> Properties_is_empty (con_will_properties p)"
    "ConnectPacket_properties_to_will_properties (con_will_properties p) = wm_properties w"
    using assms(1,2) by (auto simp: connect_wire_ok_def)
  have qos: "(if qv = 0 then Inr AtMostOnce else if qv = 1 then Inr AtLeastOnce
      else if qv = 2 then Inr ExactlyOnce else Inl MqttError.MalformedPacket) = Inr (wm_qos w)"
    if "qv = QoS_to_u8 (wm_qos w)" for qv
    using that by (cases "wm_qos w") simp_all
  have topic: "decode_string L (topic @ r) = Inr (wm_topic w, r)" for r
    using assms(4) ok(1) by (auto simp: encode_string_ok)
  have payload: "decode_binary L (payload @ r) = Inr (wm_payload w, r)" for r
    using assms(5) ok(2) by (auto simp: encode_binary_eq)
  have flags: "dcf_will_flag (decoded_flags p)" "dcf_will_retain (decoded_flags p) = wm_retain w"
    "dcf_will_qos (decoded_flags p) = QoS_to_u8 (wm_qos w)"
    using assms(2) by (simp_all add: decoded_flags_def)
  show ?thesis
    using ok(4) optional_properties_roundtrip [OF assms(3) ok(3), of "topic @ payload @ r"]
      qos [OF flags(3)]
    by (auto simp: ConnectPacket_decode_will_def PROTOCOL_VERSION_V5_def topic payload
        flags(1,2) ok(5) split del: if_split intro: WillMessage.equality)
qed

lemma ConnectPacket_decode_credentials_app:
  assumes "connect_wire_ok p"
    and "(case con_username p of None \<Rightarrow> Inr [] | Some u \<Rightarrow> encode_string L u) = Inr username"
    and "(case con_password p of None \<Rightarrow> Inr [] | Some d \<Rightarrow> encode_binary L d) = Inr password"
  shows "ConnectPacket_decode_credentials L (decoded_flags p) (username @ password @ r) =
    (if con_password p \<noteq> None \<and> con_username p = None then Inl MqttError.MalformedPacket
     else Inr ((con_username p, con_password p), r))"
  using assms
  by (cases "con_username p"; cases "con_password p")
    (auto simp: connect_wire_ok_def ConnectPacket_decode_credentials_def decoded_flags_def
      encode_string_ok encode_binary_eq)

lemma ConnectPacket_decode_encode_body:
  assumes ok: "connect_wire_ok p" and enc: "ConnectPacket_encode_body L p = Inr b"
  shows "ConnectPacket_decode_body L b h =
    (if con_password p \<noteq> None \<and> con_username p = None then Inl MqttError.MalformedPacket
     else Inr (p, []))"
proof -
  obtain props cid will username password where parts:
    "(if con_protocol_version p = 5 then Properties_encode L (con_properties p) else Inr []) = Inr props"
    "encode_string L (con_client_id p) = Inr cid"
    "(case con_will p of None \<Rightarrow> Inr []
      | Some w \<Rightarrow> res_bind (if con_protocol_version p = 5
            then Properties_encode L (con_will_properties p) else Inr []) (\<lambda>wprops.
          res_bind (encode_string L (wm_topic w)) (\<lambda>topic.
          res_bind (encode_binary L (wm_payload w)) (\<lambda>payload.
            Inr (wprops @ topic @ payload))))) = Inr will"
    "(case con_username p of None \<Rightarrow> Inr [] | Some u \<Rightarrow> encode_string L u) = Inr username"
    "(case con_password p of None \<Rightarrow> Inr [] | Some d \<Rightarrow> encode_binary L d) = Inr password"
    "b = (lib_put_u16 L (word_of_nat (length PROTOCOL_NAME)) @ bytes_of_string PROTOCOL_NAME)
      @ [con_protocol_version p, ConnectPacket_connect_flags p]
      @ lib_put_u16 L (con_keep_alive p) @ props @ cid @ will @ username @ password"
    using enc unfolding ConnectPacket_encode_body_def PROTOCOL_VERSION_V5_def
    by (auto simp: res_bind_eq_Inr encode_string_ok [OF mqtt_string_ok_PROTOCOL_NAME] split del: if_split)
  have header: "ConnectPacket_decode_protocol_header L b =
      Inr (con_protocol_version p, ConnectPacket_connect_flags p
        # lib_put_u16 L (con_keep_alive p) @ props @ cid @ will @ username @ password)"
    by (simp add: ConnectPacket_decode_protocol_header_def parts(6) mqtt_string_ok_PROTOCOL_NAME)
  have properties: "(if con_protocol_version p = 5 then Properties_decode L (props @ r)
      else Inr (Properties_new, props @ r)) = Inr (con_properties p, r)" for r
    using optional_properties_roundtrip [OF parts(1)] ok by (simp add: connect_wire_ok_def)
  have client: "decode_string L (cid @ r) = Inr (con_client_id p, r)" for r
    using parts(2) ok by (auto simp: connect_wire_ok_def encode_string_ok)
  have will: "ConnectPacket_decode_will L (decoded_flags p) (con_protocol_version p) (will @ r) =
      Inr ((con_will p, con_will_properties p), r)" for r
  proof (cases "con_will p")
    case None
    with parts(3) ok show ?thesis
      by (simp add: ConnectPacket_decode_will_def decoded_flags_def connect_wire_ok_def
          Properties_is_empty_iff Properties_new_def)
  next
    case (Some w)
    with parts(3) ConnectPacket_decode_will_app [OF ok Some] show ?thesis
      by (auto simp: res_bind_eq_Inr)
  qed
  show ?thesis
    using header ConnectPacket_decode_flags [of p "con_keep_alive p"] properties client will
      ConnectPacket_decode_credentials_app [OF ok parts(4,5), of "[]"]
    unfolding ConnectPacket_decode_body_def PROTOCOL_VERSION_V5_def
    by (cases "con_password p \<noteq> None \<and> con_username p = None")
      (auto simp: decoded_flags_def split del: if_split intro: ConnectPacket.equality)
qed

lemma ConnectPacket_body_roundtrip:
  "connect_ok p \<Longrightarrow> ConnectPacket_encode_body L p = Inr b \<Longrightarrow>
   ConnectPacket_decode_body L b h = Inr (p, [])"
  using ConnectPacket_decode_encode_body [of p b h] by (auto simp: connect_ok_def)

end

sublocale wire_lib \<subseteq> connect: packet_codec L PacketType.Connect "\<lambda>_. 0"
    "ConnectPacket_encode_body L" "ConnectPacket_decode_body L" connect_ok
  by unfold_locales
    (simp_all add: ConnectPacket_body_roundtrip FixedHeader_validate_flags_def FixedHeader_new_def)

subsection \<open>Packets built from options, and what decoding accepts\<close>

definition options_ok :: "ConnectOptions \<Rightarrow> bool" where
  "options_ok c \<longleftrightarrow>
     mqtt_string_ok (co_client_id c) \<and> connect_properties_ok (co_properties c)
     \<and> pred_option mqtt_string_ok (co_username c)
     \<and> pred_option (\<lambda>d. length d \<le> 65535) (co_password c)
     \<and> (co_password c \<noteq> None \<longrightarrow> co_username c \<noteq> None)
     \<and> (case co_will c of None \<Rightarrow> True
        | Some w \<Rightarrow> mqtt_string_ok (wm_topic w) \<and> length (wm_payload w) \<le> 65535
            \<and> will_properties_ok (wm_properties w))"

lemma connect_new_ok: "options_ok c \<Longrightarrow> connect_ok (ConnectPacket_new c)"
  by (auto simp: options_ok_def connect_ok_def connect_wire_ok_def ConnectPacket_new_def PROTOCOL_VERSION_V5_def
      build_connect_properties_ok build_will_properties_ok will_properties_roundtrip
      Properties_is_empty_iff Properties_new_def split: option.splits)

lemma ConnectPacket_decode_will_Inr:
  assumes "ConnectPacket_decode_will L flags v buf = Inr ((will, wprops), r)"
  shows "case will of
      None \<Rightarrow> Properties_is_empty wprops
    | Some w \<Rightarrow> mqtt_string_ok (wm_topic w) \<and> length (wm_payload w) \<le> 65535
        \<and> properties_ok wprops \<and> (v \<noteq> 5 \<longrightarrow> Properties_is_empty wprops)
        \<and> wm_properties w = ConnectPacket_properties_to_will_properties wprops"
  using assms
  by (auto simp: ConnectPacket_decode_will_def res_bind_eq_Inr PROTOCOL_VERSION_V5_def
      Properties_is_empty_iff Properties_new_def split: if_splits
      dest: decode_string_Inr(1) decode_binary_Inr(1) Properties_decode_Inr(1))

lemma ConnectPacket_decode_credentials_Inr:
  assumes "ConnectPacket_decode_credentials L flags buf = Inr ((username, password), r)"
  shows "pred_option mqtt_string_ok username \<and> pred_option (\<lambda>d. length d \<le> 65535) password
    \<and> (password \<noteq> None \<longrightarrow> username \<noteq> None)"
  using assms
  by (auto simp: ConnectPacket_decode_credentials_def res_bind_eq_Inr split: if_splits
      dest: decode_string_Inr(1) decode_binary_Inr(1))

lemma ConnectPacket_decode_ok:
  assumes "ConnectPacket_decode_body L buf h = Inr (p, r)"
  shows "connect_ok p"
proof -
  obtain v b1 flags keep b2 props b3 cid b4 will wprops b5 username password where steps:
    "(if v = 5 then Properties_decode L b2 else Inr (Properties_new, b2)) = Inr (props, b3)"
    "decode_string L b3 = Inr (cid, b4)"
    "ConnectPacket_decode_will L flags v b4 = Inr ((will, wprops), b5)"
    "ConnectPacket_decode_credentials L flags b5 = Inr ((username, password), r)"
    "p = \<lparr>con_protocol_version = v, con_clean_start = dcf_clean_start flags, con_keep_alive = keep,
       con_client_id = cid, con_username = username, con_password = password, con_will = will,
       con_properties = props, con_will_properties = wprops\<rparr>"
    using assms unfolding ConnectPacket_decode_body_def PROTOCOL_VERSION_V5_def
    by (auto simp: res_bind_eq_Inr split del: if_split)
  have "properties_ok props \<and> (v \<noteq> 5 \<longrightarrow> Properties_is_empty props)"
    using steps(1) Properties_decode_Inr(1)
    by (auto simp: Properties_is_empty_iff Properties_new_def split: if_splits)
  then show ?thesis
    using decode_string_Inr(1) [OF steps(2)] ConnectPacket_decode_will_Inr [OF steps(3)]
      ConnectPacket_decode_credentials_Inr [OF steps(4)]
    by (cases will) (simp_all add: connect_ok_def connect_wire_ok_def steps(5))
qed

subsection \<open>Properties of the component\<close>

text \<open>
  C14: a CONNECT packet built from options arrives as built. For options whose strings MQTT can
  carry, and a password only together with a user name, decoding the encoded body gives back the
  very packet that \<open>ConnectPacket::new\<close> constructed, will properties included.
\<close>

theorem connect_options_roundtrip:
  assumes "wire_lib L" and "options_ok c"
    and "ConnectPacket_encode_body L (ConnectPacket_new c) = Inr b"
  shows "ConnectPacket_decode_body L b h = Inr (ConnectPacket_new c, [])"
  using wire_lib.ConnectPacket_body_roundtrip [OF assms(1) connect_new_ok [OF assms(2)] assms(3)] .

theorem connect_options_roundtrip_witness:
  "\<exists>b. ConnectPacket_encode_body ref_ops (ConnectPacket_new (ConnectOptions_new ''a'')) = Inr b
    \<and> ConnectPacket_decode_body ref_ops b (FixedHeader_new PacketType.Connect 0 14)
        = Inr (ConnectPacket_new (ConnectOptions_new ''a''), [])"
proof -
  let ?c = "ConnectOptions_new ''a''"
  have ok: "options_ok ?c"
    by (simp add: options_ok_def ConnectOptions_new_def mqtt_string_ok_def connect_properties_ok_def
        ConnectProperties_default_def string_pairs_ok_def eval_simps)
  have "ConnectPacket_build_connect_properties ConnectProperties_default = Map.empty"
    by (rule ext) (simp add: build_connect_properties_eq ConnectProperties_default_def
        split: PropertyId.splits)
  then have "ConnectPacket_encode_body ref_ops (ConnectPacket_new ?c) =
      Inr [0, 4, 0x4D, 0x51, 0x54, 0x54, 5, 2, 0, 60, 0, 0, 1, 0x61]"
    by (simp add: ConnectPacket_encode_body_def ConnectPacket_new_def ConnectOptions_new_def
        PROTOCOL_NAME_def PROTOCOL_VERSION_V5_def ref.Properties_encode_empty
        ConnectPacket_connect_flags_def ConnectPacket_calculate_keep_alive_def
        Duration_from_secs_def Duration_as_secs_def eval_simps)
  then show ?thesis
    using connect_options_roundtrip [OF wire_lib_ref_ops ok] by blast
qed

text \<open>
  C22: every CONNECT body the decoder accepts denotes a well-formed packet: all strings are UTF-8
  without null characters, properties are well formed and absent outside version 5, a will's
  properties agree with the decoded property section, and a password comes with a user name.
\<close>

theorem connect_decode_wellformed:
  assumes "ConnectPacket_decode_body L buf h = Inr (p, r)"
  shows "connect_ok p"
  using assms by (rule ConnectPacket_decode_ok)

theorem connect_decode_wellformed_witness:
  "\<exists>p r. ConnectPacket_decode_body ref_ops
      [0, 4, 0x4D, 0x51, 0x54, 0x54, 4, 2, 0, 60, 0, 1, 0x61] (FixedHeader_new PacketType.Connect 0 13)
      = Inr (p, r) \<and> connect_ok p"
proof -
  have "is_ok (ConnectPacket_decode_body ref_ops
      [0, 4, 0x4D, 0x51, 0x54, 0x54, 4, 2, 0, 60, 0, 1, 0x61]
      (FixedHeader_new PacketType.Connect 0 13))"
    by (simp add: ConnectPacket_decode_body_def ConnectPacket_decode_protocol_header_def
        ConnectPacket_decode_connect_flags_and_keepalive_def ConnectFlags_extract_will_qos_def
        ConnectPacket_decode_will_def ConnectPacket_decode_credentials_def
        PROTOCOL_NAME_def PROTOCOL_VERSION_V5_def char_of_def bit_0 eval_simps)
  then show ?thesis
    using connect_decode_wellformed by (fastforce simp: is_ok_iff)
qed



end
