(* ===== verification/Packet_Connack.thy ===== *)
theory Packet_Connack
  imports Fixed_Header
begin

text \<open>
  The CONNACK packet (\<open>packet/connack.rs\<close>): constructors, the mapping of reason codes to the return
  codes of version 3.1.1, and the codec, which recovers the protocol version from the shape of the
  body.
\<close>

subsection \<open>The packet\<close>

record ConnAckPacket =
  cak_session_present :: bool
  cak_reason_code :: ReasonCode
  cak_properties :: Properties
  cak_protocol_version :: u8

definition ConnAckPacket_new_v311 :: "bool \<Rightarrow> ReasonCode \<Rightarrow> ConnAckPacket" where
  "ConnAckPacket_new_v311 session_present reason_code =
     \<lparr>cak_session_present = session_present, cak_reason_code = reason_code,
      cak_properties = Properties_new, cak_protocol_version = 4\<rparr>"

definition ConnAckPacket_is_valid_connack_reason_code :: "ReasonCode \<Rightarrow> bool" where
  "ConnAckPacket_is_valid_connack_reason_code code \<longleftrightarrow>
     code \<in> {ReasonCode.Success, ReasonCode.UnspecifiedError, ReasonCode.MalformedPacket,
       ReasonCode.ProtocolError, ReasonCode.ImplementationSpecificError,
       ReasonCode.UnsupportedProtocolVersion, ReasonCode.ClientIdentifierNotValid,
       ReasonCode.BadUsernameOrPassword, ReasonCode.NotAuthorized, ReasonCode.ServerUnavailable,
       ReasonCode.ServerBusy, ReasonCode.Banned, ReasonCode.BadAuthenticationMethod,
       ReasonCode.TopicNameInvalid, ReasonCode.PacketTooLarge, ReasonCode.QuotaExceeded,
       ReasonCode.PayloadFormatInvalid, ReasonCode.RetainNotSupported, ReasonCode.QoSNotSupported,
       ReasonCode.UseAnotherServer, ReasonCode.ServerMoved, ReasonCode.ConnectionRateExceeded}"

text \<open>The last branch stands for all the codes the source lists for return code 3.\<close>

definition v311_return_code :: "ReasonCode \<Rightarrow> u8" where
  "v311_return_code reason_code =
     (if reason_code = ReasonCode.Success then 0x00
      else if reason_code = ReasonCode.UnsupportedProtocolVersion then 0x01
      else if reason_code = ReasonCode.ClientIdentifierNotValid then 0x02
      else if reason_code = ReasonCode.BadUsernameOrPassword then 0x04
      else if reason_code \<in> {ReasonCode.MalformedPacket, ReasonCode.ProtocolError,
        ReasonCode.NotAuthorized, ReasonCode.Banned, ReasonCode.BadAuthenticationMethod,
        ReasonCode.TopicNameInvalid, ReasonCode.PacketTooLarge, ReasonCode.PayloadFormatInvalid,
        ReasonCode.RetainNotSupported, ReasonCode.QoSNotSupported} then 0x05
      else 0x03)"

definition ConnAckPacket_encode_body :: "wire_ops \<Rightarrow> ConnAckPacket \<Rightarrow> bytes result" where
  "ConnAckPacket_encode_body L p =
     (let flags = (if cak_session_present p then ConnAckFlags_to_u8 SessionPresent else 0x00) in
      if cak_protocol_version p = 4 then Inr [flags, v311_return_code (cak_reason_code p)]
      else res_bind (Properties_encode L (cak_properties p)) (\<lambda>props.
        Inr (flags # ReasonCode_to_u8 (cak_reason_code p) # props)))"

definition connack_v311_reason :: "u8 \<Rightarrow> ReasonCode" where
  "connack_v311_reason reason_byte =
     (if reason_byte = 0x00 then ReasonCode.Success
      else if reason_byte = 0x01 then ReasonCode.UnsupportedProtocolVersion
      else if reason_byte = 0x02 then ReasonCode.ClientIdentifierNotValid
      else if reason_byte = 0x03 then ReasonCode.ServerUnavailable
      else if reason_byte = 0x04 then ReasonCode.BadUsernameOrPassword
      else ReasonCode.NotAuthorized)"

definition ConnAckPacket_decode_body ::
  "wire_ops \<Rightarrow> bytes \<Rightarrow> FixedHeader \<Rightarrow> (ConnAckPacket \<times> bytes) result" where
  "ConnAckPacket_decode_body L buf fixed_header =
     (case buf of
        [] \<Rightarrow> Inl MqttError.MalformedPacket
      | flags # buf \<Rightarrow>
          let session_present = (SessionPresent \<in> set (lib_ConnAckFlags_decompose L flags)) in
          if flags AND 0xFE \<noteq> 0 then Inl MqttError.MalformedPacket
          else case buf of
            [] \<Rightarrow> Inl MqttError.MalformedPacket
          | reason_byte # buf \<Rightarrow>
              res_bind
                (if reason_byte \<le> 5 \<and> buf = [] then Inr (connack_v311_reason reason_byte, 4)
                 else res_bind (ok_or (ReasonCode_from_u8 reason_byte) MqttError.MalformedPacket)
                   (\<lambda>code. if \<not> ConnAckPacket_is_valid_connack_reason_code code
                           then Inl MqttError.MalformedPacket else Inr (code, 5)))
                (\<lambda>(reason_code, protocol_version).
                  res_bind (if protocol_version = 5 \<and> buf \<noteq> [] then Properties_decode L buf
                            else Inr (Properties_new, buf)) (\<lambda>(properties, buf).
                    Inr (\<lparr>cak_session_present = session_present, cak_reason_code = reason_code,
                          cak_properties = properties, cak_protocol_version = protocol_version\<rparr>,
                         buf))))"

subsection \<open>Round trip\<close>

definition connack_ok :: "ConnAckPacket \<Rightarrow> bool" where
  "connack_ok p \<longleftrightarrow>
     (cak_protocol_version p = 4 \<and> Properties_is_empty (cak_properties p)
        \<and> connack_v311_reason (v311_return_code (cak_reason_code p)) = cak_reason_code p)
     \<or> (cak_protocol_version p = 5 \<and> properties_ok (cak_properties p)
        \<and> ConnAckPacket_is_valid_connack_reason_code (cak_reason_code p))"

lemma v311_return_code_le: "v311_return_code c \<le> 5"
  by (simp add: v311_return_code_def)

lemma v311_return_code_0: "v311_return_code c = 0 \<longleftrightarrow> c = ReasonCode.Success"
  by (simp add: v311_return_code_def)

context wire_lib
begin

lemma ConnAckPacket_decode_v311:
  assumes "cak_protocol_version p = 4" "ConnAckPacket_encode_body L p = Inr b"
  shows "ConnAckPacket_decode_body L b h =
    Inr (ConnAckPacket_new_v311 (cak_session_present p)
      (connack_v311_reason (v311_return_code (cak_reason_code p))), [])"
  using assms v311_return_code_le [of "cak_reason_code p"]
  by (auto simp: ConnAckPacket_encode_body_def ConnAckPacket_decode_body_def Let_def
      connack_flags_decompose ConnAckPacket_new_v311_def split: if_splits)

lemma ConnAckPacket_body_roundtrip:
  assumes "connack_ok p" "ConnAckPacket_encode_body L p = Inr b"
  shows "ConnAckPacket_decode_body L b h = Inr (p, [])"
proof (cases "cak_protocol_version p = 4")
  case True
  with assms(1) ConnAckPacket_decode_v311 [OF True assms(2)] show ?thesis
    by (auto simp: connack_ok_def ConnAckPacket_new_v311_def Properties_is_empty_iff
        Properties_new_def intro: ConnAckPacket.equality)
next
  case False
  then obtain props where props: "Properties_encode L (cak_properties p) = Inr props"
    "b = (if cak_session_present p then 1 else 0) # ReasonCode_to_u8 (cak_reason_code p) # props"
    using assms(2) by (auto simp: ConnAckPacket_encode_body_def res_bind_eq_Inr Let_def)
  have ok: "properties_ok (cak_properties p)" "cak_protocol_version p = 5"
    "ConnAckPacket_is_valid_connack_reason_code (cak_reason_code p)"
    using assms(1) False by (auto simp: connack_ok_def)
  have "Properties_decode L props = Inr (cak_properties p, [])"
    using Properties_decode_encode [OF ok(1) props(1), of "[]"] by simp
  with ok Properties_encode_not_Nil [OF props(1)] show ?thesis
    by (simp add: ConnAckPacket_decode_body_def props(2) Let_def connack_flags_decompose enum_simps)
qed

end

sublocale wire_lib \<subseteq> connack: packet_codec L PacketType.ConnAck "\<lambda>_. 0"
    "ConnAckPacket_encode_body L" "ConnAckPacket_decode_body L" connack_ok
  by unfold_locales
    (simp_all add: ConnAckPacket_body_roundtrip FixedHeader_validate_flags_def FixedHeader_new_def)

subsection \<open>Properties of the component\<close>

text \<open>
  In version 3.1.1, where only six return codes exist, a CONNACK still tells the client
  faithfully whether the connection was accepted: the decoded packet keeps the session-present
  flag and version, carries no properties, and reports success exactly when the broker sent
  success.
\<close>

theorem connack_v311_faithful:
  assumes "wire_lib L" and "cak_protocol_version p = 4" and "ConnAckPacket_encode_body L p = Inr b"
  shows "\<exists>q. ConnAckPacket_decode_body L b h = Inr (q, [])
    \<and> cak_session_present q = cak_session_present p \<and> cak_protocol_version q = 4
    \<and> Properties_is_empty (cak_properties q)
    \<and> (cak_reason_code q = ReasonCode.Success \<longleftrightarrow> cak_reason_code p = ReasonCode.Success)"
  using wire_lib.ConnAckPacket_decode_v311 [OF assms] v311_return_code_0 [of "cak_reason_code p"]
  by (auto simp: ConnAckPacket_new_v311_def Properties_is_empty_iff Properties_new_def
      connack_v311_reason_def)

theorem connack_v311_faithful_witness:
  "\<exists>q. ConnAckPacket_decode_body ref_ops [1, 5] (FixedHeader_new PacketType.ConnAck 0 2) = Inr (q, [])
    \<and> cak_session_present q \<and> cak_reason_code q \<noteq> ReasonCode.Success"
proof -
  have enc:
    "ConnAckPacket_encode_body ref_ops (ConnAckPacket_new_v311 True ReasonCode.Banned) = Inr [1, 5]"
    by (simp add: ConnAckPacket_encode_body_def ConnAckPacket_new_v311_def v311_return_code_def
        Let_def)
  show ?thesis
    using connack_v311_faithful [OF wire_lib_ref_ops _ enc] by (auto simp: ConnAckPacket_new_v311_def)
qed

end
