(* ===== verification/Packet_Subscribe.thy ===== *)
theory Packet_Subscribe
  imports Fixed_Header
begin

text \<open>
  Subscriptions: the options byte (\<open>packet/subscribe_options.rs\<close>), written by hand and by the
  derived bit field code, and the SUBSCRIBE packet (\<open>packet/subscribe.rs\<close>).
\<close>

subsection \<open>Subscription options\<close>

datatype RetainHandling = SendAtSubscribe | SendAtSubscribeIfNew | DoNotSend

primrec RetainHandling_to_u8 :: "RetainHandling \<Rightarrow> u8" where
  "RetainHandling_to_u8 SendAtSubscribe = 0"
| "RetainHandling_to_u8 SendAtSubscribeIfNew = 1"
| "RetainHandling_to_u8 DoNotSend = 2"

record SubscriptionOptions =
  so_qos :: QoS
  so_no_local :: bool
  so_retain_as_published :: bool
  so_retain_handling :: RetainHandling

definition SubscriptionOptionsBits_from_options ::
  "SubscriptionOptions \<Rightarrow> SubscriptionOptionsBits" where
  "SubscriptionOptionsBits_from_options options =
     \<lparr>sob_reserved_bits = 0,
      sob_retain_handling = RetainHandling_to_u8 (so_retain_handling options),
      sob_retain_as_published = of_bool (so_retain_as_published options),
      sob_no_local = of_bool (so_no_local options),
      sob_qos = QoS_to_u8 (so_qos options)\<rparr>"

text \<open>The two matches on a two-bit number that \<open>to_options\<close> and \<open>decode\<close> both contain.\<close>

definition match_qos :: "u8 \<Rightarrow> QoS result" where
  "match_qos v =
     (if v = 0 then Inr AtMostOnce else if v = 1 then Inr AtLeastOnce
      else if v = 2 then Inr ExactlyOnce else Inl MqttError.MalformedPacket)"

definition match_retain_handling :: "u8 \<Rightarrow> RetainHandling result" where
  "match_retain_handling v =
     (if v = 0 then Inr SendAtSubscribe else if v = 1 then Inr SendAtSubscribeIfNew
      else if v = 2 then Inr DoNotSend else Inl MqttError.MalformedPacket)"

definition SubscriptionOptionsBits_to_options ::
  "SubscriptionOptionsBits \<Rightarrow> SubscriptionOptions result" where
  "SubscriptionOptionsBits_to_options b =
     (if sob_reserved_bits b \<noteq> 0 then Inl MqttError.MalformedPacket
      else res_bind (match_qos (sob_qos b)) (\<lambda>qos.
        res_bind (match_retain_handling (sob_retain_handling b)) (\<lambda>retain_handling.
          Inr \<lparr>so_qos = qos, so_no_local = (sob_no_local b \<noteq> 0),
               so_retain_as_published = (sob_retain_as_published b \<noteq> 0),
               so_retain_handling = retain_handling\<rparr>)))"

definition SubscriptionOptions_default :: SubscriptionOptions where
  "SubscriptionOptions_default =
     \<lparr>so_qos = AtMostOnce, so_no_local = False, so_retain_as_published = False,
      so_retain_handling = SendAtSubscribe\<rparr>"

definition SubscriptionOptions_new :: "QoS \<Rightarrow> SubscriptionOptions" where
  "SubscriptionOptions_new qos = SubscriptionOptions_default\<lparr>so_qos := qos\<rparr>"

definition SubscriptionOptions_encode :: "SubscriptionOptions \<Rightarrow> u8" where
  "SubscriptionOptions_encode options =
     (let byte = QoS_to_u8 (so_qos options);
          byte = (if so_no_local options then byte OR 0x04 else byte);
          byte = (if so_retain_as_published options then byte OR 0x08 else byte)
      in byte OR push_bit 4 (RetainHandling_to_u8 (so_retain_handling options)))"

definition SubscriptionOptions_encode_with_bebytes :: "wire_ops \<Rightarrow> SubscriptionOptions \<Rightarrow> u8" where
  "SubscriptionOptions_encode_with_bebytes L options =
     hd (lib_SubscriptionOptionsBits_to_be_bytes L (SubscriptionOptionsBits_from_options options))"

definition SubscriptionOptions_decode :: "u8 \<Rightarrow> SubscriptionOptions result" where
  "SubscriptionOptions_decode byte =
     res_bind (match_qos (byte AND 0x03)) (\<lambda>qos.
     let no_local = byte AND 0x04 \<noteq> 0;
         retain_as_published = byte AND 0x08 \<noteq> 0
     in res_bind (match_retain_handling (drop_bit 4 byte AND 0x03)) (\<lambda>retain_handling.
       if byte AND 0xC0 \<noteq> 0 then Inl MqttError.MalformedPacket
       else Inr \<lparr>so_qos = qos, so_no_local = no_local,
                 so_retain_as_published = retain_as_published,
                 so_retain_handling = retain_handling\<rparr>))"

definition SubscriptionOptions_decode_with_bebytes ::
  "wire_ops \<Rightarrow> u8 \<Rightarrow> SubscriptionOptions result" where
  "SubscriptionOptions_decode_with_bebytes L byte =
     res_bind (ok_or (lib_SubscriptionOptionsBits_try_from_be_bytes L [byte])
       MqttError.MalformedPacket) (\<lambda>(bits, consumed). SubscriptionOptionsBits_to_options bits)"

subsection \<open>SUBSCRIBE\<close>

record TopicFilter =
  tf_filter :: string
  tf_options :: SubscriptionOptions

definition TopicFilter_new :: "string \<Rightarrow> QoS \<Rightarrow> TopicFilter" where
  "TopicFilter_new f qos = \<lparr>tf_filter = f, tf_options = SubscriptionOptions_new qos\<rparr>"

record SubscribePacket =
  sub_packet_id :: u16
  sub_filters :: "TopicFilter list"
  sub_properties :: Properties
  sub_protocol_version :: u8

definition SubscribePacket_flags :: u8 where
  "SubscribePacket_flags = 0x02"

fun encode_topic_filters :: "wire_ops \<Rightarrow> u8 \<Rightarrow> TopicFilter list \<Rightarrow> bytes result" where
  "encode_topic_filters L version [] = Inr []"
| "encode_topic_filters L version (f # fs) =
     res_bind (encode_string L (tf_filter f)) (\<lambda>a.
     res_bind (encode_topic_filters L version fs) (\<lambda>b.
       Inr (a @ (if version = 5 then SubscriptionOptions_encode (tf_options f)
                 else QoS_to_u8 (so_qos (tf_options f))) # b)))"

definition SubscribePacket_encode_body :: "wire_ops \<Rightarrow> SubscribePacket \<Rightarrow> bytes result" where
  "SubscribePacket_encode_body L p =
     res_bind (if sub_protocol_version p = 5 then Properties_encode L (sub_properties p)
               else Inr []) (\<lambda>props.
       if sub_filters p = [] then Inl MqttError.MalformedPacket
       else res_bind (encode_topic_filters L (sub_protocol_version p) (sub_filters p)) (\<lambda>filters.
         Inr (lib_put_u16 L (sub_packet_id p) @ props @ filters)))"

text \<open>The \<open>while buf.has_remaining()\<close> loop; \<open>acc\<close> is the vector it pushes to.\<close>

function decode_topic_filters ::
  "wire_ops \<Rightarrow> u8 \<Rightarrow> bytes \<Rightarrow> TopicFilter list \<Rightarrow> TopicFilter list result" where
  "decode_topic_filters L version buf acc =
     (if buf = [] then Inr acc
      else res_bind (decode_string L buf) (\<lambda>(filter_str, buf).
        if buf = [] then Inl MqttError.MalformedPacket
        else let options_byte = hd buf in
          res_bind (if version = 5 then SubscriptionOptions_decode options_byte
            else Inr (SubscriptionOptions_default\<lparr>so_qos := QoS_from_u8 (options_byte AND 0x03)\<rparr>))
            (\<lambda>options.
              decode_topic_filters L version (tl buf)
                (acc @ [\<lparr>tf_filter = filter_str, tf_options = options\<rparr>]))))"
  by pat_completeness auto
termination
  by (relation "measure (\<lambda>(_, _, buf, _). length buf)")
    (auto dest!: decode_string_Inr(3) simp: length_tl)

declare decode_topic_filters.simps [simp del]

definition SubscribePacket_decode_body_with_version ::
  "wire_ops \<Rightarrow> u8 \<Rightarrow> bytes \<Rightarrow> FixedHeader \<Rightarrow> (SubscribePacket \<times> bytes) result" where
  "SubscribePacket_decode_body_with_version L protocol_version buf fixed_header =
     res_bind (ok_or (ProtocolVersion_try_from protocol_version)
       MqttError.UnsupportedProtocolVersion) (\<lambda>_.
     if fh_flags fixed_header \<noteq> 0x02 then Inl MqttError.MalformedPacket
     else if length buf < 2 then Inl MqttError.MalformedPacket
     else let packet_id = lib_get_u16 L buf; buf = drop 2 buf in
       res_bind (if protocol_version = 5 then Properties_decode L buf
                 else Inr (Properties_new, buf)) (\<lambda>(properties, buf).
         if buf = [] then Inl MqttError.MalformedPacket
         else res_bind (decode_topic_filters L protocol_version buf []) (\<lambda>filters.
           Inr (\<lparr>sub_packet_id = packet_id, sub_filters = filters, sub_properties = properties,
                 sub_protocol_version = protocol_version\<rparr>, []))))"

definition SubscribePacket_decode_body ::
  "wire_ops \<Rightarrow> bytes \<Rightarrow> FixedHeader \<Rightarrow> (SubscribePacket \<times> bytes) result" where
  "SubscribePacket_decode_body L = SubscribePacket_decode_body_with_version L 5"

subsection \<open>Round trips\<close>

lemma match_of_enum [enum_simps]:
  "match_qos (QoS_to_u8 q) = Inr q"
  "match_retain_handling (RetainHandling_to_u8 rh) = Inr rh"
  by (cases q; simp add: match_qos_def)
    (cases rh; simp add: match_retain_handling_def)

lemma SubscriptionOptions_roundtrip [enum_simps]:
  "SubscriptionOptions_decode (SubscriptionOptions_encode options) = Inr options"
proof -
  obtain q nl rap rh where "options =
      \<lparr>so_qos = q, so_no_local = nl, so_retain_as_published = rap, so_retain_handling = rh\<rparr>"
    by (cases options)
  then show ?thesis
    by (cases q; cases rh)
      (simp_all add: SubscriptionOptions_decode_def SubscriptionOptions_encode_def match_qos_def
        match_retain_handling_def Let_def)
qed

lemma u8_fields:
  fixes x :: u8
  shows "x AND 0x03 = take_bit 2 x"
    and "x AND 0x04 \<noteq> 0 \<longleftrightarrow> bit x 2"
    and "x AND 0x08 \<noteq> 0 \<longleftrightarrow> bit x 3"
    and "x AND 0xC0 = 0 \<longleftrightarrow> \<not> bit x 6 \<and> \<not> bit x 7"
proof -
  show "x AND 0x03 = take_bit 2 x"
    by (simp add: take_bit_eq_mask mask_eq_exp_minus_1)
  show "x AND 0x04 \<noteq> 0 \<longleftrightarrow> bit x 2" "x AND 0x08 \<noteq> 0 \<longleftrightarrow> bit x 3"
    using and_exp_eq_0_iff_not_bit [of x 2] and_exp_eq_0_iff_not_bit [of x 3] by simp_all
  have "(0xC0 :: u8) = 2 ^ 6 OR 2 ^ 7"
    by simp
  then have "x AND 0xC0 = 0 \<longleftrightarrow> (x AND 2 ^ 6) OR (x AND 2 ^ 7) = 0"
    by (simp only: bit.conj_disj_distrib)
  then show "x AND 0xC0 = 0 \<longleftrightarrow> \<not> bit x 6 \<and> \<not> bit x 7"
    by (simp only: or_eq_0_iff and_exp_eq_0_iff_not_bit)
qed

lemma match_Inr:
  "match_qos v = Inr q \<longleftrightarrow> v = QoS_to_u8 q"
  "match_retain_handling v = Inr rh \<longleftrightarrow> v = RetainHandling_to_u8 rh"
  by (cases q; auto simp: match_qos_def) (cases rh; auto simp: match_retain_handling_def)

lemma match_Inl:
  "match_qos v = Inl e \<Longrightarrow> e = MqttError.MalformedPacket"
  "match_retain_handling v = Inl e \<Longrightarrow> e = MqttError.MalformedPacket"
  by (auto simp: match_qos_def match_retain_handling_def split: if_splits)

lemma SubscriptionOptions_decode_encode:
  assumes "SubscriptionOptions_decode byte = Inr options"
  shows "SubscriptionOptions_encode options = byte"
proof -
  have *: "take_bit 2 byte = QoS_to_u8 (so_qos options)" "so_no_local options \<longleftrightarrow> bit byte 2"
    "so_retain_as_published options \<longleftrightarrow> bit byte 3"
    "take_bit 2 (drop_bit 4 byte) = RetainHandling_to_u8 (so_retain_handling options)"
    "\<not> bit byte 6" "\<not> bit byte 7"
    using assms
    by (auto simp: SubscriptionOptions_decode_def res_bind_eq_Inr Let_def match_Inr u8_fields
        split: if_splits)
  have "SubscriptionOptions_encode options =
      take_bit 2 byte OR (if bit byte 2 then 2 ^ 2 else 0) OR (if bit byte 3 then 2 ^ 3 else 0)
      OR push_bit 4 (take_bit 2 (drop_bit 4 byte))"
    unfolding SubscriptionOptions_encode_def Let_def *(1-4) [symmetric] by (simp add: or.assoc)
  also have "\<dots> = byte"
  proof (rule bit_word_eqI)
    fix n
    assume "n < LENGTH(8)"
    then have "n = 0 \<or> n = 1 \<or> n = 2 \<or> n = 3 \<or> n = 4 \<or> n = 5 \<or> n = 6 \<or> n = 7"
      by auto
    with *(5,6) show "bit (take_bit 2 byte OR (if bit byte 2 then 2 ^ 2 else 0)
        OR (if bit byte 3 then 2 ^ 3 else 0) OR push_bit 4 (take_bit 2 (drop_bit 4 byte))) n
        \<longleftrightarrow> bit byte n"
      by (elim disjE)
        (simp_all add: bit_or_iff bit_take_bit_iff bit_push_bit_iff bit_drop_bit_eq bit_exp_iff)
  qed
  finally show ?thesis .
qed

definition subscribe_ok :: "u8 \<Rightarrow> SubscribePacket \<Rightarrow> bool" where
  "subscribe_ok version p \<longleftrightarrow>
     (version = 4 \<or> version = 5) \<and> sub_protocol_version p = version
     \<and> properties_ok (sub_properties p) \<and> (version = 4 \<longrightarrow> Properties_is_empty (sub_properties p))
     \<and> list_all (\<lambda>f. mqtt_string_ok (tf_filter f)
          \<and> (version = 4 \<longrightarrow> tf_options f = SubscriptionOptions_new (so_qos (tf_options f))))
          (sub_filters p)"

lemma QoS_byte_low: "QoS_to_u8 q AND 0x03 = QoS_to_u8 q"
  by (cases q) simp_all

context wire_lib
begin

lemma SubscriptionOptions_encode_bebytes:
  "SubscriptionOptions_encode_with_bebytes L options = SubscriptionOptions_encode options"
proof -
  obtain q nl rap rh where "options =
      \<lparr>so_qos = q, so_no_local = nl, so_retain_as_published = rap, so_retain_handling = rh\<rparr>"
    by (cases options)
  then show ?thesis
    by (cases q; cases rh)
      (simp_all add: SubscriptionOptions_encode_with_bebytes_def SubscriptionOptions_encode_def
        SubscriptionOptionsBits_from_options_def sub_bits_to_be_bytes Let_def)
qed

lemma SubscriptionOptions_decode_bebytes:
  "SubscriptionOptions_decode_with_bebytes L byte = SubscriptionOptions_decode byte"
proof -
  have res: "drop_bit 6 byte AND 3 \<noteq> 0 \<longleftrightarrow> byte AND 0xC0 \<noteq> 0"
  proof -
    have "drop_bit 6 (byte AND 0xC0) = drop_bit 6 byte AND drop_bit 6 0xC0"
      by (rule drop_bit_and)
    then have "drop_bit 6 byte AND 3 = drop_bit 6 (byte AND 0xC0)"
      by simp
    moreover have "drop_bit 6 (byte AND 0xC0) = 0 \<longleftrightarrow> byte AND 0xC0 = 0"
    proof
      assume *: "drop_bit 6 (byte AND 0xC0) = 0"
      have "\<not> bit byte 6 \<and> \<not> bit byte 7"
        using arg_cong [OF *, of "\<lambda>w. bit w 0"] arg_cong [OF *, of "\<lambda>w. bit w 1"]
        by (simp add: bit_drop_bit_eq bit_and_iff)
      then show "byte AND 0xC0 = 0"
        by (simp add: u8_fields(4))
    qed simp
    ultimately show ?thesis by simp
  qed
  have bits: "drop_bit k byte AND 1 \<noteq> 0 \<longleftrightarrow> bit byte k" for k
    by (simp add: bit_iff_odd_drop_bit and_one_eq mod2_eq_if)
  show ?thesis
    using bits [of 2] bits [of 3] res
    by (auto simp: SubscriptionOptions_decode_with_bebytes_def sub_bits_try_from
        SubscriptionOptionsBits_to_options_def SubscriptionOptions_decode_def Let_def u8_fields(2,3)
        split: res_bind_split dest: match_Inl)
qed

lemma decode_topic_filters_app:
  assumes "encode_topic_filters L v fs = Inr bs" "v = 4 \<or> v = 5"
    and "list_all (\<lambda>f. mqtt_string_ok (tf_filter f)
      \<and> (v = 4 \<longrightarrow> tf_options f = SubscriptionOptions_new (so_qos (tf_options f)))) fs"
  shows "decode_topic_filters L v bs acc = Inr (acc @ fs)"
  using assms
proof (induction fs arbitrary: bs acc)
  case Nil
  then show ?case by (simp add: decode_topic_filters.simps)
next
  case (Cons f fs)
  let ?b = "if v = 5 then SubscriptionOptions_encode (tf_options f)
    else QoS_to_u8 (so_qos (tf_options f))"
  obtain a c where ac: "encode_string L (tf_filter f) = Inr a" "encode_topic_filters L v fs = Inr c"
    "bs = a @ ?b # c"
    using Cons.prems(1) by (auto simp: res_bind_eq_Inr)
  have f: "mqtt_string_ok (tf_filter f)"
    using Cons.prems(3) by simp
  have str: "decode_string L (a @ r) = Inr (tf_filter f, r)" for r
    using ac(1) f by (auto simp: encode_string_ok)
  have ne: "bs \<noteq> []"
    by (simp add: ac(3))
  have opt: "(if v = 5 then SubscriptionOptions_decode ?b
      else Inr (SubscriptionOptions_default\<lparr>so_qos := QoS_from_u8 (?b AND 0x03)\<rparr>))
      = Inr (tf_options f)"
    using Cons.prems(2,3)
    by (auto simp: SubscriptionOptions_new_def QoS_byte_low enum_simps)
  have eta: "\<lparr>tf_filter = tf_filter f, tf_options = tf_options f\<rparr> = f"
    by (cases f) simp
  have "decode_topic_filters L v bs acc =
      decode_topic_filters L v c (acc @ [\<lparr>tf_filter = tf_filter f, tf_options = tf_options f\<rparr>])"
    using ne opt
    by (subst decode_topic_filters.simps) (simp add: ac(3) str Let_def split del: if_split)
  then show ?case
    unfolding eta using Cons.IH [OF ac(2) Cons.prems(2)] Cons.prems(3) by simp
qed

lemma SubscribePacket_body_roundtrip:
  assumes "subscribe_ok v p" "SubscribePacket_encode_body L p = Inr b" "fh_flags h = 0x02"
  shows "SubscribePacket_decode_body_with_version L v b h = Inr (p, [])"
proof -
  obtain props fs where parts:
    "(if v = 5 then Properties_encode L (sub_properties p) else Inr []) = Inr props"
    "sub_filters p \<noteq> []" "encode_topic_filters L v (sub_filters p) = Inr fs"
    "b = lib_put_u16 L (sub_packet_id p) @ props @ fs"
    using assms(1,2)
    by (auto simp: SubscribePacket_encode_body_def subscribe_ok_def res_bind_eq_Inr split: if_splits)
  have ok: "v = 4 \<or> v = 5" "sub_protocol_version p = v" "properties_ok (sub_properties p)"
    "v \<noteq> 5 \<longrightarrow> Properties_is_empty (sub_properties p)"
    using assms(1) by (auto simp: subscribe_ok_def)
  have ver: "ProtocolVersion_try_from v \<noteq> None"
    using ok(1) by (auto simp: ProtocolVersion_try_from_def)
  have "fs \<noteq> []"
    using parts(2,3) by (cases "sub_filters p") (auto simp: res_bind_eq_Inr)
  moreover have "decode_topic_filters L v fs [] = Inr (sub_filters p)"
    using decode_topic_filters_app [OF parts(3) ok(1)] assms(1) by (simp add: subscribe_ok_def)
  ultimately show ?thesis
    using ver ok(2) assms(3) optional_properties_roundtrip [OF parts(1) ok(3,4)]
    by (auto simp: SubscribePacket_decode_body_with_version_def parts(4) Let_def
        split del: if_split intro: SubscribePacket.equality)
qed

end

sublocale wire_lib \<subseteq> subscribe: packet_codec L PacketType.Subscribe "\<lambda>_. SubscribePacket_flags"
    "SubscribePacket_encode_body L" "SubscribePacket_decode_body_with_version L v" "subscribe_ok v"
  for v
  by unfold_locales
    (simp_all add: SubscribePacket_body_roundtrip SubscribePacket_flags_def
      FixedHeader_validate_flags_def FixedHeader_new_def)

subsection \<open>Properties of the component\<close>

text \<open>
  The options byte. Encoding and decoding are inverse bijections between the options and the
  bytes the decoder accepts, and the code derived from the bit field structure computes the same
  byte and accepts the same bytes as the hand-written code.
\<close>

theorem subscription_options_codec:
  assumes "wire_lib L"
  shows "SubscriptionOptions_decode (SubscriptionOptions_encode options) = Inr options
    \<and> (SubscriptionOptions_decode byte = Inr options \<longrightarrow> SubscriptionOptions_encode options = byte)
    \<and> SubscriptionOptions_encode_with_bebytes L options = SubscriptionOptions_encode options
    \<and> SubscriptionOptions_decode_with_bebytes L byte = SubscriptionOptions_decode byte"
  using SubscriptionOptions_roundtrip SubscriptionOptions_decode_encode
    wire_lib.SubscriptionOptions_encode_bebytes [OF assms]
    wire_lib.SubscriptionOptions_decode_bebytes [OF assms] by blast

theorem subscription_options_codec_witness:
  "SubscriptionOptions_encode_with_bebytes ref_ops
     \<lparr>so_qos = ExactlyOnce, so_no_local = True, so_retain_as_published = False,
      so_retain_handling = DoNotSend\<rparr> = 0x26
   \<and> SubscriptionOptions_decode_with_bebytes ref_ops 0x26 = Inr
     \<lparr>so_qos = ExactlyOnce, so_no_local = True, so_retain_as_published = False,
      so_retain_handling = DoNotSend\<rparr>"
proof -
  let ?o = "\<lparr>so_qos = ExactlyOnce, so_no_local = True, so_retain_as_published = False,
      so_retain_handling = DoNotSend\<rparr>"
  have "SubscriptionOptions_encode ?o = 0x26"
    by (simp add: SubscriptionOptions_encode_def)
  then show ?thesis
    using subscription_options_codec [OF wire_lib_ref_ops, where options = ?o and byte = "0x26"]
    by simp
qed

text \<open>
  C39: in version 3.1.1 the decoder does not refuse the invalid quality of service 3 of a SUBSCRIBE
  entry: it silently grants quality of service 0, while the version 5 decoder refuses the same
  entry as malformed.
\<close>

theorem subscribe_v311_invalid_qos:
  assumes "wire_lib L" and "mqtt_string_ok f" and "encode_string L f = Inr a" and "b AND 0x03 = 3"
  shows "decode_topic_filters L 4 (a @ [b]) [] = Inr [TopicFilter_new f AtMostOnce]
    \<and> decode_topic_filters L 5 (a @ [b]) [] = Inl MqttError.MalformedPacket"
proof -
  have str: "decode_string L (a @ [b]) = Inr (f, [b])"
    using wire_lib.decode_string_app [OF assms(1,2), of "[b]"]
      wire_lib.encode_string_ok [OF assms(1,2)] assms(3) by simp
  show ?thesis
    using str assms(4)
    by (simp add: decode_topic_filters.simps [of L 4 "a @ [b]"] decode_topic_filters.simps [of L 5]
        decode_topic_filters.simps [of L 4 "[]"] SubscriptionOptions_decode_def match_qos_def
        QoS_from_u8_def TopicFilter_new_def SubscriptionOptions_new_def SubscriptionOptions_default_def
        Let_def)
qed

theorem subscribe_v311_invalid_qos_witness:
  "decode_topic_filters ref_ops 4 [0, 1, 0x61, 3] [] = Inr [TopicFilter_new ''a'' AtMostOnce]"
proof -
  have ok: "mqtt_string_ok ''a''" "encode_string ref_ops ''a'' = Inr [0, 1, 0x61]"
    by (simp_all add: mqtt_string_ok_def eval_simps)
  show ?thesis
    using subscribe_v311_invalid_qos [OF wire_lib_ref_ops ok, of 3] by simp
qed

end
