(* ===== verification/Packet_Suback.thy ===== *)
theory Packet_Suback
  imports Fixed_Header
begin

text \<open>
  The answers to subscription requests and the UNSUBSCRIBE request: \<open>packet/suback.rs\<close>,
  \<open>packet/unsubscribe.rs\<close> and \<open>packet/unsuback.rs\<close>, each for versions 5 and 3.1.1.
\<close>

subsection \<open>SUBACK\<close>

record SubAckPacket =
  sak_packet_id :: u16
  sak_reason_codes :: "SubAckReasonCode list"
  sak_properties :: Properties
  sak_protocol_version :: u8

definition SubAckPacket_reason_code_to_v311 :: "SubAckReasonCode \<Rightarrow> u8" where
  "SubAckPacket_reason_code_to_v311 code =
     (case code of
        SubAckReasonCode.GrantedQoS0 \<Rightarrow> 0x00
      | SubAckReasonCode.GrantedQoS1 \<Rightarrow> 0x01
      | SubAckReasonCode.GrantedQoS2 \<Rightarrow> 0x02
      | _ \<Rightarrow> 0x80)"

definition SubAckPacket_encode_body :: "wire_ops \<Rightarrow> SubAckPacket \<Rightarrow> bytes result" where
  "SubAckPacket_encode_body L p =
     res_bind (if sak_protocol_version p = 5 then Properties_encode L (sak_properties p)
               else Inr []) (\<lambda>props.
       if sak_reason_codes p = [] then Inl MqttError.MalformedPacket
       else Inr (lib_put_u16 L (sak_packet_id p) @ props @
         map (if sak_protocol_version p = 5 then SubAckReasonCode_to_u8
              else SubAckPacket_reason_code_to_v311) (sak_reason_codes p)))"

fun decode_reason_codes :: "(u8 \<Rightarrow> 'c option) \<Rightarrow> bytes \<Rightarrow> 'c list \<Rightarrow> 'c list result" where
  "decode_reason_codes from_u8 [] acc = Inr acc"
| "decode_reason_codes from_u8 (code_byte # buf) acc =
     res_bind (ok_or (from_u8 code_byte) MqttError.MalformedPacket) (\<lambda>code.
       decode_reason_codes from_u8 buf (acc @ [code]))"

definition SubAckPacket_decode_body_with_version ::
  "wire_ops \<Rightarrow> u8 \<Rightarrow> bytes \<Rightarrow> FixedHeader \<Rightarrow> (SubAckPacket \<times> bytes) result" where
  "SubAckPacket_decode_body_with_version L protocol_version buf fixed_header =
     res_bind (ok_or (ProtocolVersion_try_from protocol_version)
       MqttError.UnsupportedProtocolVersion) (\<lambda>_.
     if length buf < 2 then Inl MqttError.MalformedPacket
     else let packet_id = lib_get_u16 L buf; buf = drop 2 buf in
       res_bind (if protocol_version = 5 then Properties_decode L buf
                 else Inr (Properties_new, buf)) (\<lambda>(properties, buf).
         if buf = [] then Inl MqttError.MalformedPacket
         else res_bind (decode_reason_codes SubAckReasonCode_from_u8 buf []) (\<lambda>reason_codes.
           Inr (\<lparr>sak_packet_id = packet_id, sak_reason_codes = reason_codes,
                 sak_properties = properties, sak_protocol_version = protocol_version\<rparr>, []))))"

definition SubAckPacket_decode_body ::
  "wire_ops \<Rightarrow> bytes \<Rightarrow> FixedHeader \<Rightarrow> (SubAckPacket \<times> bytes) result" where
  "SubAckPacket_decode_body L = SubAckPacket_decode_body_with_version L 5"

subsection \<open>UNSUBSCRIBE\<close>

record UnsubscribePacket =
  uns_packet_id :: u16
  uns_filters :: "string list"
  uns_properties :: Properties
  uns_protocol_version :: u8

definition UnsubscribePacket_flags :: u8 where
  "UnsubscribePacket_flags = 0x02"

fun encode_filters :: "wire_ops \<Rightarrow> string list \<Rightarrow> bytes result" where
  "encode_filters L [] = Inr []"
| "encode_filters L (f # fs) =
     res_bind (encode_string L f) (\<lambda>a. res_bind (encode_filters L fs) (\<lambda>b. Inr (a @ b)))"

definition UnsubscribePacket_encode_body :: "wire_ops \<Rightarrow> UnsubscribePacket \<Rightarrow> bytes result" where
  "UnsubscribePacket_encode_body L p =
     res_bind (if uns_protocol_version p = 5 then Properties_encode L (uns_properties p)
               else Inr []) (\<lambda>props.
       if uns_filters p = [] then Inl MqttError.MalformedPacket
       else res_bind (encode_filters L (uns_filters p)) (\<lambda>filters.
         Inr (lib_put_u16 L (uns_packet_id p) @ props @ filters)))"

function decode_filters :: "wire_ops \<Rightarrow> bytes \<Rightarrow> string list \<Rightarrow> string list result" where
  "decode_filters L buf acc =
     (if buf = [] then Inr acc
      else res_bind (decode_string L buf) (\<lambda>(f, buf). decode_filters L buf (acc @ [f])))"
  by pat_completeness auto
termination
  by (relation "measure (\<lambda>(_, buf, _). length buf)") (auto dest!: decode_string_Inr(3))

declare decode_filters.simps [simp del]

definition UnsubscribePacket_decode_body_with_version ::
  "wire_ops \<Rightarrow> u8 \<Rightarrow> bytes \<Rightarrow> FixedHeader \<Rightarrow> (UnsubscribePacket \<times> bytes) result" where
  "UnsubscribePacket_decode_body_with_version L protocol_version buf fixed_header =
     res_bind (ok_or (ProtocolVersion_try_from protocol_version)
       MqttError.UnsupportedProtocolVersion) (\<lambda>_.
     if fh_flags fixed_header \<noteq> 0x02 then Inl MqttError.MalformedPacket
     else if length buf < 2 then Inl MqttError.MalformedPacket
     else let packet_id = lib_get_u16 L buf; buf = drop 2 buf in
       res_bind (if protocol_version = 5 then Properties_decode L buf
                 else Inr (Properties_new, buf)) (\<lambda>(properties, buf).
         if buf = [] then Inl MqttError.MalformedPacket
         else res_bind (decode_filters L buf []) (\<lambda>filters.
           Inr (\<lparr>uns_packet_id = packet_id, uns_filters = filters, uns_properties = properties,
                 uns_protocol_version = protocol_version\<rparr>, []))))"

definition UnsubscribePacket_decode_body ::
  "wire_ops \<Rightarrow> bytes \<Rightarrow> FixedHeader \<Rightarrow> (UnsubscribePacket \<times> bytes) result" where
  "UnsubscribePacket_decode_body L = UnsubscribePacket_decode_body_with_version L 5"

subsection \<open>UNSUBACK\<close>

datatype UnsubAckReasonCode =
    Success | NoSubscriptionExisted | UnspecifiedError | ImplementationSpecificError
  | NotAuthorized | TopicFilterInvalid | PacketIdentifierInUse

primrec UnsubAckReasonCode_to_u8 :: "UnsubAckReasonCode \<Rightarrow> u8" where
  "UnsubAckReasonCode_to_u8 UnsubAckReasonCode.Success = 0x00"
| "UnsubAckReasonCode_to_u8 UnsubAckReasonCode.NoSubscriptionExisted = 0x11"
| "UnsubAckReasonCode_to_u8 UnsubAckReasonCode.UnspecifiedError = 0x80"
| "UnsubAckReasonCode_to_u8 UnsubAckReasonCode.ImplementationSpecificError = 0x83"
| "UnsubAckReasonCode_to_u8 UnsubAckReasonCode.NotAuthorized = 0x87"
| "UnsubAckReasonCode_to_u8 UnsubAckReasonCode.TopicFilterInvalid = 0x8F"
| "UnsubAckReasonCode_to_u8 UnsubAckReasonCode.PacketIdentifierInUse = 0x91"

definition UnsubAckReasonCode_from_u8 :: "u8 \<Rightarrow> UnsubAckReasonCode option" where
  "UnsubAckReasonCode_from_u8 value = map_of
     [(0x00, UnsubAckReasonCode.Success),
      (0x11, UnsubAckReasonCode.NoSubscriptionExisted),
      (0x80, UnsubAckReasonCode.UnspecifiedError),
      (0x83, UnsubAckReasonCode.ImplementationSpecificError),
      (0x87, UnsubAckReasonCode.NotAuthorized),
      (0x8F, UnsubAckReasonCode.TopicFilterInvalid),
      (0x91, UnsubAckReasonCode.PacketIdentifierInUse)] value"

record UnsubAckPacket =
  uak_packet_id :: u16
  uak_reason_codes :: "UnsubAckReasonCode list"
  uak_properties :: Properties
  uak_protocol_version :: u8

definition UnsubAckPacket_new_v311 :: "u16 \<Rightarrow> UnsubAckPacket" where
  "UnsubAckPacket_new_v311 packet_id =
     \<lparr>uak_packet_id = packet_id, uak_reason_codes = [], uak_properties = Properties_new,
      uak_protocol_version = 4\<rparr>"

definition UnsubAckPacket_encode_body :: "wire_ops \<Rightarrow> UnsubAckPacket \<Rightarrow> bytes result" where
  "UnsubAckPacket_encode_body L p =
     (if uak_protocol_version p = 5 then
        res_bind (Properties_encode L (uak_properties p)) (\<lambda>props.
          if uak_reason_codes p = [] then Inl MqttError.MalformedPacket
          else Inr (lib_put_u16 L (uak_packet_id p) @ props
            @ map UnsubAckReasonCode_to_u8 (uak_reason_codes p)))
      else Inr (lib_put_u16 L (uak_packet_id p)))"

definition UnsubAckPacket_decode_body_with_version ::
  "wire_ops \<Rightarrow> u8 \<Rightarrow> bytes \<Rightarrow> FixedHeader \<Rightarrow> (UnsubAckPacket \<times> bytes) result" where
  "UnsubAckPacket_decode_body_with_version L protocol_version buf fixed_header =
     res_bind (ok_or (ProtocolVersion_try_from protocol_version)
       MqttError.UnsupportedProtocolVersion) (\<lambda>_.
     if length buf < 2 then Inl MqttError.MalformedPacket
     else let packet_id = lib_get_u16 L buf; buf = drop 2 buf in
       if protocol_version = 4 then
         (if buf \<noteq> [] then Inl MqttError.MalformedPacket
          else Inr (UnsubAckPacket_new_v311 packet_id, []))
       else res_bind (Properties_decode L buf) (\<lambda>(properties, buf).
         if buf = [] then Inl MqttError.MalformedPacket
         else res_bind (decode_reason_codes UnsubAckReasonCode_from_u8 buf []) (\<lambda>reason_codes.
           Inr (\<lparr>uak_packet_id = packet_id, uak_reason_codes = reason_codes,
                 uak_properties = properties, uak_protocol_version = 5\<rparr>, []))))"

definition UnsubAckPacket_decode_body ::
  "wire_ops \<Rightarrow> bytes \<Rightarrow> FixedHeader \<Rightarrow> (UnsubAckPacket \<times> bytes) result" where
  "UnsubAckPacket_decode_body L = UnsubAckPacket_decode_body_with_version L 5"

subsection \<open>Round trips\<close>

lemma UnsubAckReasonCode_from_to_u8 [enum_simps]:
  "UnsubAckReasonCode_from_u8 (UnsubAckReasonCode_to_u8 c) = Some c"
  by (cases c) (simp_all add: UnsubAckReasonCode_from_u8_def)

lemma decode_reason_codes_map:
  "(\<And>c. c \<in> set cs \<Longrightarrow> from_u8 (to_u8 c) = Some c) \<Longrightarrow>
   decode_reason_codes from_u8 (map to_u8 cs) acc = Inr (acc @ cs)"
  by (induction cs arbitrary: acc) simp_all

definition suback_ok :: "u8 \<Rightarrow> SubAckPacket \<Rightarrow> bool" where
  "suback_ok version p \<longleftrightarrow>
     (version = 4 \<or> version = 5) \<and> sak_protocol_version p = version
     \<and> properties_ok (sak_properties p)
     \<and> (version = 4 \<longrightarrow> Properties_is_empty (sak_properties p)
          \<and> list_all (\<lambda>c. SubAckReasonCode_is_success c \<or> c = SubAckReasonCode.UnspecifiedError)
              (sak_reason_codes p))"

definition unsubscribe_ok :: "u8 \<Rightarrow> UnsubscribePacket \<Rightarrow> bool" where
  "unsubscribe_ok version p \<longleftrightarrow>
     (version = 4 \<or> version = 5) \<and> uns_protocol_version p = version
     \<and> properties_ok (uns_properties p) \<and> (version = 4 \<longrightarrow> Properties_is_empty (uns_properties p))
     \<and> list_all mqtt_string_ok (uns_filters p)"

definition unsuback_ok :: "u8 \<Rightarrow> UnsubAckPacket \<Rightarrow> bool" where
  "unsuback_ok version p \<longleftrightarrow>
     (version = 4 \<or> version = 5) \<and> uak_protocol_version p = version
     \<and> properties_ok (uak_properties p)
     \<and> (version = 4 \<longrightarrow> Properties_is_empty (uak_properties p) \<and> uak_reason_codes p = [])"

lemma version_known: "version = 4 \<or> version = 5 \<Longrightarrow> \<exists>v. ProtocolVersion_try_from version = Some v"
  by (auto simp: ProtocolVersion_try_from_def)

lemma reason_code_v311_back:
  "SubAckReasonCode_is_success c \<or> c = SubAckReasonCode.UnspecifiedError \<Longrightarrow>
   SubAckPacket_reason_code_to_v311 c = SubAckReasonCode_to_u8 c"
  by (auto simp: SubAckReasonCode_is_success_def SubAckPacket_reason_code_to_v311_def)

context wire_lib
begin

lemma SubAckPacket_body_roundtrip:
  assumes "suback_ok v p" "SubAckPacket_encode_body L p = Inr b"
  shows "SubAckPacket_decode_body_with_version L v b h = Inr (p, [])"
proof -
  let ?f = "if v = 5 then SubAckReasonCode_to_u8 else SubAckPacket_reason_code_to_v311"
  obtain props where parts:
    "(if v = 5 then Properties_encode L (sak_properties p) else Inr []) = Inr props"
    "sak_reason_codes p \<noteq> []"
    "b = lib_put_u16 L (sak_packet_id p) @ props @ map ?f (sak_reason_codes p)"
    using assms
    by (auto simp: SubAckPacket_encode_body_def suback_ok_def res_bind_eq_Inr split: if_splits)
  have ok: "v = 4 \<or> v = 5" "sak_protocol_version p = v" "properties_ok (sak_properties p)"
    "v \<noteq> 5 \<longrightarrow> Properties_is_empty (sak_properties p)"
    using assms(1) by (auto simp: suback_ok_def)
  have "decode_reason_codes SubAckReasonCode_from_u8 (map ?f (sak_reason_codes p)) [] =
      Inr (sak_reason_codes p)"
    using assms(1)
    by (subst decode_reason_codes_map)
      (auto simp: suback_ok_def list_all_iff reason_code_v311_back enum_simps)
  then show ?thesis
    using version_known [OF ok(1)] ok(2) parts(2)
      optional_properties_roundtrip [OF parts(1) ok(3,4)]
    by (auto simp: SubAckPacket_decode_body_with_version_def parts(3) Let_def
        split del: if_split intro: SubAckPacket.equality)
qed

lemma decode_filters_app:
  assumes "encode_filters L fs = Inr bs" "list_all mqtt_string_ok fs"
  shows "decode_filters L bs acc = Inr (acc @ fs)"
  using assms
proof (induction fs arbitrary: bs acc)
  case Nil
  then show ?case by (simp add: decode_filters.simps)
next
  case (Cons f fs)
  obtain a c where ac: "encode_string L f = Inr a" "encode_filters L fs = Inr c" "bs = a @ c"
    using Cons.prems(1) by (auto simp: res_bind_eq_Inr)
  have str: "decode_string L (a @ r) = Inr (f, r)" for r
    using ac(1) Cons.prems(2) by (auto simp: encode_string_ok)
  have "a \<noteq> []"
    using ac(1) Cons.prems(2) by (auto simp: encode_string_ok)
  then show ?case
    using Cons.IH [OF ac(2)] Cons.prems(2) str
    by (subst decode_filters.simps) (simp add: ac(3))
qed

lemma encode_filters_not_Nil: "encode_filters L fs = Inr bs \<Longrightarrow> fs \<noteq> [] \<Longrightarrow> bs \<noteq> []"
  by (cases fs) (auto simp: res_bind_eq_Inr encode_string_eq split: if_splits)

lemma UnsubscribePacket_body_roundtrip:
  assumes "unsubscribe_ok v p" "UnsubscribePacket_encode_body L p = Inr b" "fh_flags h = 0x02"
  shows "UnsubscribePacket_decode_body_with_version L v b h = Inr (p, [])"
proof -
  obtain props fs where parts:
    "(if v = 5 then Properties_encode L (uns_properties p) else Inr []) = Inr props"
    "uns_filters p \<noteq> []" "encode_filters L (uns_filters p) = Inr fs"
    "b = lib_put_u16 L (uns_packet_id p) @ props @ fs"
    using assms(1,2)
    by (auto simp: UnsubscribePacket_encode_body_def unsubscribe_ok_def res_bind_eq_Inr
        split: if_splits)
  have ok: "v = 4 \<or> v = 5" "uns_protocol_version p = v" "properties_ok (uns_properties p)"
    "v \<noteq> 5 \<longrightarrow> Properties_is_empty (uns_properties p)" "list_all mqtt_string_ok (uns_filters p)"
    using assms(1) by (auto simp: unsubscribe_ok_def)
  show ?thesis
    using version_known [OF ok(1)] ok(2) assms(3) encode_filters_not_Nil [OF parts(3,2)]
      decode_filters_app [OF parts(3) ok(5), of "[]"]
      optional_properties_roundtrip [OF parts(1) ok(3,4)]
    by (auto simp: UnsubscribePacket_decode_body_with_version_def parts(4) Let_def
        split del: if_split intro: UnsubscribePacket.equality)
qed

lemma UnsubAckPacket_body_roundtrip:
  assumes "unsuback_ok v p" "UnsubAckPacket_encode_body L p = Inr b"
  shows "UnsubAckPacket_decode_body_with_version L v b h = Inr (p, [])"
proof (cases "v = 4")
  case True
  with assms show ?thesis
    using get_put_u16 [of "uak_packet_id p" "[]"] length_put(1)
    by (auto simp: unsuback_ok_def UnsubAckPacket_encode_body_def
        UnsubAckPacket_decode_body_with_version_def ProtocolVersion_try_from_def Let_def
        UnsubAckPacket_new_v311_def Properties_is_empty_iff Properties_new_def
        intro: UnsubAckPacket.equality)
next
  case False
  then have v: "v = 5" "uak_protocol_version p = 5" "properties_ok (uak_properties p)"
    using assms(1) by (auto simp: unsuback_ok_def)
  then obtain props where parts: "Properties_encode L (uak_properties p) = Inr props"
    "uak_reason_codes p \<noteq> []"
    "b = lib_put_u16 L (uak_packet_id p) @ props @ map UnsubAckReasonCode_to_u8 (uak_reason_codes p)"
    using assms(2)
    by (auto simp: UnsubAckPacket_encode_body_def res_bind_eq_Inr split: if_splits)
  have "decode_reason_codes UnsubAckReasonCode_from_u8
      (map UnsubAckReasonCode_to_u8 (uak_reason_codes p)) [] = Inr (uak_reason_codes p)"
    by (subst decode_reason_codes_map) (simp_all add: enum_simps)
  then show ?thesis
    using v parts(2) Properties_decode_encode [OF v(3) parts(1)]
    by (auto simp: UnsubAckPacket_decode_body_with_version_def parts(3) Let_def
        ProtocolVersion_try_from_def intro: UnsubAckPacket.equality)
qed

end

sublocale wire_lib \<subseteq> suback: packet_codec L PacketType.SubAck "\<lambda>_. 0"
    "SubAckPacket_encode_body L" "SubAckPacket_decode_body_with_version L v" "suback_ok v" for v
  by unfold_locales
    (simp_all add: SubAckPacket_body_roundtrip FixedHeader_validate_flags_def FixedHeader_new_def)

sublocale wire_lib \<subseteq> unsubscribe: packet_codec L PacketType.Unsubscribe
    "\<lambda>_. UnsubscribePacket_flags" "UnsubscribePacket_encode_body L"
    "UnsubscribePacket_decode_body_with_version L v" "unsubscribe_ok v" for v
  by unfold_locales
    (simp_all add: UnsubscribePacket_body_roundtrip UnsubscribePacket_flags_def
      FixedHeader_validate_flags_def FixedHeader_new_def)

sublocale wire_lib \<subseteq> unsuback: packet_codec L PacketType.UnsubAck "\<lambda>_. 0"
    "UnsubAckPacket_encode_body L" "UnsubAckPacket_decode_body_with_version L v" "unsuback_ok v"
  for v
  by unfold_locales
    (simp_all add: UnsubAckPacket_body_roundtrip FixedHeader_validate_flags_def FixedHeader_new_def)

end
