(* ===== verification/Packet_Control.thy ===== *)
theory Packet_Control
  imports Fixed_Header
begin

text \<open>
  DISCONNECT (\<open>packet/disconnect.rs\<close>), AUTH (\<open>packet/auth.rs\<close>) and the two ping packets
  (\<open>packet/pingreq.rs\<close>, \<open>packet/pingresp.rs\<close>).
\<close>

subsection \<open>DISCONNECT\<close>

record DisconnectPacket =
  dis_reason_code :: ReasonCode
  dis_properties :: Properties

definition DisconnectPacket_new :: "ReasonCode \<Rightarrow> DisconnectPacket" where
  "DisconnectPacket_new reason_code =
     \<lparr>dis_reason_code = reason_code, dis_properties = Properties_new\<rparr>"

definition DisconnectPacket_normal :: DisconnectPacket where
  "DisconnectPacket_normal = DisconnectPacket_new NORMAL_DISCONNECTION"

definition DisconnectPacket_is_valid_disconnect_reason_code :: "ReasonCode \<Rightarrow> bool" where
  "DisconnectPacket_is_valid_disconnect_reason_code code \<longleftrightarrow>
     code \<in> {NORMAL_DISCONNECTION, ReasonCode.DisconnectWithWillMessage,
       ReasonCode.UnspecifiedError, ReasonCode.MalformedPacket, ReasonCode.ProtocolError,
       ReasonCode.ImplementationSpecificError, ReasonCode.NotAuthorized, ReasonCode.ServerBusy,
       ReasonCode.ServerShuttingDown, ReasonCode.KeepAliveTimeout, ReasonCode.SessionTakenOver,
       ReasonCode.TopicFilterInvalid, ReasonCode.TopicNameInvalid,
       ReasonCode.ReceiveMaximumExceeded, ReasonCode.TopicAliasInvalid, ReasonCode.PacketTooLarge,
       ReasonCode.MessageRateTooHigh, ReasonCode.QuotaExceeded, ReasonCode.AdministrativeAction,
       ReasonCode.PayloadFormatInvalid, ReasonCode.RetainNotSupported, ReasonCode.QoSNotSupported,
       ReasonCode.UseAnotherServer, ReasonCode.ServerMoved,
       ReasonCode.SharedSubscriptionsNotSupported, ReasonCode.ConnectionRateExceeded,
       ReasonCode.MaximumConnectTime, ReasonCode.SubscriptionIdentifiersNotSupported,
       ReasonCode.WildcardSubscriptionsNotSupported}"

definition DisconnectPacket_encode_body :: "wire_ops \<Rightarrow> DisconnectPacket \<Rightarrow> bytes result" where
  "DisconnectPacket_encode_body L p =
     (if dis_reason_code p \<noteq> NORMAL_DISCONNECTION \<or> \<not> Properties_is_empty (dis_properties p)
      then res_bind (if \<not> Properties_is_empty (dis_properties p)
                     then Properties_encode L (dis_properties p) else Inr []) (\<lambda>props.
        Inr (ReasonCode_to_u8 (dis_reason_code p) # props))
      else Inr [])"

definition DisconnectPacket_decode_body ::
  "wire_ops \<Rightarrow> bytes \<Rightarrow> FixedHeader \<Rightarrow> (DisconnectPacket \<times> bytes) result" where
  "DisconnectPacket_decode_body L buf fixed_header =
     (case buf of
        [] \<Rightarrow> Inr (DisconnectPacket_normal, [])
      | reason_byte # buf \<Rightarrow>
          res_bind (ok_or (ReasonCode_from_u8 reason_byte) MqttError.MalformedPacket)
            (\<lambda>reason_code.
              if \<not> DisconnectPacket_is_valid_disconnect_reason_code reason_code
              then Inl MqttError.MalformedPacket
              else res_bind (if buf \<noteq> [] then Properties_decode L buf
                             else Inr (Properties_new, buf)) (\<lambda>(properties, buf).
                Inr (\<lparr>dis_reason_code = reason_code, dis_properties = properties\<rparr>, buf))))"

subsection \<open>AUTH\<close>

record AuthPacket =
  aut_reason_code :: ReasonCode
  aut_properties :: Properties

definition AuthPacket_new :: "ReasonCode \<Rightarrow> AuthPacket" where
  "AuthPacket_new reason_code = \<lparr>aut_reason_code = reason_code, aut_properties = Properties_new\<rparr>"

definition AuthPacket_with_properties :: "ReasonCode \<Rightarrow> Properties \<Rightarrow> AuthPacket" where
  "AuthPacket_with_properties reason_code properties =
     \<lparr>aut_reason_code = reason_code, aut_properties = properties\<rparr>"

definition AuthPacket_continue_authentication :: "string \<Rightarrow> bytes option \<Rightarrow> AuthPacket result" where
  "AuthPacket_continue_authentication auth_method auth_data =
     res_bind (Properties_add Properties_new PropertyId.AuthenticationMethod
       (PropertyValue.Utf8String auth_method)) (\<lambda>p.
     res_bind (case auth_data of
         None \<Rightarrow> Inr p
       | Some data \<Rightarrow> Properties_add p PropertyId.AuthenticationData (PropertyValue.BinaryData data))
       (\<lambda>p. Inr (AuthPacket_with_properties ReasonCode.ContinueAuthentication p)))"

definition AuthPacket_authentication_method :: "AuthPacket \<Rightarrow> string option" where
  "AuthPacket_authentication_method p =
     (case Properties_get (aut_properties p) PropertyId.AuthenticationMethod of
        Some (PropertyValue.Utf8String m) \<Rightarrow> Some m | _ \<Rightarrow> None)"

definition AuthPacket_authentication_data :: "AuthPacket \<Rightarrow> bytes option" where
  "AuthPacket_authentication_data p =
     (case Properties_get (aut_properties p) PropertyId.AuthenticationData of
        Some (PropertyValue.BinaryData d) \<Rightarrow> Some d | _ \<Rightarrow> None)"

definition AuthPacket_validate :: "AuthPacket \<Rightarrow> unit result" where
  "AuthPacket_validate p =
     (if AuthPacket_authentication_method p = None
         \<and> (aut_reason_code p = ReasonCode.ContinueAuthentication
            \<or> aut_reason_code p = ReasonCode.ReAuthenticate)
      then Inl MqttError.ProtocolError else Inr ())"

definition AuthPacket_encode_body :: "wire_ops \<Rightarrow> AuthPacket \<Rightarrow> bytes result" where
  "AuthPacket_encode_body L p =
     res_bind (AuthPacket_validate p) (\<lambda>_.
       if aut_reason_code p = ReasonCode.Success \<and> Properties_is_empty (aut_properties p)
       then Inr []
       else res_bind (Properties_encode L (aut_properties p)) (\<lambda>props.
         Inr (ReasonCode_to_u8 (aut_reason_code p) # props)))"

definition AuthPacket_decode_body ::
  "wire_ops \<Rightarrow> bytes \<Rightarrow> FixedHeader \<Rightarrow> (AuthPacket \<times> bytes) result" where
  "AuthPacket_decode_body L buf fixed_header =
     (if fh_remaining_length fixed_header = 0 then Inr (AuthPacket_new ReasonCode.Success, buf)
      else case buf of
        [] \<Rightarrow> Inl MqttError.MalformedPacket
      | reason_code_val # buf \<Rightarrow>
          res_bind (ok_or (ReasonCode_from_u8 reason_code_val)
            (MqttError.InvalidReasonCode reason_code_val)) (\<lambda>reason_code.
          res_bind (if buf \<noteq> [] then Properties_decode L buf
                    else Inr (Properties_new, buf)) (\<lambda>(properties, buf).
            let packet = \<lparr>aut_reason_code = reason_code, aut_properties = properties\<rparr>
            in res_bind (AuthPacket_validate packet) (\<lambda>_. Inr (packet, buf)))))"

subsection \<open>PINGREQ and PINGRESP\<close>

definition PingReqPacket_FIXED_HEADER :: u16 where
  "PingReqPacket_FIXED_HEADER = 0xC000"

definition PingReqPacket_default :: PingReqPacket where
  "PingReqPacket_default = \<lparr>pingreq_fixed_header = PingReqPacket_FIXED_HEADER\<rparr>"

definition PingReqPacket_encode_body :: "PingReqPacket \<Rightarrow> bytes result" where
  "PingReqPacket_encode_body p = Inr []"

definition PingReqPacket_decode_body :: "bytes \<Rightarrow> FixedHeader \<Rightarrow> (PingReqPacket \<times> bytes) result" where
  "PingReqPacket_decode_body buf fixed_header = Inr (PingReqPacket_default, buf)"

definition PingRespPacket_FIXED_HEADER :: u16 where
  "PingRespPacket_FIXED_HEADER = 0xD000"

definition PingRespPacket_default :: PingRespPacket where
  "PingRespPacket_default = \<lparr>pingresp_fixed_header = PingRespPacket_FIXED_HEADER\<rparr>"

definition PingRespPacket_encode_body :: "PingRespPacket \<Rightarrow> bytes result" where
  "PingRespPacket_encode_body p = Inr []"

definition PingRespPacket_decode_body ::
  "bytes \<Rightarrow> FixedHeader \<Rightarrow> (PingRespPacket \<times> bytes) result" where
  "PingRespPacket_decode_body buf fixed_header = Inr (PingRespPacket_default, buf)"

subsection \<open>Round trips\<close>

definition disconnect_ok :: "DisconnectPacket \<Rightarrow> bool" where
  "disconnect_ok p \<longleftrightarrow>
     DisconnectPacket_is_valid_disconnect_reason_code (dis_reason_code p)
     \<and> properties_ok (dis_properties p)"

definition auth_ok :: "AuthPacket \<Rightarrow> bool" where
  "auth_ok p \<longleftrightarrow> AuthPacket_validate p = Inr () \<and> properties_ok (aut_properties p)"

context wire_lib
begin

lemma DisconnectPacket_body_roundtrip:
  assumes "disconnect_ok p" "DisconnectPacket_encode_body L p = Inr b"
  shows "DisconnectPacket_decode_body L b h = Inr (p, [])"
proof (cases "Properties_is_empty (dis_properties p)")
  case True
  then show ?thesis
    using assms
    by (cases "dis_reason_code p = NORMAL_DISCONNECTION")
      (auto simp: disconnect_ok_def DisconnectPacket_encode_body_def DisconnectPacket_decode_body_def
        DisconnectPacket_normal_def DisconnectPacket_new_def Properties_is_empty_iff
        Properties_new_def enum_simps intro: DisconnectPacket.equality)
next
  case False
  then obtain props where props: "Properties_encode L (dis_properties p) = Inr props"
    "b = ReasonCode_to_u8 (dis_reason_code p) # props"
    using assms(2) by (auto simp: DisconnectPacket_encode_body_def res_bind_eq_Inr)
  have "Properties_decode L props = Inr (dis_properties p, [])"
    using Properties_decode_encode [OF _ props(1), of "[]"] assms(1) by (simp add: disconnect_ok_def)
  then show ?thesis
    using assms(1) Properties_encode_not_Nil [OF props(1)]
    by (simp add: DisconnectPacket_decode_body_def props(2) disconnect_ok_def enum_simps)
qed

lemma AuthPacket_body_roundtrip:
  assumes ok: "auth_ok p" and enc: "AuthPacket_encode_body L p = Inr b"
    and len: "fh_remaining_length h = 0 \<longleftrightarrow> b = []"
  shows "AuthPacket_decode_body L b h = Inr (p, [])"
proof (cases "aut_reason_code p = ReasonCode.Success \<and> Properties_is_empty (aut_properties p)")
  case True
  then show ?thesis
    using assms
    by (auto simp: auth_ok_def AuthPacket_encode_body_def AuthPacket_decode_body_def
        AuthPacket_new_def Properties_is_empty_iff Properties_new_def intro: AuthPacket.equality)
next
  case False
  then obtain props where props: "Properties_encode L (aut_properties p) = Inr props"
    "b = ReasonCode_to_u8 (aut_reason_code p) # props"
    using ok enc by (auto simp: AuthPacket_encode_body_def auth_ok_def res_bind_eq_Inr)
  have "Properties_decode L props = Inr (aut_properties p, [])"
    using Properties_decode_encode [OF _ props(1), of "[]"] ok by (simp add: auth_ok_def)
  then show ?thesis
    using ok len Properties_encode_not_Nil [OF props(1)]
    by (cases p) (simp add: AuthPacket_decode_body_def props(2) auth_ok_def enum_simps Let_def)
qed

end

sublocale wire_lib \<subseteq> disconnect: packet_codec L PacketType.Disconnect "\<lambda>_. 0"
    "DisconnectPacket_encode_body L" "DisconnectPacket_decode_body L" disconnect_ok
  by unfold_locales
    (simp_all add: DisconnectPacket_body_roundtrip FixedHeader_validate_flags_def FixedHeader_new_def)

sublocale wire_lib \<subseteq> auth: packet_codec L PacketType.Auth "\<lambda>_. 0"
    "AuthPacket_encode_body L" "AuthPacket_decode_body L" auth_ok
proof unfold_locales
  fix p b
  assume p: "auth_ok p" "AuthPacket_encode_body L p = Inr b" and b: "length b \<le> 268435455"
  have "fh_remaining_length (FixedHeader_new PacketType.Auth 0 (word_of_nat (length b))) = 0
    \<longleftrightarrow> b = []"
    using unat_u32_of_nat [of "length b"] b by (auto simp: FixedHeader_new_def unat_eq_0 [symmetric])
  then show "AuthPacket_decode_body L b
      (FixedHeader_new PacketType.Auth 0 (word_of_nat (length b))) = Inr (p, [])"
    by (rule AuthPacket_body_roundtrip [OF p])
qed (simp_all add: FixedHeader_validate_flags_def FixedHeader_new_def)

sublocale wire_lib \<subseteq> pingreq: packet_codec L PacketType.PingReq "\<lambda>_. 0"
    PingReqPacket_encode_body PingReqPacket_decode_body "\<lambda>p. p = PingReqPacket_default"
  by unfold_locales
    (simp_all add: PingReqPacket_encode_body_def PingReqPacket_decode_body_def
      FixedHeader_validate_flags_def FixedHeader_new_def)

sublocale wire_lib \<subseteq> pingresp: packet_codec L PacketType.PingResp "\<lambda>_. 0"
    PingRespPacket_encode_body PingRespPacket_decode_body "\<lambda>p. p = PingRespPacket_default"
  by unfold_locales
    (simp_all add: PingRespPacket_encode_body_def PingRespPacket_decode_body_def
      FixedHeader_validate_flags_def FixedHeader_new_def)

end
