(* ===== verification/Packet_All.thy ===== *)
theory Packet_All
  imports Packet_Ack Packet_Publish Packet_Connect Packet_Connack Packet_Subscribe Packet_Suback
    Packet_Control
begin

text \<open>
  The \<open>Packet\<close> enum of \<open>packet.rs\<close>: all packets under one type, and the two dispatchers that
  decode a body after its fixed header has been read.
\<close>

datatype Packet =
    Connect ConnectPacket
  | ConnAck ConnAckPacket
  | Publish PublishPacket
  | PubAck AckPacket
  | PubRec AckPacket
  | PubRel AckPacket
  | PubComp AckPacket
  | Subscribe SubscribePacket
  | SubAck SubAckPacket
  | Unsubscribe UnsubscribePacket
  | UnsubAck UnsubAckPacket
  | PingReq
  | PingResp
  | Disconnect DisconnectPacket
  | Auth AuthPacket

fun Packet_packet_type_name :: "Packet \<Rightarrow> string" where
  "Packet_packet_type_name (Packet.Connect _) = ''CONNECT''"
| "Packet_packet_type_name (Packet.ConnAck _) = ''CONNACK''"
| "Packet_packet_type_name (Packet.Publish _) = ''PUBLISH''"
| "Packet_packet_type_name (Packet.PubAck _) = ''PUBACK''"
| "Packet_packet_type_name (Packet.PubRec _) = ''PUBREC''"
| "Packet_packet_type_name (Packet.PubRel _) = ''PUBREL''"
| "Packet_packet_type_name (Packet.PubComp _) = ''PUBCOMP''"
| "Packet_packet_type_name (Packet.Subscribe _) = ''SUBSCRIBE''"
| "Packet_packet_type_name (Packet.SubAck _) = ''SUBACK''"
| "Packet_packet_type_name (Packet.Unsubscribe _) = ''UNSUBSCRIBE''"
| "Packet_packet_type_name (Packet.UnsubAck _) = ''UNSUBACK''"
| "Packet_packet_type_name Packet.PingReq = ''PINGREQ''"
| "Packet_packet_type_name Packet.PingResp = ''PINGRESP''"
| "Packet_packet_type_name (Packet.Disconnect _) = ''DISCONNECT''"
| "Packet_packet_type_name (Packet.Auth _) = ''AUTH''"

text \<open>\<open>Ok(Packet::X(packet))\<close> after a fallible body decoder.\<close>

definition wrap :: "('p \<Rightarrow> Packet) \<Rightarrow> ('p \<times> bytes) result \<Rightarrow> (Packet \<times> bytes) result" where
  "wrap c r = res_bind r (\<lambda>(packet, buf). Inr (c packet, buf))"

definition Packet_decode_from_body ::
  "wire_ops \<Rightarrow> PacketType \<Rightarrow> FixedHeader \<Rightarrow> bytes \<Rightarrow> (Packet \<times> bytes) result" where
  "Packet_decode_from_body L packet_type fixed_header buf =
     (if \<not> FixedHeader_validate_flags fixed_header then Inl MqttError.MalformedPacket
      else case packet_type of
        PacketType.Connect \<Rightarrow> wrap Packet.Connect (ConnectPacket_decode_body L buf fixed_header)
      | PacketType.ConnAck \<Rightarrow> wrap Packet.ConnAck (ConnAckPacket_decode_body L buf fixed_header)
      | PacketType.Publish \<Rightarrow> wrap Packet.Publish (PublishPacket_decode_body L buf fixed_header)
      | PacketType.PubAck \<Rightarrow> wrap Packet.PubAck (PubAckPacket_decode_body L buf fixed_header)
      | PacketType.PubRec \<Rightarrow> wrap Packet.PubRec (PubRecPacket_decode_body L buf fixed_header)
      | PacketType.PubRel \<Rightarrow> wrap Packet.PubRel (PubRelPacket_decode_body L buf fixed_header)
      | PacketType.PubComp \<Rightarrow> wrap Packet.PubComp (PubCompPacket_decode_body L buf fixed_header)
      | PacketType.Subscribe \<Rightarrow> wrap Packet.Subscribe (SubscribePacket_decode_body L buf fixed_header)
      | PacketType.SubAck \<Rightarrow> wrap Packet.SubAck (SubAckPacket_decode_body L buf fixed_header)
      | PacketType.Unsubscribe \<Rightarrow>
          wrap Packet.Unsubscribe (UnsubscribePacket_decode_body L buf fixed_header)
      | PacketType.UnsubAck \<Rightarrow> wrap Packet.UnsubAck (UnsubAckPacket_decode_body L buf fixed_header)
      | PacketType.PingReq \<Rightarrow> Inr (Packet.PingReq, buf)
      | PacketType.PingResp \<Rightarrow> Inr (Packet.PingResp, buf)
      | PacketType.Disconnect \<Rightarrow>
          wrap Packet.Disconnect (DisconnectPacket_decode_body L buf fixed_header)
      | PacketType.Auth \<Rightarrow> wrap Packet.Auth (AuthPacket_decode_body L buf fixed_header))"

definition Packet_decode_from_body_with_version ::
  "wire_ops \<Rightarrow> PacketType \<Rightarrow> FixedHeader \<Rightarrow> bytes \<Rightarrow> u8 \<Rightarrow> (Packet \<times> bytes) result" where
  "Packet_decode_from_body_with_version L packet_type fixed_header buf protocol_version =
     (if \<not> FixedHeader_validate_flags fixed_header then Inl MqttError.MalformedPacket
      else case packet_type of
        PacketType.Publish \<Rightarrow> wrap Packet.Publish
          (PublishPacket_decode_body_with_version L protocol_version buf fixed_header)
      | PacketType.Subscribe \<Rightarrow> wrap Packet.Subscribe
          (SubscribePacket_decode_body_with_version L protocol_version buf fixed_header)
      | PacketType.SubAck \<Rightarrow> wrap Packet.SubAck
          (SubAckPacket_decode_body_with_version L protocol_version buf fixed_header)
      | PacketType.Unsubscribe \<Rightarrow> wrap Packet.Unsubscribe
          (UnsubscribePacket_decode_body_with_version L protocol_version buf fixed_header)
      | PacketType.UnsubAck \<Rightarrow> wrap Packet.UnsubAck
          (UnsubAckPacket_decode_body_with_version L protocol_version buf fixed_header)
      | _ \<Rightarrow> Packet_decode_from_body L packet_type fixed_header buf)"

subsection \<open>Packets a connection of a given version can carry\<close>

fun packet_ok :: "u8 \<Rightarrow> Packet \<Rightarrow> bool" where
  "packet_ok v (Packet.Connect p) = connect_ok p"
| "packet_ok v (Packet.ConnAck p) = connack_ok p"
| "packet_ok v (Packet.Publish p) = publish_ok v p"
| "packet_ok v (Packet.PubAck p) = ack_ok is_valid_publish_ack_reason_code p"
| "packet_ok v (Packet.PubRec p) = ack_ok is_valid_publish_ack_reason_code p"
| "packet_ok v (Packet.PubRel p) = ack_ok is_valid_pubrel_reason_code p"
| "packet_ok v (Packet.PubComp p) = ack_ok is_valid_pubrel_reason_code p"
| "packet_ok v (Packet.Subscribe p) = subscribe_ok v p"
| "packet_ok v (Packet.SubAck p) = suback_ok v p"
| "packet_ok v (Packet.Unsubscribe p) = unsubscribe_ok v p"
| "packet_ok v (Packet.UnsubAck p) = unsuback_ok v p"
| "packet_ok v Packet.PingReq = True"
| "packet_ok v Packet.PingResp = True"
| "packet_ok v (Packet.Disconnect p) = disconnect_ok p"
| "packet_ok v (Packet.Auth p) = auth_ok p"

fun packet_type_of :: "Packet \<Rightarrow> PacketType" where
  "packet_type_of (Packet.Connect _) = PacketType.Connect"
| "packet_type_of (Packet.ConnAck _) = PacketType.ConnAck"
| "packet_type_of (Packet.Publish _) = PacketType.Publish"
| "packet_type_of (Packet.PubAck _) = PacketType.PubAck"
| "packet_type_of (Packet.PubRec _) = PacketType.PubRec"
| "packet_type_of (Packet.PubRel _) = PacketType.PubRel"
| "packet_type_of (Packet.PubComp _) = PacketType.PubComp"
| "packet_type_of (Packet.Subscribe _) = PacketType.Subscribe"
| "packet_type_of (Packet.SubAck _) = PacketType.SubAck"
| "packet_type_of (Packet.Unsubscribe _) = PacketType.Unsubscribe"
| "packet_type_of (Packet.UnsubAck _) = PacketType.UnsubAck"
| "packet_type_of Packet.PingReq = PacketType.PingReq"
| "packet_type_of Packet.PingResp = PacketType.PingResp"
| "packet_type_of (Packet.Disconnect _) = PacketType.Disconnect"
| "packet_type_of (Packet.Auth _) = PacketType.Auth"

lemma wrap_Inr: "wrap c r = Inr (p, rest) \<longleftrightarrow> (\<exists>q. r = Inr (q, rest) \<and> p = c q)"
  by (auto simp: wrap_def res_iffs)

lemma wrap_simp [simp]: "wrap c (Inr (q, rest)) = Inr (c q, rest)"
  by (simp add: wrap_def)

lemma decode_from_body_Inr:
  assumes "Packet_decode_from_body L t h b = Inr (p, r)"
  shows "FixedHeader_validate_flags h" "packet_type_of p = t"
  using assms
  by (auto simp: Packet_decode_from_body_def wrap_Inr split: if_splits PacketType.splits)

lemma decode_from_body_with_version_Inr:
  assumes "Packet_decode_from_body_with_version L t h b v = Inr (p, r)"
  shows "FixedHeader_validate_flags h" "packet_type_of p = t"
  using assms
  by (auto simp: Packet_decode_from_body_with_version_def wrap_Inr decode_from_body_Inr
      split: if_splits PacketType.splits)

lemma decode_from_body_v5:
  "Packet_decode_from_body_with_version L t h b 5 = Packet_decode_from_body L t h b"
  by (cases t) (simp_all add: Packet_decode_from_body_with_version_def Packet_decode_from_body_def
      PublishPacket_decode_body_def SubscribePacket_decode_body_def SubAckPacket_decode_body_def
      UnsubscribePacket_decode_body_def UnsubAckPacket_decode_body_def)


end
