(* ===== verification/Packet_Io.thy ===== *)
theory Packet_Io
  imports Packet_All
begin

text \<open>
  Packet framing on a byte stream (\<open>crates/mqtt5/src/transport/packet_io.rs\<close>): writing a whole
  packet, reassembling packets from a buffer that is filled by arbitrarily cut reads, and the
  byte-wise reader of the client.

  A transport is the sequence of segments the peer's bytes arrive in. A read asks for at most
  \<open>n\<close> bytes and gets a non-empty prefix of the next segment; an empty segment, or the end of the
  sequence, is the \<open>Ok(0)\<close> of a closed connection, and a failing read is an \<open>Inl\<close> entry.
\<close>

type_synonym reads = "bytes result list"

definition transport_read :: "nat \<Rightarrow> reads \<Rightarrow> bytes result \<times> reads" where
  "transport_read n rs =
     (case rs of
        [] \<Rightarrow> (Inr [], [])
      | Inl e # rs \<Rightarrow> (Inl e, rs)
      | Inr c # rs \<Rightarrow>
          if length c \<le> n then (Inr c, rs) else (Inr (take n c), Inr (drop n c) # rs))"

definition reads_size :: "reads \<Rightarrow> nat" where
  "reads_size rs = sum_list (map (case_sum (\<lambda>_. 1) (\<lambda>c. Suc (length c))) rs)"

lemma transport_read_smaller:
  assumes "transport_read n rs = (Inr c, rs')" "c \<noteq> []"
  shows "reads_size rs' < reads_size rs"
  using assms
  by (auto simp: transport_read_def reads_size_def split: list.splits sum.splits if_splits)

definition masks_CONTINUATION_BIT :: u8 where
  "masks_CONTINUATION_BIT = 0x80"

definition READ_CHUNK :: nat where
  "READ_CHUNK = 4096"

definition MAX_PACKET_SIZE :: u32 where
  "MAX_PACKET_SIZE = 268435456"

subsection \<open>Writing packets\<close>

definition encode_packet :: "PacketType \<Rightarrow> u8 \<Rightarrow> bytes result \<Rightarrow> bytes result" where
  "encode_packet packet_type flags encode_body =
     res_bind encode_body (\<lambda>body_buf.
       let byte1 = push_bit 4 (PacketType_to_u8 packet_type) OR (flags AND masks_FLAGS) in
       res_bind (encode_variable_int
         (if length body_buf < 2 ^ 32 then word_of_nat (length body_buf) else 0xFFFFFFFF)) (\<lambda>len.
       Inr (byte1 # len @ body_buf)))"

fun encode_packet_to_buffer :: "wire_ops \<Rightarrow> Packet \<Rightarrow> bytes result" where
  "encode_packet_to_buffer L (Packet.Connect p) =
     encode_packet PacketType.Connect 0 (ConnectPacket_encode_body L p)"
| "encode_packet_to_buffer L (Packet.ConnAck p) =
     encode_packet PacketType.ConnAck 0 (ConnAckPacket_encode_body L p)"
| "encode_packet_to_buffer L (Packet.Publish p) =
     (let flags = PublishPacket_flags p;
          body_size = PublishPacket_body_encoded_size L p;
          byte1 = push_bit 4 (PacketType_to_u8 PacketType.Publish) OR (flags AND masks_FLAGS)
      in res_bind (encode_variable_int
           (if body_size < 2 ^ 32 then word_of_nat body_size else 0xFFFFFFFF)) (\<lambda>len.
         res_bind (PublishPacket_encode_body_direct L p) (\<lambda>body. Inr (byte1 # len @ body))))"
| "encode_packet_to_buffer L (Packet.PubAck p) =
     encode_packet PacketType.PubAck 0 (AckPacket_encode_body L p)"
| "encode_packet_to_buffer L (Packet.PubRec p) =
     encode_packet PacketType.PubRec 0 (AckPacket_encode_body L p)"
| "encode_packet_to_buffer L (Packet.PubRel p) =
     encode_packet PacketType.PubRel 0x02 (AckPacket_encode_body L p)"
| "encode_packet_to_buffer L (Packet.PubComp p) =
     encode_packet PacketType.PubComp 0 (AckPacket_encode_body L p)"
| "encode_packet_to_buffer L (Packet.Subscribe p) =
     encode_packet PacketType.Subscribe 0x02 (SubscribePacket_encode_body L p)"
| "encode_packet_to_buffer L (Packet.SubAck p) =
     encode_packet PacketType.SubAck 0 (SubAckPacket_encode_body L p)"
| "encode_packet_to_buffer L (Packet.Unsubscribe p) =
     encode_packet PacketType.Unsubscribe 0x02 (UnsubscribePacket_encode_body L p)"
| "encode_packet_to_buffer L (Packet.UnsubAck p) =
     encode_packet PacketType.UnsubAck 0 (UnsubAckPacket_encode_body L p)"
| "encode_packet_to_buffer L Packet.PingReq = encode_packet PacketType.PingReq 0 (Inr [])"
| "encode_packet_to_buffer L Packet.PingResp = encode_packet PacketType.PingResp 0 (Inr [])"
| "encode_packet_to_buffer L (Packet.Disconnect p) =
     encode_packet PacketType.Disconnect 0 (DisconnectPacket_encode_body L p)"
| "encode_packet_to_buffer L (Packet.Auth p) =
     encode_packet PacketType.Auth 0 (AuthPacket_encode_body L p)"

subsection \<open>Reassembly from a read buffer\<close>

fun fixed_header_len_loop :: "nat \<Rightarrow> bytes \<Rightarrow> nat option result" where
  "fixed_header_len_loop index [] = Inr None"
| "fixed_header_len_loop index (byte # rest) =
     (if byte AND masks_CONTINUATION_BIT = 0 then Inr (Some (index + 1))
      else if index = 4 then Inl MqttError.MalformedPacket
      else fixed_header_len_loop (Suc index) rest)"

definition fixed_header_len :: "bytes \<Rightarrow> nat option result" where
  "fixed_header_len buf = fixed_header_len_loop 1 (drop 1 buf)"

definition buffered_frame :: "wire_ops \<Rightarrow> bytes \<Rightarrow> nat \<Rightarrow> (nat \<times> FixedHeader) option result" where
  "buffered_frame L read_buffer max_packet_size =
     res_bind (fixed_header_len read_buffer) (\<lambda>hl.
       case hl of
         None \<Rightarrow> Inr None
       | Some header_len \<Rightarrow>
           res_bind (FixedHeader_decode L (take header_len read_buffer)) (\<lambda>(fixed_header, _).
             let frame_len = header_len + unat (fh_remaining_length fixed_header) in
             if frame_len > max_packet_size
             then Inl (MqttError.PacketTooLarge frame_len max_packet_size)
             else Inr (Some (header_len, fixed_header))))"

text \<open>The second component is \<open>read_buffer\<close> after the call.\<close>

definition decode_buffered_packet ::
  "wire_ops \<Rightarrow> bytes \<Rightarrow> u8 \<Rightarrow> nat \<Rightarrow> Packet option result \<times> bytes" where
  "decode_buffered_packet L read_buffer protocol_version max_packet_size =
     (case buffered_frame L read_buffer max_packet_size of
        Inl e \<Rightarrow> (Inl e, read_buffer)
      | Inr None \<Rightarrow> (Inr None, read_buffer)
      | Inr (Some (header_len, fixed_header)) \<Rightarrow>
          let frame_len = header_len + unat (fh_remaining_length fixed_header) in
          if length read_buffer < frame_len then (Inr None, read_buffer)
          else let frame = drop header_len (take frame_len read_buffer) in
            (case Packet_decode_from_body_with_version L (fh_packet_type fixed_header) fixed_header
                    frame protocol_version of
               Inl e \<Rightarrow> Inl e
             | Inr (packet, _) \<Rightarrow> Inr (Some packet),
             drop frame_len read_buffer))"

function read_packet_reusing_buffer ::
  "wire_ops \<Rightarrow> reads \<Rightarrow> u8 \<Rightarrow> bytes \<Rightarrow> nat \<Rightarrow> Packet result \<times> bytes \<times> reads" where
  "read_packet_reusing_buffer L transport protocol_version read_buffer max_packet_size =
     (case decode_buffered_packet L read_buffer protocol_version max_packet_size of
        (Inl e, read_buffer) \<Rightarrow> (Inl e, read_buffer, transport)
      | (Inr (Some packet), read_buffer) \<Rightarrow> (Inr packet, read_buffer, transport)
      | (Inr None, read_buffer) \<Rightarrow>
          (case transport_read READ_CHUNK transport of
             (Inl e, transport) \<Rightarrow> (Inl e, read_buffer, transport)
           | (Inr chunk, transport) \<Rightarrow>
               if chunk = [] then (Inl MqttError.ClientClosed, read_buffer, transport)
               else read_packet_reusing_buffer L transport protocol_version
                      (read_buffer @ chunk) max_packet_size))"
  by pat_completeness auto
termination
  by (relation "measure (\<lambda>(L, transport, _). reads_size transport)")
    (auto dest: transport_read_smaller [OF sym])

subsection \<open>The byte-wise reader\<close>

function read_header_loop :: "reads \<Rightarrow> bytes \<Rightarrow> bytes result \<times> reads" where
  "read_header_loop transport header_buf =
     (case transport_read 1 transport of
        (Inl e, transport) \<Rightarrow> (Inl e, transport)
      | (Inr [], transport) \<Rightarrow> (Inl MqttError.ClientClosed, transport)
      | (Inr (byte # _), transport) \<Rightarrow>
          let header_buf = header_buf @ [byte] in
          if byte AND masks_CONTINUATION_BIT = 0 then (Inr header_buf, transport)
          else if length header_buf > 4 then (Inl MqttError.MalformedPacket, transport)
          else read_header_loop transport header_buf)"
  by pat_completeness auto
termination
  by (relation "measure (\<lambda>(transport, _). reads_size transport)")
    (auto dest: transport_read_smaller [OF sym])

function read_payload_loop :: "reads \<Rightarrow> nat \<Rightarrow> bytes \<Rightarrow> bytes result \<times> reads" where
  "read_payload_loop transport len payload_buf =
     (if length payload_buf < len then
        (case transport_read (len - length payload_buf) transport of
           (Inl e, transport) \<Rightarrow> (Inl e, transport)
         | (Inr chunk, transport) \<Rightarrow>
             if chunk = [] then (Inl MqttError.ClientClosed, transport)
             else read_payload_loop transport len (payload_buf @ chunk))
      else (Inr payload_buf, transport))"
  by pat_completeness auto
termination
  by (relation "measure (\<lambda>(transport, _). reads_size transport)")
    (auto dest: transport_read_smaller [OF sym])

definition read_packet :: "wire_ops \<Rightarrow> reads \<Rightarrow> u8 \<Rightarrow> Packet result \<times> reads" where
  "read_packet L transport protocol_version =
     (case transport_read 1 transport of
        (Inl e, transport) \<Rightarrow> (Inl e, transport)
      | (Inr [], transport) \<Rightarrow> (Inl MqttError.ClientClosed, transport)
      | (Inr (byte # _), transport) \<Rightarrow>
     (case read_header_loop transport [byte] of
        (Inl e, transport) \<Rightarrow> (Inl e, transport)
      | (Inr header_buf, transport) \<Rightarrow>
     (case FixedHeader_decode L header_buf of
        Inl e \<Rightarrow> (Inl e, transport)
      | Inr (fixed_header, _) \<Rightarrow>
          let max_size = unat MAX_PACKET_SIZE;
              remaining_length = unat (fh_remaining_length fixed_header) in
          if remaining_length > max_size
          then (Inl (MqttError.PacketTooLarge remaining_length max_size), transport)
          else (case read_payload_loop transport remaining_length [] of
             (Inl e, transport) \<Rightarrow> (Inl e, transport)
           | (Inr payload_buf, transport) \<Rightarrow>
               (res_bind (Packet_decode_from_body_with_version L (fh_packet_type fixed_header)
                  fixed_header payload_buf protocol_version) (\<lambda>(packet, _). Inr packet),
                transport)))))"

declare read_packet_reusing_buffer.simps [simp del] read_header_loop.simps [simp del]
  read_payload_loop.simps [simp del]

subsection \<open>What is written is a frame\<close>

lemma encode_packet_eq: "encode_packet t f body = MqttPacket_encode t f body"
  by (cases body) (simp_all add: encode_packet_def MqttPacket_encode_def FixedHeader_encode_def
      FixedHeader_new_def Let_def res_bind_assoc)

context wire_lib
begin

lemma publish_encoded:
  assumes "encode_packet_to_buffer L (Packet.Publish p) = Inr bs"
  shows "MqttPacket_encode PacketType.Publish (PublishPacket_flags p) (PublishPacket_encode_body L p)
    = Inr bs"
proof -
  obtain b where b: "PublishPacket_encode_body_direct L p = Inr b"
    using assms by (auto simp: res_iffs Let_def)
  then have "PublishPacket_encode_body L p = Inr b" "PublishPacket_body_encoded_size L p = length b"
    by (simp_all add: PublishPacket_encode_body_direct_iff PublishPacket_body_size)
  with assms b show ?thesis
    by (simp add: encode_packet_eq [symmetric] encode_packet_def Let_def)
qed

lemma encoded_frame:
  assumes "packet_ok v p" "encode_packet_to_buffer L p = Inr bs"
  shows "\<exists>h b. is_frame bs h b
    \<and> Packet_decode_from_body_with_version L (fh_packet_type h) h b v = Inr (p, [])"
proof -
  note defs = Packet_decode_from_body_with_version_def Packet_decode_from_body_def wrap_Inr
    is_frame_def encode_packet_eq
  show ?thesis
  proof (cases p)
    case (Connect q)
    with assms show ?thesis using connect.packet_frame [of q bs] by (fastforce simp: defs)
  next
    case (ConnAck q)
    with assms show ?thesis using connack.packet_frame [of q bs] by (fastforce simp: defs)
  next
    case (Publish q)
    with assms show ?thesis using publish.packet_frame [of v q bs] publish_encoded
      by (fastforce simp: defs simp del: encode_packet_to_buffer.simps)
  next
    case (PubAck q)
    with assms show ?thesis using puback.packet_frame [of q bs]
      by (fastforce simp: defs ack_flags_def)
  next
    case (PubRec q)
    with assms show ?thesis using pubrec.packet_frame [of q bs]
      by (fastforce simp: defs ack_flags_def)
  next
    case (PubRel q)
    with assms show ?thesis using pubrel.packet_frame [of q bs]
      by (fastforce simp: defs ack_flags_def)
  next
    case (PubComp q)
    with assms show ?thesis using pubcomp.packet_frame [of q bs]
      by (fastforce simp: defs ack_flags_def)
  next
    case (Subscribe q)
    with assms show ?thesis using subscribe.packet_frame [of v q bs]
      by (fastforce simp: defs SubscribePacket_flags_def)
  next
    case (SubAck q)
    with assms show ?thesis using suback.packet_frame [of v q bs] by (fastforce simp: defs)
  next
    case (Unsubscribe q)
    with assms show ?thesis using unsubscribe.packet_frame [of v q bs]
      by (fastforce simp: defs UnsubscribePacket_flags_def)
  next
    case (UnsubAck q)
    with assms show ?thesis using unsuback.packet_frame [of v q bs] by (fastforce simp: defs)
  next
    case PingReq
    with assms show ?thesis using pingreq.packet_frame [of PingReqPacket_default bs]
      by (fastforce simp: defs PingReqPacket_encode_body_def PingReqPacket_decode_body_def)
  next
    case PingResp
    with assms show ?thesis using pingresp.packet_frame [of PingRespPacket_default bs]
      by (fastforce simp: defs PingRespPacket_encode_body_def PingRespPacket_decode_body_def)
  next
    case (Disconnect q)
    with assms show ?thesis using disconnect.packet_frame [of q bs] by (fastforce simp: defs)
  next
    case (Auth q)
    with assms show ?thesis using auth.packet_frame [of q bs] by (fastforce simp: defs)
  qed
qed

end

subsection \<open>Finding the frame in a buffer\<close>

lemma takeWhile_take: "takeWhile P (take k xs) = take k (takeWhile P xs)"
proof (induction xs arbitrary: k)
  case (Cons x xs)
  then show ?case by (cases k) simp_all
qed simp

lemma fixed_header_len_loop_eq:
  "1 \<le> i \<Longrightarrow> i \<le> 4 \<Longrightarrow> fixed_header_len_loop i bs =
     (let n = vbi_prefix bs in
      if n + i > 4 then Inl MqttError.MalformedPacket
      else if n < length bs then Inr (Some (i + n + 1)) else Inr None)"
proof (induction bs arbitrary: i)
  case (Cons b bs)
  show ?case
  proof (cases "bit b 7 \<and> i \<noteq> 4")
    case True
    then show ?thesis
      using Cons.IH [of "Suc i"] Cons.prems
      by (simp add: vbi_prefix_def masks_CONTINUATION_BIT_def u8_and_80 Let_def)
  qed (use Cons.prems in \<open>auto simp: vbi_prefix_def masks_CONTINUATION_BIT_def u8_and_80\<close>)
qed (simp add: vbi_prefix_def)

lemma fixed_header_len_eq:
  "fixed_header_len buf =
     (let n = vbi_prefix (drop 1 buf) in
      if n > 3 then Inl MqttError.MalformedPacket
      else if n + 1 < length buf then Inr (Some (n + 2)) else Inr None)"
  using fixed_header_len_loop_eq [of 1 "drop 1 buf"] by (auto simp: fixed_header_len_def Let_def)

lemma vbi_prefix_encoded:
  assumes "encode_variable_int v = Inr vi"
  shows "vbi_prefix (vi @ r) + 1 = length vi" "length vi \<le> 4"
proof -
  have "decode_variable_int (vi @ r) = Inr (v, r)"
    using assms by (auto simp: encode_variable_int_eq decode_encode_variable_int split: if_splits)
  then have n: "vbi_prefix (vi @ r) < length (vi @ r)" "vbi_prefix (vi @ r) < 4"
    "drop (Suc (vbi_prefix (vi @ r))) (vi @ r) = r"
    by (simp_all add: decode_variable_int_eq vbi_decode_def Let_def split: if_splits)
  have "length (vi @ r) - Suc (vbi_prefix (vi @ r)) = length r"
    using arg_cong [OF n(3), of length] by (simp only: length_drop)
  with n(1,2) show "vbi_prefix (vi @ r) + 1 = length vi" "length vi \<le> 4"
    by simp_all
qed

lemma vbi_prefix_cut:
  assumes "encode_variable_int v = Inr vi" "k < length vi"
  shows "vbi_prefix (take k vi) = k" "k \<le> 3"
proof -
  have "length (takeWhile (\<lambda>b. bit b 7) vi) + 1 = length vi" "length vi \<le> 4"
    using vbi_prefix_encoded(1) [OF assms(1), of "[]"] vbi_prefix_encoded(2) [OF assms(1)] by (simp_all add: vbi_prefix_def)
  with assms(2) show "vbi_prefix (take k vi) = k" "k \<le> 3"
    by (simp_all add: vbi_prefix_def takeWhile_take)
qed

lemma FixedHeader_encode_Inr:
  "FixedHeader_encode h = Inr fh \<longleftrightarrow> (\<exists>vi. encode_variable_int (fh_remaining_length h) = Inr vi
     \<and> fh = (push_bit 4 (PacketType_to_u8 (fh_packet_type h)) OR (fh_flags h AND masks_FLAGS)) # vi)"
  by (auto simp: FixedHeader_encode_def res_iffs Let_def)

lemma fixed_header_len_encoded:
  assumes "FixedHeader_encode h = Inr fh"
  shows "fixed_header_len (fh @ r) = Inr (Some (length fh))"
    "k < length fh \<Longrightarrow> fixed_header_len (take k fh) = Inr None"
proof -
  obtain b vi where vi: "encode_variable_int (fh_remaining_length h) = Inr vi" "fh = b # vi"
    using assms by (auto simp: FixedHeader_encode_Inr)
  show "fixed_header_len (fh @ r) = Inr (Some (length fh))"
    using vbi_prefix_encoded(1) [OF vi(1), of r] vbi_prefix_encoded(2) [OF vi(1)]
    by (simp add: fixed_header_len_eq vi(2) Let_def)
  show "fixed_header_len (take k fh) = Inr None" if "k < length fh"
  proof (cases k)
    case (Suc j)
    then show ?thesis
      using vbi_prefix_cut [OF vi(1), of j] that by (simp add: fixed_header_len_eq vi(2) Let_def)
  qed (simp add: fixed_header_len_eq vbi_prefix_def)
qed

context wire_lib
begin

lemma buffered_frame_encoded:
  assumes "FixedHeader_encode h = Inr fh" "fh_flags h < 16"
  shows "buffered_frame L (fh @ r) m =
    (let len = length fh + unat (fh_remaining_length h) in
     if len > m then Inl (MqttError.PacketTooLarge len m) else Inr (Some (length fh, h)))"
  using FixedHeader_roundtrip [OF assms(2,1), of "[]"] fixed_header_len_encoded(1) [OF assms(1)]
  by (simp add: buffered_frame_def Let_def)

lemma decode_buffered_frame:
  assumes "is_frame bs h b" "length bs \<le> m"
    and "Packet_decode_from_body_with_version L (fh_packet_type h) h b v = Inr (p, q)"
  shows "decode_buffered_packet L (bs @ r) v m = (Inr (Some p), r)"
proof -
  obtain fh where "FixedHeader_encode h = Inr fh" "bs = fh @ b" "fh_flags h < 16"
    "length b = unat (fh_remaining_length h)"
    using assms(1) by (auto simp: is_frame_def)
  then show ?thesis
    using assms(2,3) buffered_frame_encoded [of h fh "b @ r" m]
    by (simp add: decode_buffered_packet_def Let_def)
qed

lemma decode_buffered_cut:
  assumes "is_frame bs h b" "length bs \<le> m" "k < length bs"
  shows "decode_buffered_packet L (take k bs) v m = (Inr None, take k bs)"
proof -
  obtain fh where fh: "FixedHeader_encode h = Inr fh" "bs = fh @ b" "fh_flags h < 16"
    "length b = unat (fh_remaining_length h)"
    using assms(1) by (auto simp: is_frame_def)
  show ?thesis
  proof (cases "k < length fh")
    case True
    then show ?thesis
      using fixed_header_len_encoded(2) [OF fh(1) True] fh(2)
      by (simp add: decode_buffered_packet_def buffered_frame_def)
  next
    case False
    then show ?thesis
      using assms(2,3) fh buffered_frame_encoded [of h fh "take (k - length fh) b" m]
      by (simp add: decode_buffered_packet_def Let_def)
  qed
qed

end

subsection \<open>Reassembly from an arbitrarily cut stream\<close>

lemma transport_read_stream:
  assumes "0 < n" "[] \<notin> set cs" "cs \<noteq> []"
  shows "\<exists>c cs'. transport_read n (map Inr cs) = (Inr c, map Inr cs') \<and> c \<noteq> [] \<and> length c \<le> n
    \<and> c @ concat cs' = concat cs \<and> [] \<notin> set cs'"
proof -
  obtain c cs' where cs: "cs = c # cs'"
    using assms(3) by (cases cs) auto
  show ?thesis
  proof (cases "length c \<le> n")
    case True
    then show ?thesis
      using assms by (intro exI [of _ c] exI [of _ cs']) (auto simp: cs transport_read_def)
  next
    case False
    then show ?thesis
      using assms
      by (intro exI [of _ "take n c"] exI [of _ "drop n c # cs'"]) (auto simp: cs transport_read_def)
  qed
qed

context wire_lib
begin

lemma read_reassembles:
  assumes frame: "is_frame bs h b" "length bs \<le> m"
    "Packet_decode_from_body_with_version L (fh_packet_type h) h b v = Inr (p, q)"
    and "rb @ concat cs = bs @ tail" "[] \<notin> set cs"
  shows "\<exists>rb' cs'. read_packet_reusing_buffer L (map Inr cs) v rb m = (Inr p, rb', map Inr cs')
    \<and> rb' @ concat cs' = tail \<and> [] \<notin> set cs'"
  using assms(4,5)
proof (induction "reads_size (map Inr cs)" arbitrary: rb cs rule: less_induct)
  case less
  show ?case
  proof (cases "length bs \<le> length rb")
    case True
    then obtain r where "rb = bs @ r" "r @ concat cs = tail"
      using less.prems(1) by (auto simp: append_eq_append_conv2)
    then show ?thesis
      using decode_buffered_frame [OF frame, of r] less.prems(2)
      by (auto simp: read_packet_reusing_buffer.simps [of L "map Inr cs"])
  next
    case False
    then have rb: "rb = take (length rb) bs" "length rb < length bs"
      using arg_cong [OF less.prems(1), of "take (length rb)"] by simp_all
    then have none: "decode_buffered_packet L rb v m = (Inr None, rb)"
      using decode_buffered_cut [OF frame(1,2) rb(2)] by metis
    have "cs \<noteq> []"
      using less.prems(1) False by auto
    then obtain c cs' where c: "transport_read READ_CHUNK (map Inr cs) = (Inr c, map Inr cs')"
      "c \<noteq> []" "c @ concat cs' = concat cs" "[] \<notin> set cs'"
      using transport_read_stream [of READ_CHUNK cs] less.prems(2) by (fastforce simp: READ_CHUNK_def)
    have "\<exists>rb' ds. read_packet_reusing_buffer L (map Inr cs') v (rb @ c) m = (Inr p, rb', map Inr ds)
      \<and> rb' @ concat ds = tail \<and> [] \<notin> set ds"
      using less.hyps [OF transport_read_smaller [OF c(1,2)], of "rb @ c"] less.prems(1) c(3,4) by simp
    then show ?thesis
      using none c(1,2) by (simp add: read_packet_reusing_buffer.simps [of L "map Inr cs"])
  qed
qed

end

text \<open>A reader task: as many packets as asked for, from one connection.\<close>

fun read_packets :: "wire_ops \<Rightarrow> nat \<Rightarrow> reads \<Rightarrow> u8 \<Rightarrow> bytes \<Rightarrow> nat \<Rightarrow>
    Packet list result \<times> bytes \<times> reads" where
  "read_packets L 0 transport v read_buffer m = (Inr [], read_buffer, transport)"
| "read_packets L (Suc n) transport v read_buffer m =
     (case read_packet_reusing_buffer L transport v read_buffer m of
        (Inl e, read_buffer, transport) \<Rightarrow> (Inl e, read_buffer, transport)
      | (Inr packet, read_buffer, transport) \<Rightarrow>
          (case read_packets L n transport v read_buffer m of
             (Inl e, read_buffer, transport) \<Rightarrow> (Inl e, read_buffer, transport)
           | (Inr packets, read_buffer, transport) \<Rightarrow>
               (Inr (packet # packets), read_buffer, transport)))"

context wire_lib
begin

lemma read_packets_reassemble:
  assumes "list_all2 (\<lambda>p bs. packet_ok v p \<and> encode_packet_to_buffer L p = Inr bs \<and> length bs \<le> m)
      ps bss"
    and "[] \<notin> set cs" "rb @ concat cs = concat bss @ tail"
  shows "\<exists>rb' cs'. read_packets L (length ps) (map Inr cs) v rb m = (Inr ps, rb', map Inr cs')
    \<and> rb' @ concat cs' = tail"
  using assms
proof (induction ps bss arbitrary: rb cs rule: list_all2_induct)
  case (Cons p ps bs bss)
  obtain h b where frame: "is_frame bs h b"
    "Packet_decode_from_body_with_version L (fh_packet_type h) h b v = Inr (p, [])"
    using encoded_frame Cons.hyps(1) by blast
  obtain rb1 cs1 where 1: "read_packet_reusing_buffer L (map Inr cs) v rb m = (Inr p, rb1, map Inr cs1)"
    "rb1 @ concat cs1 = concat bss @ tail" "[] \<notin> set cs1"
    using read_reassembles [OF frame(1) _ frame(2), of m rb cs "concat bss @ tail"] Cons.hyps(1)
      Cons.prems by auto
  then obtain rb2 cs2 where "read_packets L (length ps) (map Inr cs1) v rb1 m
      = (Inr ps, rb2, map Inr cs2)" "rb2 @ concat cs2 = tail"
    using Cons.IH by blast
  with 1(1) show ?case
    by simp
qed auto

end

subsection \<open>The byte-wise reader on a stream\<close>

lemma encoded_length_bytes:
  assumes "encode_variable_int v = Inr vi"
  shows "\<exists>ys z. vi = ys @ [z] \<and> (\<forall>y \<in> set ys. bit y 7) \<and> \<not> bit z 7 \<and> length ys \<le> 3"
proof -
  let ?ys = "takeWhile (\<lambda>b. bit b 7) vi"
  have len: "length ?ys + 1 = length vi" "length vi \<le> 4"
    using vbi_prefix_encoded(1) [OF assms, of "[]"] vbi_prefix_encoded(2) [OF assms]
    by (simp_all add: vbi_prefix_def)
  let ?zs = "dropWhile (\<lambda>b. bit b 7) vi"
  have "length ?ys + length ?zs = length vi"
    by (metis length_append takeWhile_dropWhile_id)
  then have "length ?zs = 1"
    using len by simp
  then obtain z where z: "?zs = [z]"
    by (cases ?zs) auto
  moreover have "\<not> bit z 7"
    using hd_dropWhile [of "\<lambda>b. bit b 7" vi] z by simp
  ultimately show ?thesis
    using takeWhile_dropWhile_id [of "\<lambda>b. bit b 7" vi] len
    by (intro exI [of _ ?ys] exI [of _ z]) (auto dest: set_takeWhileD)
qed

lemma read_header_stream:
  assumes "concat cs = (ys @ [z]) @ r" "[] \<notin> set cs" "\<forall>y \<in> set ys. bit y 7" "\<not> bit z 7"
    "length pre + length ys \<le> 4"
  shows "\<exists>cs'. read_header_loop (map Inr cs) pre = (Inr (pre @ ys @ [z]), map Inr cs')
    \<and> concat cs' = r \<and> [] \<notin> set cs'"
  using assms
proof (induction ys arbitrary: cs pre)
  case Nil
  have "cs \<noteq> []" using Nil.prems(1) by auto
  then obtain c cs' where c: "transport_read 1 (map Inr cs) = (Inr c, map Inr cs')" "c \<noteq> []"
    "length c \<le> 1" "c @ concat cs' = concat cs" "[] \<notin> set cs'"
    using transport_read_stream [of 1 cs] Nil.prems(2) by fastforce
  then have "c = [z]" "concat cs' = r"
    using Nil.prems(1) by (cases c; simp)+
  with c Nil.prems show ?case
    by (simp add: read_header_loop.simps [of "map Inr cs"] masks_CONTINUATION_BIT_def u8_and_80)
next
  case (Cons y ys)
  have "cs \<noteq> []" using Cons.prems(1) by auto
  then obtain c cs' where c: "transport_read 1 (map Inr cs) = (Inr c, map Inr cs')" "c \<noteq> []"
    "length c \<le> 1" "c @ concat cs' = concat cs" "[] \<notin> set cs'"
    using transport_read_stream [of 1 cs] Cons.prems(2) by fastforce
  then have "c = [y]" "concat cs' = (ys @ [z]) @ r"
    using Cons.prems(1) by (cases c; simp)+
  with c Cons.prems Cons.IH [of cs' "pre @ [y]"] show ?case
    by (simp add: read_header_loop.simps [of "map Inr cs"] masks_CONTINUATION_BIT_def u8_and_80)
qed

lemma read_payload_stream:
  assumes "pb @ concat cs = body @ r" "[] \<notin> set cs" "length pb \<le> length body"
  shows "\<exists>cs'. read_payload_loop (map Inr cs) (length body) pb = (Inr body, map Inr cs')
    \<and> concat cs' = r \<and> [] \<notin> set cs'"
  using assms
proof (induction "reads_size (map Inr cs)" arbitrary: pb cs rule: less_induct)
  case less
  show ?case
  proof (cases "length pb < length body")
    case False
    then show ?thesis
      using less.prems by (simp add: read_payload_loop.simps [of "map Inr cs"])
  next
    case True
    let ?n = "length body - length pb"
    have "cs \<noteq> []"
      using less.prems(1) True by (auto dest: arg_cong [of _ _ length])
    then obtain c cs' where c: "transport_read ?n (map Inr cs) = (Inr c, map Inr cs')" "c \<noteq> []"
      "length c \<le> ?n" "c @ concat cs' = concat cs" "[] \<notin> set cs'"
      using transport_read_stream [of ?n cs] less.prems(2) True by fastforce
    have "\<exists>ds. read_payload_loop (map Inr cs') (length body) (pb @ c) = (Inr body, map Inr ds)
      \<and> concat ds = r \<and> [] \<notin> set ds"
      using less.hyps [OF transport_read_smaller [OF c(1,2)], of "pb @ c"] c(3,4,5) less.prems(1) True
      by simp
    then show ?thesis
      using c(1,2) True by (simp add: read_payload_loop.simps [of "map Inr cs"])
  qed
qed

context wire_lib
begin

lemma read_packet_stream:
  assumes frame: "is_frame bs h b"
    "Packet_decode_from_body_with_version L (fh_packet_type h) h b v = Inr (p, q)"
    and cs: "concat cs = bs @ tail" "[] \<notin> set cs"
  shows "\<exists>cs'. read_packet L (map Inr cs) v = (Inr p, map Inr cs') \<and> concat cs' = tail"
proof -
  obtain fh where fh: "FixedHeader_encode h = Inr fh" "bs = fh @ b" "fh_flags h < 16"
    "length b = unat (fh_remaining_length h)"
    using frame(1) by (auto simp: is_frame_def)
  obtain b1 ys z where vi: "encode_variable_int (fh_remaining_length h) = Inr (ys @ [z])"
    "fh = b1 # ys @ [z]" "\<forall>y \<in> set ys. bit y 7" "\<not> bit z 7" "length ys \<le> 3"
    using fh(1) encoded_length_bytes by (auto simp: FixedHeader_encode_Inr) blast
  have "cs \<noteq> []" using cs(1) vi(2) fh(2) by auto
  then obtain c cs1 where c: "transport_read 1 (map Inr cs) = (Inr c, map Inr cs1)" "c \<noteq> []"
    "length c \<le> 1" "c @ concat cs1 = concat cs" "[] \<notin> set cs1"
    using transport_read_stream [of 1 cs] cs(2) by fastforce
  then have 1: "c = [b1]" "concat cs1 = (ys @ [z]) @ b @ tail"
    using cs(1) vi(2) fh(2) by (cases c; simp)+
  obtain cs2 where 2: "read_header_loop (map Inr cs1) [b1] = (Inr fh, map Inr cs2)"
    "concat cs2 = b @ tail" "[] \<notin> set cs2"
    using read_header_stream [OF 1(2) c(5) vi(3,4), of "[b1]"] vi(2,5) by auto
  obtain cs3 where 3: "read_payload_loop (map Inr cs2) (length b) [] = (Inr b, map Inr cs3)"
    "concat cs3 = tail"
    using read_payload_stream [of "[]" cs2 b tail] 2 by auto
  have "unat (fh_remaining_length h) \<le> unat MAX_PACKET_SIZE"
    using vi(1) by (auto simp: encode_variable_int_eq VARIABLE_INT_MAX_def MAX_PACKET_SIZE_def
        word_le_nat_alt split: if_splits)
  then show ?thesis
    using c(1) 1(1) 2(1) 3 frame(2) fh(4) FixedHeader_roundtrip [OF fh(3,1), of "[]"]
    by (simp add: read_packet_def)
qed

end

subsection \<open>Bounded buffering\<close>

lemma vbi_prefix_le: "vbi_prefix bs \<le> length bs"
  by (simp add: vbi_prefix_def length_takeWhile_le)

lemma decode_buffered_None:
  assumes "decode_buffered_packet L rb v m = (Inr None, rb')"
  shows "rb' = rb" "length rb < max 5 m"
proof -
  show "rb' = rb"
    using assms by (auto simp: decode_buffered_packet_def Let_def
        split: sum.splits option.splits if_splits)
  consider "fixed_header_len rb = Inr None"
    | hl h where "buffered_frame L rb m = Inr (Some (hl, h))"
      "length rb < hl + unat (fh_remaining_length h)"
    using assms by (auto simp: decode_buffered_packet_def buffered_frame_def Let_def res_iffs
        split: sum.splits option.splits if_splits)
  then show "length rb < max 5 m"
  proof cases
    case 1
    then show ?thesis
      using vbi_prefix_le [of "drop 1 rb"]
      by (auto simp: fixed_header_len_eq Let_def split: if_splits)
  next
    case 2
    then have "hl + unat (fh_remaining_length h) \<le> m"
      by (auto simp: buffered_frame_def res_iffs Let_def split: option.splits if_splits)
    with 2(2) show ?thesis
      by simp
  qed
qed

lemma decode_buffered_shrinks:
  "length (snd (decode_buffered_packet L rb v m)) \<le> length rb"
  by (auto simp: decode_buffered_packet_def Let_def split: sum.splits option.splits)

lemma transport_read_le:
  "transport_read n rs = (Inr c, rs') \<Longrightarrow> length c \<le> n"
  by (auto simp: transport_read_def split: list.splits sum.splits if_splits)

lemma read_buffer_bound:
  assumes "length rb \<le> max 5 m + READ_CHUNK"
    and "read_packet_reusing_buffer L rs v rb m = (res, rb', rs')"
  shows "length rb' \<le> max 5 m + READ_CHUNK"
  using assms
proof (induction L rs v rb m rule: read_packet_reusing_buffer.induct)
  case (1 L rs v rb m)
  obtain d rb1 where d: "decode_buffered_packet L rb v m = (d, rb1)"
    by fastforce
  have le: "length rb1 \<le> length rb"
    using decode_buffered_shrinks [of L rb v m] d by simp
  show ?case
  proof (cases "d = Inr None")
    case False
    then show ?thesis
      using "1.prems" d le
      by (auto simp: read_packet_reusing_buffer.simps [of L rs] split: sum.splits option.splits)
  next
    case True
    note rb1 = decode_buffered_None [OF d [unfolded True]]
    obtain c rs1 where c: "transport_read READ_CHUNK rs = (c, rs1)"
      by fastforce
    show ?thesis
    proof (cases "\<exists>x. c = Inr x \<and> x \<noteq> []")
      case False
      then show ?thesis
        using "1.prems" d le True c
        by (auto simp: read_packet_reusing_buffer.simps [of L rs] split: sum.splits if_splits)
    next
      case *: True
      then obtain x where x: "c = Inr x" "x \<noteq> []"
        by blast
      have "length (rb @ x) \<le> max 5 m + READ_CHUNK"
        using rb1 transport_read_le c x by fastforce
      with "1.prems" "1.IH" [OF d [symmetric] True refl c [symmetric] x] rb1(1) show ?thesis
        using d True c x by (simp add: read_packet_reusing_buffer.simps [of L rs])
    qed
  qed
qed

subsection \<open>Properties of the component\<close>

text \<open>
  C1: reassembly. Packets written one after the other are read back by
  \<open>read_packet_reusing_buffer\<close> in the same order and unchanged, however the transport cuts the byte
  stream into reads; the bytes after the last packet are neither lost nor consumed: they are in the
  read buffer or still to be read.
\<close>

theorem stream_reassembly:
  assumes "wire_lib L" and "list_all (packet_ok v) ps"
    and "list_all2 (\<lambda>p bs. encode_packet_to_buffer L p = Inr bs \<and> length bs \<le> max_size) ps bss"
    and "concat cs = concat bss @ tail" and "[] \<notin> set cs"
  shows "\<exists>rb cs'. read_packets L (length ps) (map Inr cs) v [] max_size = (Inr ps, rb, map Inr cs')
    \<and> rb @ concat cs' = tail"
proof -
  have "list_all2 (\<lambda>p bs. packet_ok v p \<and> encode_packet_to_buffer L p = Inr bs
      \<and> length bs \<le> max_size) ps bss"
    using assms(2,3) by (auto simp: list_all2_conv_all_nth list_all_length)
  then show ?thesis
    using wire_lib.read_packets_reassemble [OF assms(1), of v max_size ps bss cs "[]" tail] assms(4,5)
    by simp
qed

theorem stream_reassembly_witness:
  "\<exists>rb cs'. read_packets ref_ops 2
      (map Inr [[0xC0], [0, 0x30, 4], [0, 1, 0x61], [7, 0xC0]]) 4 [] 100
    = (Inr [Packet.PingReq, Packet.Publish (PublishPacket_new_v311 ''a'' [7] AtMostOnce)],
       rb, map Inr cs') \<and> rb @ concat cs' = [0xC0]"
proof -
  let ?p = "PublishPacket_new_v311 ''a'' [7] AtMostOnce"
  have ok: "list_all (packet_ok 4) [Packet.PingReq, Packet.Publish ?p]"
    by (simp add: publish_ok_def PublishPacket_new_v311_def mqtt_string_ok_def properties_ok_iff
        Properties_new_def Properties_is_empty_iff eval_simps)
  have enc: "list_all2 (\<lambda>p bs. encode_packet_to_buffer ref_ops p = Inr bs \<and> length bs \<le> 100)
      [Packet.PingReq, Packet.Publish ?p] [[0xC0, 0], [0x30, 4, 0, 1, 0x61, 7]]"
    by (simp add: encode_packet_def PublishPacket_flags_def PublishPacket_new_v311_def
        PublishFlags_with_qos_def PublishPacket_body_encoded_size_def
        PublishPacket_encode_body_direct_def PublishPacket_encode_packet_id_def
        VariableInt_encode_loop.simps eval_simps)
  show ?thesis
    using stream_reassembly [OF wire_lib_ref_ops ok enc,
        of "[[0xC0], [0, 0x30, 4], [0, 1, 0x61], [7, 0xC0]]" "[0xC0]"]
    by (simp add: numeral_2_eq_2 del: read_packets.simps)
qed

text \<open>
  C13: the byte-wise reader. \<open>read_packet\<close> reads the length prefix a byte at a time and then the
  body; on any cut of a stream that starts with an encoded packet it returns that packet and stops
  exactly behind it.
\<close>

theorem bytewise_reader_roundtrip:
  assumes "wire_lib L" and "packet_ok v p" and "encode_packet_to_buffer L p = Inr bs"
    and "concat cs = bs @ tail" and "[] \<notin> set cs"
  shows "\<exists>cs'. read_packet L (map Inr cs) v = (Inr p, map Inr cs') \<and> concat cs' = tail"
  using wire_lib.encoded_frame [OF assms(1-3)] wire_lib.read_packet_stream [OF assms(1) _ _ assms(4,5)]
  by blast

theorem bytewise_reader_roundtrip_witness:
  "\<exists>cs'. read_packet ref_ops (map Inr [[0xC0, 0, 0x30], [9]]) 5 = (Inr Packet.PingReq, map Inr cs')
    \<and> concat cs' = [0x30, 9]"
proof -
  have "encode_packet_to_buffer ref_ops Packet.PingReq = Inr [0xC0, 0]"
    by (simp add: encode_packet_def VariableInt_encode_loop.simps eval_simps)
  then show ?thesis
    using bytewise_reader_roundtrip [OF wire_lib_ref_ops, of 5 Packet.PingReq "[0xC0, 0]"
        "[[0xC0, 0, 0x30], [9]]" "[0x30, 9]"] by simp
qed

text \<open>
  C15: bounded buffering. Whatever the peer sends, and whether the call succeeds or fails, the read
  buffer never holds more than the maximum packet size (or the five bytes of a fixed header) and
  one read chunk.
\<close>

theorem read_buffer_bounded:
  assumes "length read_buffer \<le> max 5 max_packet_size + READ_CHUNK"
  shows "case read_packet_reusing_buffer L transport v read_buffer max_packet_size of
    (_, read_buffer', _) \<Rightarrow> length read_buffer' \<le> max 5 max_packet_size + READ_CHUNK"
  using read_buffer_bound [OF assms] by (auto split: prod.split)

theorem read_buffer_bounded_witness:
  "case read_packet_reusing_buffer ref_ops [Inr [0xC0, 0]] 5 [] 100 of
     (_, read_buffer', _) \<Rightarrow> length read_buffer' \<le> max 5 100 + READ_CHUNK"
  using read_buffer_bounded [of "[]" 100 ref_ops "[Inr [0xC0, 0]]" 5] by simp

end
