(* ===== verification/Topic_Matching.thy ===== *)
theory Topic_Matching
  imports Mqtt_Types
begin

text \<open>
  Topic names and filters: \<open>topic_matching.rs\<close> and \<open>validation/mod.rs\<close> (both matchers, both filter
  validators, client identifiers as path components), \<open>validation/shared_subscription.rs\<close> and
  \<open>validation/namespace.rs\<close>. A string is its UTF-8 octets; all characters the code looks for are ASCII.
\<close>

subsection \<open>topic\_matching.rs\<close>

definition is_valid_topic :: "string \<Rightarrow> bool" where
  "is_valid_topic topic \<longleftrightarrow>
     \<not> str_contains topic (CHR 0x00) \<and> \<not> str_contains topic (CHR ''+'')
     \<and> \<not> str_contains topic (CHR ''#'') \<and> length topic \<le> 65535"

fun is_valid_filter_parts :: "string list \<Rightarrow> bool" where
  "is_valid_filter_parts [] = True"
| "is_valid_filter_parts (part # parts) =
     (if str_contains part (CHR ''#'') then part = ''#'' \<and> parts = []
      else if str_contains part (CHR ''+'') \<and> part \<noteq> ''+'' then False
      else is_valid_filter_parts parts)"

definition is_valid_filter :: "string \<Rightarrow> bool" where
  "is_valid_filter flt =
     (if flt = [] \<or> str_contains flt (CHR 0x00) \<or> length flt > 65535 then False
      else is_valid_filter_parts (split_on (CHR ''/'') flt))"

fun match_parts :: "string list \<Rightarrow> string list \<Rightarrow> bool" where
  "match_parts [] [] = True"
| "match_parts topic_parts (filter_part # filter_parts) =
     (if filter_part = ''#'' then filter_parts = []
      else case topic_parts of
        [] \<Rightarrow> False
      | topic_part # topic_parts \<Rightarrow>
          (filter_part = ''+'' \<or> filter_part = topic_part) \<and> match_parts topic_parts filter_parts)"
| "match_parts (topic_part # topic_parts) [] = False"

definition matches :: "string \<Rightarrow> string \<Rightarrow> bool" where
  "matches topic flt =
     (if topic = [] then False
      else if \<not> is_valid_topic topic \<or> \<not> is_valid_filter flt then False
      else if topic = flt then True
      else if starts_with topic ''$'' \<and> (starts_with flt ''#'' \<or> starts_with flt ''+'') then False
      else if flt = ''#'' then True
      else match_parts (split_on (CHR ''/'') topic) (split_on (CHR ''/'') flt))"

subsection \<open>validation/mod.rs\<close>

definition limits_MAX_STRING_LENGTH :: nat where
  "limits_MAX_STRING_LENGTH = 65535"

definition MAX_CLIENT_ID_LENGTH :: nat where
  "MAX_CLIENT_ID_LENGTH = 128"

definition is_valid_topic_name :: "string \<Rightarrow> bool" where
  "is_valid_topic_name topic =
     (if topic = [] then False
      else if length topic > limits_MAX_STRING_LENGTH then False
      else if str_contains topic (CHR 0x00) then False
      else if str_contains topic (CHR ''+'') \<or> str_contains topic (CHR ''#'') then False
      else True)"

fun topic_filter_parts_ok :: "string list \<Rightarrow> bool" where
  "topic_filter_parts_ok [] = True"
| "topic_filter_parts_ok (part # parts) =
     (if str_contains part (CHR ''#'') \<and> parts \<noteq> [] then False
      else if str_contains part (CHR ''#'') \<and> part \<noteq> ''#'' then False
      else if str_contains part (CHR ''+'') \<and> part \<noteq> ''+'' then False
      else topic_filter_parts_ok parts)"

definition is_valid_topic_filter :: "string \<Rightarrow> bool" where
  "is_valid_topic_filter flt =
     (if flt = [] then False
      else if length flt > limits_MAX_STRING_LENGTH then False
      else if str_contains flt (CHR 0x00) then False
      else topic_filter_parts_ok (split_on (CHR ''/'') flt))"

definition is_valid_subscription_filter :: "string \<Rightarrow> bool" where
  "is_valid_subscription_filter flt =
     (if hd (split_on (CHR ''/'') flt) \<noteq> ''$share'' then is_valid_topic_filter flt
      else if length flt > limits_MAX_STRING_LENGTH then False
      else case Option.bind (strip_prefix ''$share/'' flt) (split_once (CHR ''/'')) of
        None \<Rightarrow> False
      | Some (share_name, topic_filter) \<Rightarrow>
          share_name \<noteq> [] \<and> \<not> (str_contains share_name (CHR ''+'') \<or> str_contains share_name (CHR ''#''))
          \<and> is_valid_topic_filter topic_filter)"

definition is_ascii_alphanumeric :: "char \<Rightarrow> bool" where
  "is_ascii_alphanumeric c \<longleftrightarrow>
     (48 \<le> (of_char c :: nat) \<and> (of_char c :: nat) \<le> 57)
     \<or> (65 \<le> (of_char c :: nat) \<and> (of_char c :: nat) \<le> 90)
     \<or> (97 \<le> (of_char c :: nat) \<and> (of_char c :: nat) \<le> 122)"

definition is_ascii_control :: "char \<Rightarrow> bool" where
  "is_ascii_control c \<longleftrightarrow> (of_char c :: nat) < 32 \<or> (of_char c :: nat) = 127"

definition is_path_safe_client_id :: "string \<Rightarrow> bool" where
  "is_path_safe_client_id client_id =
     (if client_id = [] then True
      else if length client_id > MAX_CLIENT_ID_LENGTH then False
      else if str_contains client_id (CHR ''/'') \<or> str_contains client_id (CHR 0x5C)
        \<or> str_contains client_id (CHR 0x00) then False
      else if client_id = ''.'' \<or> client_id = ''..'' \<or> starts_with client_id ''../'' then False
      else list_all (\<lambda>c. \<not> is_ascii_control c) client_id)"

definition validate_topic_name :: "string \<Rightarrow> unit result" where
  "validate_topic_name topic =
     (if \<not> is_valid_topic_name topic then Inl MqttError.InvalidTopicName else Inr ())"

definition validate_topic_filter :: "string \<Rightarrow> unit result" where
  "validate_topic_filter flt =
     (if \<not> is_valid_topic_filter flt then Inl MqttError.InvalidTopicFilter else Inr ())"

text \<open>The index loop of \<open>topic_matches_filter\<close> on what is left of both lists of levels.\<close>

fun topic_matches_loop :: "string list \<Rightarrow> string list \<Rightarrow> bool" where
  "topic_matches_loop (topic_part # topic_parts) (filter_part # filter_parts) =
     (if filter_part = ''#'' then True
      else if filter_part \<noteq> ''+'' \<and> filter_part \<noteq> topic_part then False
      else topic_matches_loop topic_parts filter_parts)"
| "topic_matches_loop topic_parts filter_parts =
     (if topic_parts = [] \<and> filter_parts = [] then True
      else topic_parts = [] \<and> filter_parts = [''#''])"

definition topic_matches_filter :: "string \<Rightarrow> string \<Rightarrow> bool" where
  "topic_matches_filter topic flt =
     (if starts_with topic ''$'' \<and> (starts_with flt ''#'' \<or> starts_with flt ''+'') then False
      else if flt = ''#'' then True
      else topic_matches_loop (split_on (CHR ''/'') topic) (split_on (CHR ''/'') flt))"

subsection \<open>Shared subscriptions\<close>

definition parse_shared_subscription :: "string \<Rightarrow> string \<times> string option" where
  "parse_shared_subscription topic_filter =
     (case Option.bind (strip_prefix ''$share/'' topic_filter) (split_once (CHR ''/'')) of
        Some (group_name, actual_filter) \<Rightarrow> (actual_filter, Some group_name)
      | None \<Rightarrow> (topic_filter, None))"

subsection \<open>Pluggable validators\<close>

fun str_contains_str :: "string \<Rightarrow> string \<Rightarrow> bool" where
  "str_contains_str [] p = (p = [])"
| "str_contains_str (c # s) p = (starts_with (c # s) p \<or> str_contains_str s p)"

record NamespaceValidator =
  nv_service_prefix :: string
  nv_device_namespace :: string
  nv_device_id :: "string option"
  nv_allow_system_topics :: bool
  nv_additional_reserved_prefixes :: "string list"

definition NamespaceValidator_new :: "string \<Rightarrow> string \<Rightarrow> NamespaceValidator" where
  "NamespaceValidator_new service_prefix device_namespace =
     \<lparr>nv_service_prefix = service_prefix, nv_device_namespace = device_namespace,
      nv_device_id = None, nv_allow_system_topics = False, nv_additional_reserved_prefixes = []\<rparr>"

definition NamespaceValidator_is_service_topic :: "NamespaceValidator \<Rightarrow> string \<Rightarrow> bool" where
  "NamespaceValidator_is_service_topic v topic = starts_with topic (nv_service_prefix v @ ''/'')"

definition NamespaceValidator_is_system_topic :: "string \<Rightarrow> bool" where
  "NamespaceValidator_is_system_topic topic = starts_with topic ''$SYS/''"

definition namespace_reserved_check :: "NamespaceValidator \<Rightarrow> string \<Rightarrow> unit result" where
  "namespace_reserved_check v topic =
     (if list_ex (starts_with topic) (nv_additional_reserved_prefixes v)
      then Inl MqttError.InvalidTopicName else Inr ())"

definition NamespaceValidator_validate_namespace_restrictions ::
  "NamespaceValidator \<Rightarrow> string \<Rightarrow> unit result" where
  "NamespaceValidator_validate_namespace_restrictions v topic =
     (if NamespaceValidator_is_system_topic topic \<and> \<not> nv_allow_system_topics v
      then Inl MqttError.InvalidTopicName
      else if NamespaceValidator_is_service_topic v topic then
        (if nv_service_prefix v = ''$aws'' then
           (if list_ex (starts_with topic) [''$aws/certificates/'', ''$aws/provisioning-templates/'']
            then Inl MqttError.InvalidTopicName
            else if starts_with topic ''$aws/things/'' then
              (case nv_device_id v of
                 Some device_id \<Rightarrow>
                   if \<not> list_ex (starts_with topic)
                        [''$aws/things/'' @ device_id @ ''/shadow/update'',
                         ''$aws/things/'' @ device_id @ ''/shadow/delete'',
                         ''$aws/things/'' @ device_id @ ''/jobs/'']
                   then Inl MqttError.InvalidTopicName
                   else namespace_reserved_check v topic
               | None \<Rightarrow> Inl MqttError.InvalidTopicName)
            else namespace_reserved_check v topic)
         else
           let device_namespace_prefix = nv_service_prefix v @ ''/'' @ nv_device_namespace v @ ''/'' in
           (case nv_device_id v of
              Some device_id \<Rightarrow>
                let device_prefix = device_namespace_prefix @ device_id @ ''/'' in
                if starts_with topic device_prefix then Inr ()
                else if \<not> starts_with topic device_namespace_prefix then Inr ()
                else Inl MqttError.InvalidTopicName
            | None \<Rightarrow>
                if starts_with topic device_namespace_prefix then Inl MqttError.InvalidTopicName
                else namespace_reserved_check v topic))
      else namespace_reserved_check v topic)"

definition NamespaceValidator_validate_topic_name :: "NamespaceValidator \<Rightarrow> string \<Rightarrow> unit result" where
  "NamespaceValidator_validate_topic_name v topic =
     res_bind (validate_topic_name topic) (\<lambda>_.
       if nv_service_prefix v = ''$aws'' \<and> length topic > 256 then Inl MqttError.InvalidTopicName
       else NamespaceValidator_validate_namespace_restrictions v topic)"

definition NamespaceValidator_validate_topic_filter ::
  "NamespaceValidator \<Rightarrow> string \<Rightarrow> unit result" where
  "NamespaceValidator_validate_topic_filter v flt =
     res_bind (validate_topic_filter flt) (\<lambda>_.
       if nv_service_prefix v = ''$aws'' \<and> length flt > 256 then Inl MqttError.InvalidTopicFilter
       else if \<not> str_contains flt (CHR ''+'') \<and> \<not> str_contains flt (CHR ''#'')
       then res_bind (NamespaceValidator_validate_namespace_restrictions v flt) (\<lambda>_. Inr ())
       else Inr ())"

subsection \<open>What a filter means\<close>

text \<open>
  The matching rules of the protocol, level by level: a literal level matches itself, \<open>+\<close> one
  arbitrary level, and a final \<open>#\<close> any number of further levels including none. A topic whose
  first character is \<open>$\<close> is not matched by a filter whose first level is a wildcard.
\<close>

definition level_matches :: "string \<Rightarrow> string \<Rightarrow> bool" where
  "level_matches f t \<longleftrightarrow> f = ''+'' \<or> f = t"

definition filter_covers :: "string list \<Rightarrow> string list \<Rightarrow> bool" where
  "filter_covers fs ts \<longleftrightarrow>
     (if last fs = ''#''
      then length fs - 1 \<le> length ts \<and> list_all2 level_matches (butlast fs) (take (length fs - 1) ts)
      else list_all2 level_matches fs ts)"

definition topic_in_filter :: "string \<Rightarrow> string \<Rightarrow> bool" where
  "topic_in_filter topic flt \<longleftrightarrow>
     filter_covers (split_on (CHR ''/'') flt) (split_on (CHR ''/'') topic)
     \<and> \<not> (hd topic = CHR ''$'' \<and> hd (split_on (CHR ''/'') flt) \<in> {''+'', ''#''})"

lemma filter_parts_iff:
  "is_valid_filter_parts ps \<longleftrightarrow>
     (\<forall>p \<in> set ps. CHR ''+'' \<in> set p \<longrightarrow> p = ''+'')
     \<and> (\<forall>p \<in> set ps. CHR ''#'' \<in> set p \<longrightarrow> p = ''#'') \<and> ''#'' \<notin> set (butlast ps)"
  by (induction ps) (auto simp: str_contains_def)

lemma filter_parts_eq: "topic_filter_parts_ok ps = is_valid_filter_parts ps"
  by (induction ps) (auto simp: str_contains_def)

lemma is_valid_filter_eq: "is_valid_topic_filter flt = is_valid_filter flt"
  by (simp add: is_valid_topic_filter_def is_valid_filter_def filter_parts_eq
      limits_MAX_STRING_LENGTH_def)

lemma filter_covers_simps:
  "filter_covers [f] [] \<longleftrightarrow> f = ''#''"
  "filter_covers [f] (t # ts) \<longleftrightarrow> f = ''#'' \<or> level_matches f t \<and> ts = []"
  "fs \<noteq> [] \<Longrightarrow> filter_covers (f # fs) [] \<longleftrightarrow> False"
  "fs \<noteq> [] \<Longrightarrow> filter_covers (f # fs) (t # ts) \<longleftrightarrow> level_matches f t \<and> filter_covers fs ts"
  by (auto simp: filter_covers_def level_matches_def Suc_le_eq neq_Nil_conv)

lemma no_filter_left [simp]: "match_parts ts [] \<longleftrightarrow> ts = []" "topic_matches_loop ts [] \<longleftrightarrow> ts = []"
  by (cases ts; simp)+

lemma match_parts_covers:
  assumes "fs \<noteq> []" "''#'' \<notin> set (butlast fs)"
  shows "match_parts ts fs = filter_covers fs ts" "topic_matches_loop ts fs = filter_covers fs ts"
proof -
  show "match_parts ts fs = filter_covers fs ts"
    using assms
  proof (induction ts fs rule: match_parts.induct)
    case (2 ts f fs)
    then show ?case
      by (cases fs; cases ts) (auto simp: filter_covers_simps level_matches_def)
  qed simp_all
  show "topic_matches_loop ts fs = filter_covers fs ts"
    using assms
  proof (induction fs arbitrary: ts)
    case (Cons f fs)
    then show ?case
      by (cases fs; cases ts) (auto simp: filter_covers_simps level_matches_def)
  qed simp
qed

lemma split_on_hd: "s \<noteq> [] \<Longrightarrow> hd s \<noteq> c \<Longrightarrow> \<exists>p. hd (split_on c s) = hd s # p"
  by (cases s) (auto split: list.splits)

lemma starts_with_1: "starts_with s [c] \<longleftrightarrow> s \<noteq> [] \<and> hd s = c"
  by (cases s) (auto simp: starts_with_def)

lemma starts_with_wildcard:
  assumes "is_valid_filter flt" "c \<in> {CHR ''+'', CHR ''#''}"
  shows "starts_with flt [c] \<longleftrightarrow> hd (split_on (CHR ''/'') flt) = [c]"
proof
  have parts: "is_valid_filter_parts (split_on (CHR ''/'') flt)"
    using assms(1) by (auto simp: is_valid_filter_def split: if_splits)
  assume "starts_with flt [c]"
  then obtain p where p: "hd (split_on (CHR ''/'') flt) = c # p"
    using split_on_hd [of flt "CHR ''/''"] assms(2) by (auto simp: starts_with_1)
  have "c # p \<in> set (split_on (CHR ''/'') flt)"
    using p by (metis hd_in_set split_on_not_Nil)
  with parts assms(2) p show "hd (split_on (CHR ''/'') flt) = [c]"
    by (auto simp: filter_parts_iff)
next
  assume *: "hd (split_on (CHR ''/'') flt) = [c]"
  then show "starts_with flt [c]"
    using assms(2) by (cases flt) (auto simp: starts_with_1 split: if_splits list.splits)
qed

lemma split_on_hash: "flt \<noteq> ''#'' \<Longrightarrow> split_on (CHR ''/'') flt \<noteq> [''#'']"
  by (metis join_on.simps(2) join_split_on)

lemma filter_covers_self: "''#'' \<noteq> last ts \<Longrightarrow> filter_covers ts ts"
  by (simp add: filter_covers_def level_matches_def list_all2_refl)

lemma valid_topic_level:
  assumes "is_valid_topic topic" "p \<in> set (split_on (CHR ''/'') topic)"
  shows "p \<noteq> ''#''" "p \<noteq> ''+''"
  using assms set_split_on [of "CHR ''#''" "CHR ''/''" topic] set_split_on [of "CHR ''+''" "CHR ''/''" topic]
  by (auto simp: is_valid_topic_def str_contains_def)

lemma topic_in_hash: "topic \<noteq> [] \<Longrightarrow> topic_in_filter topic ''#'' \<longleftrightarrow> hd topic \<noteq> CHR ''$''"
  by (simp add: topic_in_filter_def filter_covers_def)

lemma topic_in_self:
  assumes "topic \<noteq> []" "is_valid_topic topic"
  shows "topic_in_filter topic topic"
proof -
  have "last (split_on (CHR ''/'') topic) \<noteq> ''#''" "hd (split_on (CHR ''/'') topic) \<notin> {''+'', ''#''}"
    using valid_topic_level [OF assms(2)] by (auto simp: last_in_set hd_in_set)
  then show ?thesis
    by (auto simp: topic_in_filter_def intro!: filter_covers_self)
qed

lemma matchers_agree:
  assumes "topic \<noteq> []" "is_valid_topic topic" "is_valid_filter flt"
  shows "matches topic flt = topic_in_filter topic flt"
    and "topic_matches_filter topic flt = topic_in_filter topic flt"
proof -
  have parts: "''#'' \<notin> set (butlast (split_on (CHR ''/'') flt))"
    using assms(3) by (auto simp: is_valid_filter_def filter_parts_iff split: if_splits)
  note eqs = match_parts_covers [OF split_on_not_Nil parts] starts_with_wildcard [OF assms(3)]
    starts_with_1 topic_in_hash
  show "topic_matches_filter topic flt = topic_in_filter topic flt"
    using assms eqs by (auto simp: topic_matches_filter_def topic_in_filter_def)
  show "matches topic flt = topic_in_filter topic flt"
    using assms eqs topic_in_self [OF assms(1,2)]
    by (auto simp: matches_def topic_in_filter_def)
qed

lemma split_on_append_sep: "split_on c (a @ c # b) = split_on c a @ split_on c b"
  by (induction a) (auto split: list.splits)

lemma split_on_single: "c \<notin> set p \<Longrightarrow> split_on c p = [p]"
  by (induction p) auto

lemma strip_prefix_Some: "strip_prefix p s = Some r \<longleftrightarrow> s = p @ r"
  by (auto simp: strip_prefix_def starts_with_def) (metis append_take_drop_id)

lemma starts_with_append: "starts_with s p \<longleftrightarrow> (\<exists>r. s = p @ r)"
  by (auto simp: starts_with_def) (metis append_take_drop_id)

lemma starts_with_trans: "starts_with s p \<Longrightarrow> starts_with p q \<Longrightarrow> starts_with s q"
  by (auto simp: starts_with_append)

lemma starts_with_prefixD: "starts_with s (p @ q) \<Longrightarrow> starts_with s p"
  by (auto simp: starts_with_append)

lemma aws_restrictions:
  assumes "nv_service_prefix v = ''$aws''" "NamespaceValidator_is_service_topic v topic"
    "starts_with topic ''$aws/things/''"
    "NamespaceValidator_validate_namespace_restrictions v topic = Inr ()"
  shows "\<exists>d. nv_device_id v = Some d \<and> starts_with topic (''$aws/things/'' @ d @ ''/'')"
proof -
  obtain d where d: "nv_device_id v = Some d"
    using assms by (cases "nv_device_id v")
      (simp_all add: NamespaceValidator_validate_namespace_restrictions_def split: if_splits)
  with assms have "list_ex (starts_with topic) [''$aws/things/'' @ d @ ''/shadow/update'',
      ''$aws/things/'' @ d @ ''/shadow/delete'', ''$aws/things/'' @ d @ ''/jobs/'']"
    by (simp add: NamespaceValidator_validate_namespace_restrictions_def split: if_splits)
  with d show ?thesis
    using starts_with_prefixD [of topic "''$aws/things/'' @ d @ ''/''" "''shadow/update''"]
      starts_with_prefixD [of topic "''$aws/things/'' @ d @ ''/''" "''shadow/delete''"]
      starts_with_prefixD [of topic "''$aws/things/'' @ d @ ''/''" "''jobs/''"]
    by auto
qed

lemma shared_parts:
  "Option.bind (strip_prefix ''$share/'' f) (split_once (CHR ''/'')) = Some (g, a) \<longleftrightarrow>
     f = ''$share/'' @ g @ ''/'' @ a \<and> CHR ''/'' \<notin> set g"
  by (auto simp: bind_eq_Some_conv strip_prefix_Some split_once_Some)

lemma shared_first_level: "hd (split_on (CHR ''/'') (''$share/'' @ r)) = ''$share''"
  using split_on_append_sep [of "CHR ''/''" "''$share''" r] by simp

subsection \<open>Properties of the component\<close>

text \<open>
  C2: topic matching. On a non-empty valid topic and a valid filter the recursive matcher
  \<open>matches\<close> and the index loop \<open>topic_matches_filter\<close>, which the broker uses, both decide the
  protocol's level-wise matching rules, \<open>$\<close> topics included; the two filter validators accept the
  same filters, and \<open>matches\<close> refuses everything invalid.
\<close>

theorem topic_matching_correct:
  assumes "is_valid_topic_name topic" and "is_valid_topic_filter flt"
  shows "matches topic flt = topic_in_filter topic flt
    \<and> topic_matches_filter topic flt = topic_in_filter topic flt
    \<and> (\<forall>f. is_valid_topic_filter f = is_valid_filter f)
    \<and> (\<forall>t f. matches t f = (is_valid_topic_name t \<and> is_valid_filter f \<and> topic_in_filter t f))"
proof -
  have name: "is_valid_topic_name t \<longleftrightarrow> t \<noteq> [] \<and> is_valid_topic t" for t
    by (auto simp: is_valid_topic_name_def is_valid_topic_def limits_MAX_STRING_LENGTH_def)
  have "matches t f \<longleftrightarrow> is_valid_topic_name t \<and> is_valid_filter f \<and> topic_in_filter t f" for t f
  proof (cases "is_valid_topic_name t \<and> is_valid_filter f")
    case False
    then show ?thesis by (auto simp: matches_def name)
  qed (simp add: matchers_agree name)
  then show ?thesis
    using assms by (simp add: matchers_agree name is_valid_filter_eq)
qed

theorem topic_matching_correct_witness:
  "topic_matches_filter ''a/b'' ''a/#'' \<and> topic_in_filter ''a/b'' ''a/#'' \<and> matches ''a/b'' ''a/#''"
proof -
  have "is_valid_topic_name ''a/b''" "is_valid_topic_filter ''a/#''"
    by (simp_all add: is_valid_topic_name_def is_valid_topic_filter_def str_contains_def
        limits_MAX_STRING_LENGTH_def)
  note topic_matching_correct [OF this]
  moreover have "topic_matches_filter ''a/b'' ''a/#''"
    by (simp add: topic_matches_filter_def starts_with_def)
  ultimately show ?thesis by blast
qed

text \<open>
  Shared subscriptions. Parsing a filter that passes \<open>is_valid_subscription_filter\<close> loses
  nothing: either it is not shared and is returned as it is, or it is reassembled from a share name
  without separators and wildcards and a topic filter that is itself valid.
\<close>

theorem shared_subscription_parse:
  assumes "is_valid_subscription_filter f"
  shows "case parse_shared_subscription f of
      (actual, None) \<Rightarrow> actual = f \<and> is_valid_topic_filter f
        \<and> hd (split_on (CHR ''/'') f) \<noteq> ''$share''
    | (actual, Some g) \<Rightarrow> f = ''$share/'' @ g @ ''/'' @ actual \<and> is_valid_topic_filter actual
        \<and> g \<noteq> [] \<and> set g \<inter> {CHR ''/'', CHR ''+'', CHR ''#''} = {}"
proof (cases "Option.bind (strip_prefix ''$share/'' f) (split_once (CHR ''/''))")
  case None
  then show ?thesis
    using assms by (auto simp: parse_shared_subscription_def is_valid_subscription_filter_def
        split: if_splits)
next
  case (Some ga)
  obtain g a where ga: "ga = (g, a)"
    by fastforce
  then have f: "f = ''$share/'' @ g @ ''/'' @ a" "CHR ''/'' \<notin> set g"
    using Some shared_parts by auto
  then have "hd (split_on (CHR ''/'') f) = ''$share''"
    using shared_first_level by simp
  then show ?thesis
    using assms Some ga f
    by (auto simp: parse_shared_subscription_def is_valid_subscription_filter_def str_contains_def
        split: if_splits)
qed

theorem shared_subscription_parse_witness:
  "parse_shared_subscription ''$share/g/a/+'' = (''a/+'', Some ''g'') \<and> is_valid_topic_filter ''a/+''"
proof -
  have "is_valid_subscription_filter ''$share/g/a/+''"
    by (simp add: is_valid_subscription_filter_def strip_prefix_def starts_with_def str_contains_def
        is_valid_topic_filter_def limits_MAX_STRING_LENGTH_def)
  moreover have "parse_shared_subscription ''$share/g/a/+'' = (''a/+'', Some ''g'')"
    by (simp add: parse_shared_subscription_def strip_prefix_def starts_with_def)
  ultimately show ?thesis
    using shared_subscription_parse [of "''$share/g/a/+''"] by simp
qed



text \<open>
  C40: reserved prefixes and device identifiers. Configuring a device identifier switches the check
  of the additional reserved prefixes off for service topics: a topic that
  \<open>validate_namespace_restrictions\<close> rejects because of a reserved prefix is accepted once a device
  identifier is set, as long as it is outside the device namespace.
\<close>

theorem reserved_prefix_bypassed:
  assumes "nv_service_prefix v \<noteq> ''$aws''" and "nv_device_id v = None"
    and "NamespaceValidator_is_service_topic v topic"
    and "\<not> NamespaceValidator_is_system_topic topic"
    and "\<not> starts_with topic (nv_service_prefix v @ ''/'' @ nv_device_namespace v @ ''/'')"
    and "prefix \<in> set (nv_additional_reserved_prefixes v)" and "starts_with topic prefix"
  shows "NamespaceValidator_validate_namespace_restrictions v topic = Inl MqttError.InvalidTopicName
    \<and> NamespaceValidator_validate_namespace_restrictions (v\<lparr>nv_device_id := Some d\<rparr>) topic = Inr ()"
proof
  show "NamespaceValidator_validate_namespace_restrictions v topic = Inl MqttError.InvalidTopicName"
    using assms by (auto simp: NamespaceValidator_validate_namespace_restrictions_def Let_def
        namespace_reserved_check_def list_ex_iff)
  show "NamespaceValidator_validate_namespace_restrictions (v\<lparr>nv_device_id := Some d\<rparr>) topic = Inr ()"
    using assms(1,3,4,5)
    by (auto simp: NamespaceValidator_validate_namespace_restrictions_def Let_def
        NamespaceValidator_is_service_topic_def starts_with_append)
qed

theorem reserved_prefix_bypassed_witness:
  "NamespaceValidator_validate_namespace_restrictions
     ((NamespaceValidator_new ''$az'' ''device'')\<lparr>nv_additional_reserved_prefixes := [''$az/ops/'']\<rparr>)
     ''$az/ops/x'' = Inl MqttError.InvalidTopicName
   \<and> NamespaceValidator_validate_namespace_restrictions
     ((NamespaceValidator_new ''$az'' ''device'')\<lparr>nv_additional_reserved_prefixes := [''$az/ops/''],
        nv_device_id := Some ''d''\<rparr>) ''$az/ops/x'' = Inr ()"
  using reserved_prefix_bypassed [of "(NamespaceValidator_new ''$az'' ''device'')
      \<lparr>nv_additional_reserved_prefixes := [''$az/ops/'']\<rparr>" "''$az/ops/x''" "''$az/ops/''" "''d''"]
  by (simp add: NamespaceValidator_new_def starts_with_def NamespaceValidator_is_system_topic_def
      NamespaceValidator_is_service_topic_def)

text \<open>
  Client identifiers as path components. A non-empty identifier that \<open>is_path_safe_client_id\<close>
  accepts, appended to a directory, names an entry of that very directory: it adds exactly one path
  component, which is neither \<open>.\<close> nor \<open>..\<close> and has no backslash or null byte.
\<close>

theorem client_id_path_safe:
  assumes "is_path_safe_client_id client_id" and "client_id \<noteq> []"
  shows "split_on (CHR ''/'') (dir @ ''/'' @ client_id) = split_on (CHR ''/'') dir @ [client_id]
    \<and> client_id \<notin> {''.'', ''..''} \<and> set client_id \<inter> {CHR 0x5C, CHR 0x00} = {}"
  using assms split_on_append_sep [of "CHR ''/''" dir client_id]
  by (auto simp: is_path_safe_client_id_def str_contains_def split_on_single split: if_splits)

theorem client_id_path_safe_witness:
  "split_on (CHR ''/'') (''s'' @ ''/'' @ ''a-1'') = [''s'', ''a-1'']"
  using client_id_path_safe [of "''a-1''" "''s''"]
  by (simp add: is_path_safe_client_id_def MAX_CLIENT_ID_LENGTH_def str_contains_def starts_with_def
      is_ascii_control_def)

end
