(* ===== verification/Fifo_Interface.thy ===== *)
theory Fifo_Interface
  imports Mqtt_Prelude "HOL-Library.Sublist"
begin

text \<open>
  What every message queue of the library promises its clients, whatever it drops on overflow or
  expiry: nothing is invented, duplicated or reordered. The operations take the clock reading of
  the call.
\<close>

datatype ('t, 'm) fifo_op = Put 't 'm | Take 't

fun fifo_inputs :: "('t, 'm) fifo_op list \<Rightarrow> 'm list" where
  "fifo_inputs [] = []"
| "fifo_inputs (Put t m # ops) = m # fifo_inputs ops"
| "fifo_inputs (Take t # ops) = fifo_inputs ops"

locale fifo_queue =
  fixes enq :: "'t \<Rightarrow> 'm \<Rightarrow> 'q \<Rightarrow> 'q"
    and deq :: "'t \<Rightarrow> 'q \<Rightarrow> 'm option \<times> 'q"
    and contents :: "'q \<Rightarrow> 'm list"
    and inv :: "'q \<Rightarrow> bool"
  assumes enq_inv: "inv q \<Longrightarrow> inv (enq t m q)"
    and deq_inv: "inv q \<Longrightarrow> deq t q = (r, q') \<Longrightarrow> inv q'"
    and enq_subseq: "inv q \<Longrightarrow> subseq (contents (enq t m q)) (contents q @ [m])"
    and deq_subseq: "inv q \<Longrightarrow> deq t q = (r, q') \<Longrightarrow>
      subseq (case r of None \<Rightarrow> contents q' | Some m \<Rightarrow> m # contents q') (contents q)"
begin

fun run :: "('t, 'm) fifo_op list \<Rightarrow> 'q \<Rightarrow> 'm list \<times> 'q" where
  "run [] q = ([], q)"
| "run (Put t m # ops) q = run ops (enq t m q)"
| "run (Take t # ops) q =
     (case deq t q of (r, q') \<Rightarrow>
        (case run ops q' of (outs, q'') \<Rightarrow>
           (case r of None \<Rightarrow> outs | Some m \<Rightarrow> m # outs, q'')))"

lemma run_subseq:
  "inv q \<Longrightarrow> run ops q = (outs, q') \<Longrightarrow>
     inv q' \<and> subseq (outs @ contents q') (contents q @ fifo_inputs ops)"
proof (induction ops q arbitrary: outs rule: run.induct)
  case (2 t m ops q)
  then have *: "inv q'" "subseq (outs @ contents q') (contents (enq t m q) @ fifo_inputs ops)"
    using enq_inv by auto
  note *(2)
  also have "subseq (contents (enq t m q) @ fifo_inputs ops) ((contents q @ [m]) @ fifo_inputs ops)"
    using "2.prems"(1) by (intro list_emb_append_mono enq_subseq subseq_order.refl)
  finally show ?case
    using *(1) by simp
next
  case (3 t ops q)
  obtain r q1 outs1 where r: "deq t q = (r, q1)" "run ops q1 = (outs1, q')"
    "outs = (case r of None \<Rightarrow> outs1 | Some m \<Rightarrow> m # outs1)"
    using "3.prems" by (auto split: prod.splits)
  have *: "inv q'" "subseq (outs1 @ contents q') (contents q1 @ fifo_inputs ops)"
    using "3.IH" r deq_inv [OF "3.prems"(1) r(1)] by auto
  then have "subseq (outs @ contents q')
      ((case r of None \<Rightarrow> contents q1 | Some m \<Rightarrow> m # contents q1) @ fifo_inputs ops)"
    using r(3) by (auto split: option.split)
  also have "subseq \<dots> (contents q @ fifo_inputs ops)"
    by (intro list_emb_append_mono deq_subseq [OF "3.prems"(1) r(1)] subseq_order.refl)
  finally show ?case
    using *(1) by simp
qed simp

end

end
