(* ===== verification/Session_Queue.thy ===== *)
theory Session_Queue
  imports Mqtt_Types Fifo_Interface
begin

text \<open>
  Packet size limits, message expiry and the bounded message queue of a session
  (\<open>session/limits.rs\<close>, \<open>session/queue.rs\<close>). Instants and durations are nanoseconds; every operation
  that reads the clock takes one reading \<open>now\<close>. A \<open>usize\<close> is a natural number, and the invariant
  shows that no subtraction underflows.
\<close>

subsection \<open>Limits\<close>

record LimitsConfig =
  lc_client_maximum_packet_size :: u32
  lc_server_maximum_packet_size :: "u32 option"
  lc_default_message_expiry :: "nat option"
  lc_max_message_expiry :: "nat option"

definition LimitsConfig_default :: LimitsConfig where
  "LimitsConfig_default =
     \<lparr>lc_client_maximum_packet_size = 268435456, lc_server_maximum_packet_size = None,
      lc_default_message_expiry = None,
      lc_max_message_expiry = Some (86400 * 7 * 10 ^ 9)\<rparr>"

definition LimitsManager_effective_maximum_packet_size :: "LimitsConfig \<Rightarrow> u32" where
  "LimitsManager_effective_maximum_packet_size cfg =
     (case lc_server_maximum_packet_size cfg of
        Some server_max \<Rightarrow>
          if server_max > 0 then server_max else lc_client_maximum_packet_size cfg
      | None \<Rightarrow> lc_client_maximum_packet_size cfg)"

definition LimitsManager_check_packet_size :: "LimitsConfig \<Rightarrow> nat \<Rightarrow> unit result" where
  "LimitsManager_check_packet_size cfg sz =
     (let max_size = LimitsManager_effective_maximum_packet_size cfg in
      if max_size > 0 \<and> sz > unat max_size
      then Inl (MqttError.PacketTooLarge sz (unat max_size)) else Inr ())"

definition LimitsManager_calculate_message_expiry ::
  "LimitsConfig \<Rightarrow> nat \<Rightarrow> u32 option \<Rightarrow> nat option" where
  "LimitsManager_calculate_message_expiry cfg now expiry_interval =
     Option.bind (case expiry_interval of
         Some seconds \<Rightarrow> Some (unat seconds * 10 ^ 9)
       | None \<Rightarrow> lc_default_message_expiry cfg) (\<lambda>interval.
       Some (now + (case lc_max_message_expiry cfg of
         Some mx \<Rightarrow> min interval mx | None \<Rightarrow> interval)))"

definition secs_saturating :: "nat \<Rightarrow> u32" where
  "secs_saturating d =
     (let s = d div 10 ^ 9 in if s < 2 ^ 32 then word_of_nat s else 0xFFFFFFFF)"

record ExpiringMessage =
  em_topic :: string
  em_payload :: bytes
  em_qos :: QoS
  em_retain :: bool
  em_packet_id :: "u16 option"
  em_expiry_time :: "nat option"
  em_expiry_interval :: "u32 option"

definition ExpiringMessage_new ::
  "LimitsConfig \<Rightarrow> nat \<Rightarrow> string \<Rightarrow> bytes \<Rightarrow> QoS \<Rightarrow> bool \<Rightarrow> u16 option \<Rightarrow> u32 option \<Rightarrow> ExpiringMessage" where
  "ExpiringMessage_new limits now topic payload qos retain packet_id expiry_interval =
     \<lparr>em_topic = topic, em_payload = payload, em_qos = qos, em_retain = retain,
      em_packet_id = packet_id,
      em_expiry_time = LimitsManager_calculate_message_expiry limits now expiry_interval,
      em_expiry_interval = expiry_interval\<rparr>"

definition ExpiringMessage_is_expired :: "nat \<Rightarrow> ExpiringMessage \<Rightarrow> bool" where
  "ExpiringMessage_is_expired now m =
     (case em_expiry_time m of Some expiry \<Rightarrow> now > expiry | None \<Rightarrow> False)"

subsection \<open>The message queue\<close>

record QueueResult =
  qr_was_queued :: bool
  qr_messages_dropped :: nat
  qr_current_size :: nat
  qr_message_count :: nat

record QueuedMessageInternal =
  qi_message :: ExpiringMessage
  qi_queued_at :: nat
  qi_size :: nat

record MessageQueue =
  mq_queue :: "QueuedMessageInternal list"
  mq_max_messages :: nat
  mq_max_size :: nat
  mq_current_size :: nat

definition MessageQueue_new :: "nat \<Rightarrow> nat \<Rightarrow> MessageQueue" where
  "MessageQueue_new max_messages max_size =
     \<lparr>mq_queue = [], mq_max_messages = max_messages, mq_max_size = max_size, mq_current_size = 0\<rparr>"

text \<open>The \<open>while\<close> loop of \<open>enqueue\<close>; the last component counts the dropped messages.\<close>

fun enqueue_make_room ::
  "nat \<Rightarrow> nat \<Rightarrow> nat \<Rightarrow> QueuedMessageInternal list \<Rightarrow> nat \<Rightarrow> nat \<Rightarrow> QueuedMessageInternal list \<times> nat \<times> nat" where
  "enqueue_make_room max_messages max_size sz [] current_size dropped = ([], current_size, dropped)"
| "enqueue_make_room max_messages max_size sz (removed # queue) current_size dropped =
     (if Suc (length queue) \<ge> max_messages \<or> current_size + sz > max_size
      then enqueue_make_room max_messages max_size sz queue (current_size - qi_size removed)
             (dropped + 1)
      else (removed # queue, current_size, dropped))"

definition MessageQueue_enqueue ::
  "nat \<Rightarrow> MessageQueue \<Rightarrow> ExpiringMessage \<Rightarrow> (QueueResult \<times> MessageQueue) result" where
  "MessageQueue_enqueue now q message =
     (let sz = length (em_topic message) + length (em_payload message) in
      if sz > mq_max_size q then Inl MqttError.MessageTooLarge
      else if ExpiringMessage_is_expired now message
      then Inr (\<lparr>qr_was_queued = False, qr_messages_dropped = 0,
                 qr_current_size = mq_current_size q, qr_message_count = length (mq_queue q)\<rparr>, q)
      else
        let (queue, current_size, messages_dropped) =
              enqueue_make_room (mq_max_messages q) (mq_max_size q) sz (mq_queue q)
                (mq_current_size q) 0;
            internal = \<lparr>qi_message = message, qi_queued_at = now, qi_size = sz\<rparr>;
            q' = q\<lparr>mq_queue := queue @ [internal], mq_current_size := current_size + sz\<rparr>
        in Inr (\<lparr>qr_was_queued = True, qr_messages_dropped = messages_dropped,
                 qr_current_size = mq_current_size q', qr_message_count = length (mq_queue q')\<rparr>, q'))"

fun dequeue_skip_expired ::
  "nat \<Rightarrow> QueuedMessageInternal list \<Rightarrow> nat \<Rightarrow> QueuedMessageInternal list \<times> nat" where
  "dequeue_skip_expired now [] current_size = ([], current_size)"
| "dequeue_skip_expired now (internal # queue) current_size =
     (if ExpiringMessage_is_expired now (qi_message internal)
      then dequeue_skip_expired now queue (current_size - qi_size internal)
      else (internal # queue, current_size))"

definition MessageQueue_dequeue :: "nat \<Rightarrow> MessageQueue \<Rightarrow> ExpiringMessage option \<times> MessageQueue" where
  "MessageQueue_dequeue now q =
     (case dequeue_skip_expired now (mq_queue q) (mq_current_size q) of
        ([], current_size) \<Rightarrow> (None, q\<lparr>mq_queue := [], mq_current_size := current_size\<rparr>)
      | (internal # queue, current_size) \<Rightarrow>
          (Some (qi_message internal),
           q\<lparr>mq_queue := queue, mq_current_size := current_size - qi_size internal\<rparr>))"

fun MessageQueue_dequeue_batch ::
  "nat \<Rightarrow> MessageQueue \<Rightarrow> nat \<Rightarrow> ExpiringMessage list \<times> MessageQueue" where
  "MessageQueue_dequeue_batch now q 0 = ([], q)"
| "MessageQueue_dequeue_batch now q (Suc limit) =
     (case MessageQueue_dequeue now q of
        (Some message, q) \<Rightarrow>
          (case MessageQueue_dequeue_batch now q limit of (ms, q) \<Rightarrow> (message # ms, q))
      | (None, q) \<Rightarrow> ([], q))"

definition MessageQueue_clear :: "MessageQueue \<Rightarrow> MessageQueue" where
  "MessageQueue_clear q = q\<lparr>mq_queue := [], mq_current_size := 0\<rparr>"

text \<open>\<open>retain\<close> visits the entries from front to back and updates the size on the way.\<close>

fun remove_expired_retain ::
  "nat \<Rightarrow> nat \<Rightarrow> QueuedMessageInternal list \<Rightarrow> nat \<Rightarrow> QueuedMessageInternal list \<times> nat" where
  "remove_expired_retain now queue_timeout [] current_size = ([], current_size)"
| "remove_expired_retain now queue_timeout (internal # queue) current_size =
     (if \<not> ExpiringMessage_is_expired now (qi_message internal)
         \<and> now - qi_queued_at internal \<le> queue_timeout
      then (case remove_expired_retain now queue_timeout queue current_size of
              (queue, current_size) \<Rightarrow> (internal # queue, current_size))
      else remove_expired_retain now queue_timeout queue (current_size - qi_size internal))"

definition MessageQueue_remove_expired :: "nat \<Rightarrow> MessageQueue \<Rightarrow> nat \<Rightarrow> MessageQueue" where
  "MessageQueue_remove_expired now q queue_timeout =
     (case remove_expired_retain now queue_timeout (mq_queue q) (mq_current_size q) of
        (queue, current_size) \<Rightarrow> q\<lparr>mq_queue := queue, mq_current_size := current_size\<rparr>)"

subsection \<open>Invariant\<close>

definition entries_size :: "QueuedMessageInternal list \<Rightarrow> nat" where
  "entries_size q = sum_list (map qi_size q)"

definition queue_ok :: "MessageQueue \<Rightarrow> bool" where
  "queue_ok q \<longleftrightarrow>
     mq_current_size q = entries_size (mq_queue q)
     \<and> list_all (\<lambda>i. qi_size i = length (em_topic (qi_message i)) + length (em_payload (qi_message i)))
         (mq_queue q)
     \<and> mq_current_size q \<le> mq_max_size q \<and> length (mq_queue q) \<le> max 1 (mq_max_messages q)"

definition messages :: "MessageQueue \<Rightarrow> ExpiringMessage list" where
  "messages q = map qi_message (mq_queue q)"

lemma entries_size_simps [simp]:
  "entries_size [] = 0" "entries_size (i # q) = qi_size i + entries_size q"
  "entries_size (q @ r) = entries_size q + entries_size r"
  by (simp_all add: entries_size_def)

lemma entries_size_drop: "entries_size (drop n q) \<le> entries_size q"
  by (metis append_take_drop_id entries_size_simps(3) le_add2)

lemma entries_size_filter: "entries_size (filter P q) \<le> entries_size q"
  by (induction q) auto

definition fits :: "nat \<Rightarrow> nat \<Rightarrow> nat \<Rightarrow> QueuedMessageInternal list \<Rightarrow> bool" where
  "fits max_messages max_size sz q \<longleftrightarrow> length q < max_messages \<and> entries_size q + sz \<le> max_size"

lemma enqueue_make_room_eq:
  "enqueue_make_room mm ms sz q (entries_size q) d = (q', cur, d') \<Longrightarrow>
     (\<exists>k \<le> length q. q' = drop k q \<and> cur = entries_size q' \<and> d' = d + k
       \<and> (\<forall>j < k. \<not> fits mm ms sz (drop j q)) \<and> (q' = [] \<or> fits mm ms sz q'))"
proof (induction q arbitrary: d)
  case (Cons i q)
  show ?case
  proof (cases "fits mm ms sz (i # q)")
    case True
    then show ?thesis
      using Cons.prems by (intro exI [of _ 0]) (auto simp: fits_def split: if_splits)
  next
    case False
    then obtain k where k: "k \<le> length q" "q' = drop k q" "cur = entries_size q'" "d' = Suc d + k"
      "\<forall>j < k. \<not> fits mm ms sz (drop j q)" "q' = [] \<or> fits mm ms sz q'"
      using Cons.prems Cons.IH [of "d + 1"] by (auto simp: fits_def not_less split: if_splits)
    moreover have "\<not> fits mm ms sz (drop j (i # q))" if "j < Suc k" for j
      using that False k(5) by (cases j) auto
    ultimately show ?thesis
      by (intro exI [of _ "Suc k"]) auto
  qed
qed auto

lemma dequeue_skip_expired_eq:
  "dequeue_skip_expired now q (entries_size q) =
     (let q' = dropWhile (\<lambda>i. ExpiringMessage_is_expired now (qi_message i)) q in (q', entries_size q'))"
  by (induction q) (simp_all add: Let_def)

lemma remove_expired_retain_eq:
  "remove_expired_retain now t q (n + entries_size q) =
     (let q' = filter (\<lambda>i. \<not> ExpiringMessage_is_expired now (qi_message i)
                 \<and> now - qi_queued_at i \<le> t) q
      in (q', n + entries_size q'))"
proof (induction q arbitrary: n)
  case (Cons i q)
  have "n + entries_size (i # q) = (n + qi_size i) + entries_size q"
    "n + entries_size (i # q) - qi_size i = n + entries_size q"
    by simp_all
  with Cons.IH [of n] Cons.IH [of "n + qi_size i"] show ?case
    by (simp add: Let_def add.assoc)
qed simp

lemma queue_ok_new [simp]: "queue_ok (MessageQueue_new m s)"
  by (simp add: queue_ok_def MessageQueue_new_def)

lemma queue_ok_sublist:
  assumes "queue_ok q" "set r \<subseteq> set (mq_queue q)" "length r \<le> length (mq_queue q)"
    "entries_size r \<le> entries_size (mq_queue q)"
  shows "queue_ok (q\<lparr>mq_queue := r, mq_current_size := entries_size r\<rparr>)"
  using assms by (fastforce simp: queue_ok_def list_all_iff)

lemma enqueue_Inr:
  assumes "queue_ok q" "MessageQueue_enqueue now q m = Inr (r, q')"
  shows "queue_ok q'"
    and "qr_current_size r = mq_current_size q'" "qr_message_count r = length (mq_queue q')"
    and "qr_was_queued r \<longleftrightarrow> \<not> ExpiringMessage_is_expired now m"
    and "\<not> qr_was_queued r \<Longrightarrow> q' = q"
    and "qr_was_queued r \<Longrightarrow> qr_messages_dropped r \<le> length (mq_queue q)
      \<and> messages q' = drop (qr_messages_dropped r) (messages q) @ [m]
      \<and> (\<forall>j < qr_messages_dropped r. \<not> fits (mq_max_messages q) (mq_max_size q)
           (length (em_topic m) + length (em_payload m)) (drop j (mq_queue q)))"
proof -
  let ?sz = "length (em_topic m) + length (em_payload m)"
  obtain q1 cur d where room: "enqueue_make_room (mq_max_messages q) (mq_max_size q) ?sz (mq_queue q)
      (mq_current_size q) 0 = (q1, cur, d)"
    by (cases "enqueue_make_room (mq_max_messages q) (mq_max_size q) ?sz (mq_queue q)
      (mq_current_size q) 0") auto
  have cur: "mq_current_size q = entries_size (mq_queue q)"
    using assms(1) by (simp add: queue_ok_def)
  obtain k where k: "k \<le> length (mq_queue q)" "q1 = drop k (mq_queue q)" "cur = entries_size q1" "d = 0 + k"
    "\<forall>j < k. \<not> fits (mq_max_messages q) (mq_max_size q) ?sz (drop j (mq_queue q))"
    "q1 = [] \<or> fits (mq_max_messages q) (mq_max_size q) ?sz q1"
    using enqueue_make_room_eq [OF room [unfolded cur]] by blast
  note eq = assms(2) [unfolded MessageQueue_enqueue_def Let_def room prod.case]
  have "?sz \<le> mq_max_size q"
    using eq by (auto split: if_splits)
  moreover have "list_all (\<lambda>i. qi_size i = length (em_topic (qi_message i)) + length (em_payload (qi_message i)))
      q1"
    using assms(1) by (auto simp: queue_ok_def list_all_iff k(2) dest: in_set_dropD)
  ultimately show "queue_ok q'"
    using eq assms(1) k(3,6)
    by (auto simp: queue_ok_def list_all_iff fits_def split: if_splits)
  show "qr_current_size r = mq_current_size q'" "qr_message_count r = length (mq_queue q')"
    "qr_was_queued r \<longleftrightarrow> \<not> ExpiringMessage_is_expired now m" "\<not> qr_was_queued r \<Longrightarrow> q' = q"
    using eq by (auto split: if_splits)
  show "qr_messages_dropped r \<le> length (mq_queue q)
      \<and> messages q' = drop (qr_messages_dropped r) (messages q) @ [m]
      \<and> (\<forall>j < qr_messages_dropped r. \<not> fits (mq_max_messages q) (mq_max_size q) ?sz (drop j (mq_queue q)))"
    if "qr_was_queued r"
    using eq that k(1,2,4,5) by (auto simp: messages_def drop_map split: if_splits)
qed

lemma dequeue_eq:
  assumes "queue_ok q"
  shows "MessageQueue_dequeue now q =
    (case dropWhile (\<lambda>i. ExpiringMessage_is_expired now (qi_message i)) (mq_queue q) of
       [] \<Rightarrow> (None, q\<lparr>mq_queue := [], mq_current_size := 0\<rparr>)
     | i # r \<Rightarrow> (Some (qi_message i), q\<lparr>mq_queue := r, mq_current_size := entries_size r\<rparr>))"
  using assms dequeue_skip_expired_eq [of now "mq_queue q"]
  by (cases "dropWhile (\<lambda>i. ExpiringMessage_is_expired now (qi_message i)) (mq_queue q)")
    (simp_all add: MessageQueue_dequeue_def queue_ok_def Let_def del: dropWhile_eq_Nil_conv)

lemma dropWhile_split: "dropWhile P xs = ys \<Longrightarrow> \<exists>zs. xs = zs @ ys \<and> (\<forall>z \<in> set zs. P z)"
  by (metis set_takeWhileD takeWhile_dropWhile_id)

lemma dequeue_ok:
  assumes "queue_ok q" "MessageQueue_dequeue now q = (r, q')"
  shows "queue_ok q'"
    and "\<exists>skipped. list_all (ExpiringMessage_is_expired now) skipped
      \<and> messages q = skipped @ (case r of None \<Rightarrow> [] | Some m \<Rightarrow> [m]) @ messages q'
      \<and> (case r of None \<Rightarrow> messages q' = [] | Some m \<Rightarrow> \<not> ExpiringMessage_is_expired now m)"
proof -
  let ?P = "\<lambda>i. ExpiringMessage_is_expired now (qi_message i)"
  obtain zs ys where zs: "dropWhile ?P (mq_queue q) = ys" "mq_queue q = zs @ ys" "\<forall>z \<in> set zs. ?P z"
    using dropWhile_split by metis
  note eq = assms(2) [unfolded dequeue_eq [OF assms(1)] zs(1)]
  have "queue_ok q' \<and> (\<exists>skipped. list_all (ExpiringMessage_is_expired now) skipped
      \<and> messages q = skipped @ (case r of None \<Rightarrow> [] | Some m \<Rightarrow> [m]) @ messages q'
      \<and> (case r of None \<Rightarrow> messages q' = [] | Some m \<Rightarrow> \<not> ExpiringMessage_is_expired now m))"
  proof (cases ys)
    case Nil
    then show ?thesis
      using eq zs(2,3) queue_ok_sublist [OF assms(1), of "[]"]
      by (auto simp: messages_def list_all_iff)
  next
    case (Cons i rest)
    have "\<not> ?P i"
      using hd_dropWhile [of ?P "mq_queue q"] zs(1) Cons by simp
    moreover have "queue_ok (q\<lparr>mq_queue := rest, mq_current_size := entries_size rest\<rparr>)"
      by (rule queue_ok_sublist [OF assms(1)]) (auto simp: zs(2) Cons)
    ultimately show ?thesis
      using eq zs(2,3) Cons
      by (intro conjI exI [of _ "map qi_message zs"]) (auto simp: messages_def list_all_iff)
  qed
  then show "queue_ok q'"
    and "\<exists>skipped. list_all (ExpiringMessage_is_expired now) skipped
      \<and> messages q = skipped @ (case r of None \<Rightarrow> [] | Some m \<Rightarrow> [m]) @ messages q'
      \<and> (case r of None \<Rightarrow> messages q' = [] | Some m \<Rightarrow> \<not> ExpiringMessage_is_expired now m)"
    by blast+
qed

lemma dequeue_batch_ok:
  "queue_ok q \<Longrightarrow> MessageQueue_dequeue_batch now q n = (ms, q') \<Longrightarrow>
     queue_ok q' \<and> length ms \<le> n \<and> list_all (\<lambda>m. \<not> ExpiringMessage_is_expired now m) ms"
proof (induction n arbitrary: q ms)
  case (Suc n)
  obtain r q1 where r: "MessageQueue_dequeue now q = (r, q1)"
    by fastforce
  note ok = dequeue_ok [OF Suc.prems(1) r]
  show ?case
    using Suc r ok by (cases r) (auto split: prod.splits)
qed simp

lemma remove_expired_ok: "queue_ok q \<Longrightarrow> queue_ok (MessageQueue_remove_expired now q t)"
proof -
  let ?r = "filter (\<lambda>i. \<not> ExpiringMessage_is_expired now (qi_message i)
                 \<and> now - qi_queued_at i \<le> t) (mq_queue q)"
  assume ok: "queue_ok q"
  have "entries_size ?r \<le> entries_size (mq_queue q)"
    by (rule entries_size_filter)
  then have "queue_ok (q\<lparr>mq_queue := ?r, mq_current_size := entries_size ?r\<rparr>)"
    using ok by (intro queue_ok_sublist) auto
  moreover have "mq_current_size q = entries_size (mq_queue q)"
    using ok by (simp add: queue_ok_def)
  ultimately show ?thesis
    using remove_expired_retain_eq [of now t "mq_queue q" 0]
    by (simp add: MessageQueue_remove_expired_def Let_def)
qed

subsection \<open>The queue as a FIFO\<close>

definition queue_put :: "nat \<Rightarrow> ExpiringMessage \<Rightarrow> MessageQueue \<Rightarrow> MessageQueue" where
  "queue_put now m q = (case MessageQueue_enqueue now q m of Inr (_, q') \<Rightarrow> q' | Inl _ \<Rightarrow> q)"

interpretation session_fifo: fifo_queue queue_put MessageQueue_dequeue messages queue_ok
proof
  fix q :: MessageQueue and t m
  assume ok: "queue_ok q"
  show "queue_ok (queue_put t m q)"
    using ok enqueue_Inr(1) [OF ok] by (auto simp: queue_put_def split: sum.split)
  show "subseq (messages (queue_put t m q)) (messages q @ [m])"
  proof (cases "MessageQueue_enqueue t q m")
    case (Inr rq)
    obtain r q' where rq: "rq = (r, q')"
      by fastforce
    note e = enqueue_Inr [OF ok Inr [unfolded rq]]
    show ?thesis
    proof (cases "qr_was_queued r")
      case True
      have "subseq (drop (qr_messages_dropped r) (messages q)) (messages q)"
        by (rule suffix_imp_subseq) (rule suffix_drop)
      then show ?thesis
        using e(6) [OF True] Inr rq by (simp add: queue_put_def list_emb_append_mono)
    qed (use e(5) Inr rq in \<open>simp add: queue_put_def prefix_imp_subseq\<close>)
  qed (simp add: queue_put_def prefix_imp_subseq)
next
  fix q q' :: MessageQueue and t r
  assume *: "queue_ok q" "MessageQueue_dequeue t q = (r, q')"
  show "queue_ok q'"
    by (rule dequeue_ok(1) [OF *])
  show "subseq (case r of None \<Rightarrow> messages q' | Some m \<Rightarrow> m # messages q') (messages q)"
    using dequeue_ok(2) [OF *] by (auto intro: list_emb_append2 split: option.splits)
qed

subsection \<open>Sequences of calls\<close>

datatype queue_call =
    Enqueue ExpiringMessage
  | Dequeue
  | DequeueBatch nat
  | Clear
  | RemoveExpired nat

fun queue_step :: "nat \<Rightarrow> queue_call \<Rightarrow> MessageQueue \<Rightarrow> MessageQueue" where
  "queue_step now (Enqueue m) q = queue_put now m q"
| "queue_step now Dequeue q = snd (MessageQueue_dequeue now q)"
| "queue_step now (DequeueBatch n) q = snd (MessageQueue_dequeue_batch now q n)"
| "queue_step now Clear q = MessageQueue_clear q"
| "queue_step now (RemoveExpired t) q = MessageQueue_remove_expired now q t"

lemma queue_step_ok:
  assumes "queue_ok q"
  shows "queue_ok (queue_step now c q)"
proof (cases c)
  case (Enqueue m)
  then show ?thesis by (simp add: session_fifo.enq_inv assms)
next
  case Dequeue
  then show ?thesis
    using session_fifo.deq_inv [OF assms prod.collapse [symmetric]] by simp
next
  case (DequeueBatch n)
  then show ?thesis
    using dequeue_batch_ok [OF assms prod.collapse [symmetric]] by simp
next
  case Clear
  then show ?thesis
    using queue_ok_sublist [OF assms, of "[]"] by (simp add: MessageQueue_clear_def)
next
  case (RemoveExpired t)
  then show ?thesis by (simp add: remove_expired_ok assms)
qed

lemma queue_step_limits:
  "mq_max_size (queue_step now c q) = mq_max_size q
   \<and> mq_max_messages (queue_step now c q) = mq_max_messages q"
proof -
  have deq: "mq_max_size (snd (MessageQueue_dequeue now q)) = mq_max_size q
      \<and> mq_max_messages (snd (MessageQueue_dequeue now q)) = mq_max_messages q" for q
    by (auto simp: MessageQueue_dequeue_def split: list.split prod.split)
  have "mq_max_size (snd (MessageQueue_dequeue_batch now q n)) = mq_max_size q
      \<and> mq_max_messages (snd (MessageQueue_dequeue_batch now q n)) = mq_max_messages q" for n
  proof (induction n arbitrary: q)
    case (Suc n)
    show ?case
      using Suc.IH [of "snd (MessageQueue_dequeue now q)"] deq [of q]
      by (auto split: prod.split option.split)
  qed simp
  moreover have "mq_max_size (queue_put now m q) = mq_max_size q
      \<and> mq_max_messages (queue_put now m q) = mq_max_messages q" for m
    by (simp add: queue_put_def MessageQueue_enqueue_def Let_def split: prod.split)
  ultimately show ?thesis
    using deq [of q]
    by (cases c) (simp_all add: MessageQueue_clear_def MessageQueue_remove_expired_def split: prod.split)
qed

fun queue_run :: "(nat \<times> queue_call) list \<Rightarrow> MessageQueue \<Rightarrow> MessageQueue" where
  "queue_run [] q = q"
| "queue_run ((now, c) # calls) q = queue_run calls (queue_step now c q)"

lemma queue_run_ok:
  "queue_ok q \<Longrightarrow> queue_ok (queue_run calls q) \<and> mq_max_size (queue_run calls q) = mq_max_size q
     \<and> mq_max_messages (queue_run calls q) = mq_max_messages q"
  by (induction calls q rule: queue_run.induct) (simp_all add: queue_step_ok queue_step_limits)

subsection \<open>Properties of the component\<close>

text \<open>
  C16: accounting and bounds of the session queue. After any sequence of calls on a new queue, at
  any clock readings, the recorded size is the sum of the sizes of the queued messages and within
  the configured maximum, and the number of messages is within its maximum (one, if zero is
  configured); no size subtraction of any call underflows.
\<close>

theorem queue_accounting:
  "let q = queue_run calls (MessageQueue_new max_messages max_size) in
   mq_current_size q = sum_list (map (\<lambda>m. length (em_topic m) + length (em_payload m)) (messages q))
   \<and> mq_current_size q \<le> max_size \<and> length (mq_queue q) \<le> max 1 max_messages"
proof -
  let ?q = "queue_run calls (MessageQueue_new max_messages max_size)"
  have "queue_ok ?q" "mq_max_size ?q = max_size" "mq_max_messages ?q = max_messages"
    using queue_run_ok [OF queue_ok_new] by (simp_all add: MessageQueue_new_def)
  moreover have "map qi_size (mq_queue ?q)
      = map (\<lambda>m. length (em_topic m) + length (em_payload m)) (messages ?q)"
    using \<open>queue_ok ?q\<close> by (simp add: queue_ok_def list_all_iff messages_def)
  ultimately show ?thesis
    by (simp add: Let_def queue_ok_def entries_size_def)
qed

text \<open>
  C25: first in, first out. In any interleaving of enqueues and dequeues on a consistent queue the
  messages handed out, followed by those still queued, are a subsequence of the messages present at
  the start followed by those enqueued: nothing is reordered, duplicated or invented.
\<close>

theorem queue_fifo:
  assumes "queue_ok q" and "session_fifo.run ops q = (outs, q')"
  shows "subseq (outs @ messages q') (messages q @ fifo_inputs ops)"
  using session_fifo.run_subseq [OF assms] by blast

theorem queue_fifo_witness:
  "let m = ExpiringMessage_new LimitsConfig_default 0 ''a'' [1] AtMostOnce False None None;
       n = ExpiringMessage_new LimitsConfig_default 0 ''b'' [2] AtMostOnce False None None in
   session_fifo.run [Put 0 m, Put 1 n, Take 2] (MessageQueue_new 1 10) = ([n], MessageQueue_new 1 10)
   \<and> subseq [n] [m, n]"
proof -
  define m where "m = ExpiringMessage_new LimitsConfig_default 0 ''a'' [1] AtMostOnce False None None"
  define n where "n = ExpiringMessage_new LimitsConfig_default 0 ''b'' [2] AtMostOnce False None None"
  have "session_fifo.run [Put 0 m, Put 1 n, Take 2] (MessageQueue_new 1 10) = ([n], MessageQueue_new 1 10)"
    by (simp add: m_def n_def queue_put_def MessageQueue_enqueue_def MessageQueue_new_def
        ExpiringMessage_new_def LimitsManager_calculate_message_expiry_def LimitsConfig_default_def
        ExpiringMessage_is_expired_def MessageQueue_dequeue_def)
  with queue_fifo [OF queue_ok_new this] show ?thesis
    by (simp add: m_def n_def messages_def MessageQueue_new_def)
qed

text \<open>
  What an enqueue drops. A successful enqueue of a message that has not expired appends it and
  drops from the front exactly as many of the oldest messages as needed: with one fewer dropped the
  new message would not fit the limits.
\<close>

theorem enqueue_drops_minimal:
  assumes "queue_ok q" and "MessageQueue_enqueue now q m = Inr (r, q')"
    and "\<not> ExpiringMessage_is_expired now m"
  shows "messages q' = drop (qr_messages_dropped r) (messages q) @ [m]
    \<and> (\<forall>j < qr_messages_dropped r. \<not> fits (mq_max_messages q) (mq_max_size q)
         (length (em_topic m) + length (em_payload m)) (drop j (mq_queue q)))
    \<and> qr_current_size r = mq_current_size q' \<and> qr_message_count r = length (mq_queue q')"
  using enqueue_Inr [OF assms(1,2)] assms(3) by simp

theorem enqueue_drops_minimal_witness:
  "let m = ExpiringMessage_new LimitsConfig_default 0 ''a'' [1] AtMostOnce False None None in
   case MessageQueue_enqueue 0 (MessageQueue_new 1 10) m of
     Inr (r, q') \<Rightarrow> messages q' = [m] | Inl _ \<Rightarrow> False"
proof -
  define m where "m = ExpiringMessage_new LimitsConfig_default 0 ''a'' [1] AtMostOnce False None None"
  obtain r q' where "MessageQueue_enqueue 0 (MessageQueue_new 1 10) m = Inr (r, q')"
    "\<not> ExpiringMessage_is_expired 0 m"
    by (simp add: m_def MessageQueue_enqueue_def MessageQueue_new_def
        ExpiringMessage_new_def LimitsManager_calculate_message_expiry_def LimitsConfig_default_def
        ExpiringMessage_is_expired_def)
  with enqueue_drops_minimal [OF queue_ok_new this] show ?thesis
    by (simp add: m_def [symmetric] messages_def MessageQueue_new_def)
qed

end
