(* ===== verification/Cyclic_Ids.thy ===== *)
theory Cyclic_Ids
  imports Mqtt_Prelude
begin

text \<open>
  Sixteen-bit identifiers that run through \<open>1, ..., m\<close> and start over, as the packet identifier
  generator and the topic alias table use them: the successor, and that iterating it from anywhere
  visits every identifier within \<open>m\<close> steps.
\<close>

definition cyc_next :: "u16 \<Rightarrow> u16 \<Rightarrow> u16" where
  "cyc_next m a = (if a \<ge> m then 1 else a + 1)"

definition cyc_ids :: "u16 \<Rightarrow> u16 set" where
  "cyc_ids m = {a. 1 \<le> a \<and> a \<le> m}"

lemma cyc_ids_iff: "a \<in> cyc_ids m \<longleftrightarrow> 1 \<le> unat a \<and> unat a \<le> unat m"
  by (simp add: cyc_ids_def word_le_nat_alt)

lemma cyc_ids_nonzero: "a \<in> cyc_ids m \<longleftrightarrow> a \<noteq> 0 \<and> a \<le> m"
  by (auto simp: cyc_ids_iff word_le_nat_alt Suc_le_eq unat_gt_0)

lemma card_cyc_ids: "card (cyc_ids m) = unat m"
proof -
  have "bij_betw unat (cyc_ids m) {1..unat m}"
  proof (rule bij_betwI')
    show "\<exists>a \<in> cyc_ids m. n = unat a" if "n \<in> {1..unat m}" for n
      using that unat_u16_of_nat [of n] unat_u16_le [of m]
      by (intro bexI [of _ "word_of_nat n"]) (auto simp: cyc_ids_iff)
  qed (auto simp: cyc_ids_iff word_unat_eq_iff)
  then show ?thesis
    using bij_betw_same_card by fastforce
qed

lemma unat_cyc_next:
  assumes "a \<in> cyc_ids m"
  shows "unat (cyc_next m a) = unat a mod unat m + 1"
  using assms unat_u16_le [of m]
  by (auto simp: cyc_next_def cyc_ids_iff word_le_nat_alt unat_word_ariths)

lemma cyc_next_in: "a \<in> cyc_ids m \<Longrightarrow> cyc_next m a \<in> cyc_ids m"
  using unat_cyc_next [of a m] mod_less_divisor [of "unat m" "unat a"]
  by (simp add: cyc_ids_iff Suc_le_eq)

lemma cyc_iterate:
  assumes "a \<in> cyc_ids m"
  shows "(cyc_next m ^^ k) a \<in> cyc_ids m"
    and "unat ((cyc_next m ^^ k) a) = (unat a - 1 + k) mod unat m + 1"
proof -
  have "(cyc_next m ^^ k) a \<in> cyc_ids m
    \<and> unat ((cyc_next m ^^ k) a) = (unat a - 1 + k) mod unat m + 1"
  proof (induction k)
    case 0
    then show ?case
      using assms by (auto simp: cyc_ids_iff)
  next
    case (Suc k)
    then show ?case
      using cyc_next_in unat_cyc_next by (simp add: mod_Suc_eq)
  qed
  then show "(cyc_next m ^^ k) a \<in> cyc_ids m"
    and "unat ((cyc_next m ^^ k) a) = (unat a - 1 + k) mod unat m + 1"
    by simp_all
qed

lemma cyc_reaches:
  assumes "a \<in> cyc_ids m" "f \<in> cyc_ids m"
  shows "\<exists>k < unat m. (cyc_next m ^^ k) a = f"
proof -
  define k where "k = (unat m + unat f - unat a) mod unat m"
  have "unat a - 1 + (unat m + unat f - unat a) = unat m + (unat f - 1)" "unat f - 1 < unat m"
    using assms by (auto simp: cyc_ids_iff)
  then have "(unat a - 1 + k) mod unat m = unat f - 1"
    by (simp add: k_def mod_add_right_eq)
  then have "unat ((cyc_next m ^^ k) a) = unat f"
    using cyc_iterate(2) [OF assms(1), of k] assms(2) by (simp add: cyc_ids_iff)
  moreover have "k < unat m"
    using assms(1) by (auto simp: k_def cyc_ids_iff)
  ultimately show ?thesis
    by (auto simp: word_unat_eq_iff)
qed

end
