(* ===== verification/Topic_Alias.thy ===== *)
theory Topic_Alias
  imports Mqtt_Types Cyclic_Ids
begin

text \<open>
  The topic alias table of a connection (\<open>session/topic_alias.rs\<close>). The two hash maps are partial
  functions with finite domain. The search for a free alias is a loop that need not end on an
  arbitrary state, so it is a \<open>partial_function\<close>; it is proved to return on every reachable state.
\<close>

record TopicAliasManager =
  ta_topic_alias_maximum :: u16
  ta_alias_to_topic :: "u16 \<rightharpoonup> string"
  ta_topic_to_alias :: "string \<rightharpoonup> u16"
  ta_next_alias :: u16

definition TopicAliasManager_new :: "u16 \<Rightarrow> TopicAliasManager" where
  "TopicAliasManager_new topic_alias_maximum =
     \<lparr>ta_topic_alias_maximum = topic_alias_maximum, ta_alias_to_topic = Map.empty,
      ta_topic_to_alias = Map.empty, ta_next_alias = 1\<rparr>"

definition TopicAliasManager_alias_after :: "TopicAliasManager \<Rightarrow> u16 \<Rightarrow> u16" where
  "TopicAliasManager_alias_after m alias =
     (if alias \<ge> ta_topic_alias_maximum m then 1 else alias + 1)"

partial_function (option) find_free_alias :: "TopicAliasManager \<Rightarrow> u16 \<Rightarrow> u16 option" where
  "find_free_alias m next_alias =
     (if ta_alias_to_topic m next_alias \<noteq> None
      then find_free_alias m (TopicAliasManager_alias_after m next_alias)
      else Some next_alias)"

definition TopicAliasManager_get_or_create_alias ::
  "TopicAliasManager \<Rightarrow> string \<Rightarrow> (u16 option \<times> TopicAliasManager) option" where
  "TopicAliasManager_get_or_create_alias m topic =
     (case ta_topic_to_alias m topic of
        Some alias \<Rightarrow> Some (Some alias, m)
      | None \<Rightarrow>
          if ta_topic_alias_maximum m = 0
             \<or> card (dom (ta_alias_to_topic m)) \<ge> unat (ta_topic_alias_maximum m)
          then Some (None, m)
          else
            Option.bind (find_free_alias m (ta_next_alias m)) (\<lambda>alias.
              Some (Some alias,
                m\<lparr>ta_alias_to_topic := (ta_alias_to_topic m)(alias \<mapsto> topic),
                  ta_topic_to_alias := (ta_topic_to_alias m)(topic \<mapsto> alias),
                  ta_next_alias := TopicAliasManager_alias_after m alias\<rparr>)))"

definition TopicAliasManager_register_alias ::
  "TopicAliasManager \<Rightarrow> u16 \<Rightarrow> string \<Rightarrow> TopicAliasManager result" where
  "TopicAliasManager_register_alias m alias topic =
     (if alias = 0 \<or> alias > ta_topic_alias_maximum m then Inl (MqttError.TopicAliasInvalid alias)
      else
        let topic_to_alias =
              (case ta_alias_to_topic m alias of
                 Some old_topic \<Rightarrow> (ta_topic_to_alias m)(old_topic := None)
               | None \<Rightarrow> ta_topic_to_alias m)
        in Inr (m\<lparr>ta_alias_to_topic := (ta_alias_to_topic m)(alias \<mapsto> topic),
                  ta_topic_to_alias := topic_to_alias(topic \<mapsto> alias)\<rparr>))"

definition TopicAliasManager_get_topic :: "TopicAliasManager \<Rightarrow> u16 \<Rightarrow> string option" where
  "TopicAliasManager_get_topic m alias = ta_alias_to_topic m alias"

definition TopicAliasManager_get_alias :: "TopicAliasManager \<Rightarrow> string \<Rightarrow> u16 option" where
  "TopicAliasManager_get_alias m topic = ta_topic_to_alias m topic"

definition TopicAliasManager_clear :: "TopicAliasManager \<Rightarrow> TopicAliasManager" where
  "TopicAliasManager_clear m =
     m\<lparr>ta_alias_to_topic := Map.empty, ta_topic_to_alias := Map.empty, ta_next_alias := 1\<rparr>"

subsection \<open>Invariant\<close>

abbreviation valid_aliases :: "TopicAliasManager \<Rightarrow> u16 set" where
  "valid_aliases m \<equiv> cyc_ids (ta_topic_alias_maximum m)"

definition alias_ok :: "TopicAliasManager \<Rightarrow> bool" where
  "alias_ok m \<longleftrightarrow>
     dom (ta_alias_to_topic m) \<subseteq> valid_aliases m
     \<and> (ta_topic_alias_maximum m \<noteq> 0 \<longrightarrow> ta_next_alias m \<in> valid_aliases m)
     \<and> (\<forall>t a. ta_topic_to_alias m t = Some a \<longrightarrow> ta_alias_to_topic m a = Some t)"

lemma alias_ok_new [simp]: "alias_ok (TopicAliasManager_new n)"
  by (auto simp: alias_ok_def TopicAliasManager_new_def cyc_ids_iff Suc_le_eq unat_gt_0)

lemma alias_ok_clear [simp]: "alias_ok (TopicAliasManager_clear m)"
  using alias_ok_new [of "ta_topic_alias_maximum m"]
  by (simp add: alias_ok_def TopicAliasManager_new_def TopicAliasManager_clear_def)

lemma alias_after_eq: "TopicAliasManager_alias_after m = cyc_next (ta_topic_alias_maximum m)"
  by (auto simp: TopicAliasManager_alias_after_def cyc_next_def)

lemma find_free_alias_iterate:
  assumes "ta_alias_to_topic m ((TopicAliasManager_alias_after m ^^ k) a) = None"
    "\<forall>j < k. ta_alias_to_topic m ((TopicAliasManager_alias_after m ^^ j) a) \<noteq> None"
  shows "find_free_alias m a = Some ((TopicAliasManager_alias_after m ^^ k) a)"
  using assms
proof (induction k arbitrary: a)
  case 0
  then show ?case by (simp add: find_free_alias.simps)
next
  case (Suc k)
  have "find_free_alias m (TopicAliasManager_alias_after m a)
    = Some ((TopicAliasManager_alias_after m ^^ k) (TopicAliasManager_alias_after m a))"
  proof (rule Suc.IH)
    show "\<forall>j < k. ta_alias_to_topic m
        ((TopicAliasManager_alias_after m ^^ j) (TopicAliasManager_alias_after m a)) \<noteq> None"
      using Suc.prems(2) by (metis Suc_less_eq comp_apply funpow_Suc_right)
  qed (use Suc.prems(1) in \<open>simp add: funpow_swap1\<close>)
  moreover have "ta_alias_to_topic m a \<noteq> None"
    using Suc.prems(2) by (metis funpow_0 zero_less_Suc)
  ultimately show ?case
    by (simp add: find_free_alias.simps [of m a] funpow_swap1)
qed

lemma find_free_alias_returns:
  assumes "alias_ok m" "a \<in> valid_aliases m"
    "card (dom (ta_alias_to_topic m)) < unat (ta_topic_alias_maximum m)"
  shows "\<exists>b. find_free_alias m a = Some b \<and> b \<in> valid_aliases m \<and> ta_alias_to_topic m b = None"
proof -
  let ?s = "TopicAliasManager_alias_after m"
  have "\<not> valid_aliases m \<subseteq> dom (ta_alias_to_topic m)"
    using assms(3) card_cyc_ids [of "ta_topic_alias_maximum m"] by (metis card_mono finite not_le)
  then obtain f where f: "f \<in> valid_aliases m" "ta_alias_to_topic m f = None"
    by auto
  then obtain k where ex: "ta_alias_to_topic m ((?s ^^ k) a) = None"
    using cyc_reaches [OF assms(2) f(1)] by (auto simp: alias_after_eq)
  define l where "l = (LEAST j. ta_alias_to_topic m ((?s ^^ j) a) = None)"
  have "ta_alias_to_topic m ((?s ^^ l) a) = None"
    unfolding l_def by (rule LeastI [of _ k]) (rule ex)
  moreover have "\<forall>j < l. ta_alias_to_topic m ((?s ^^ j) a) \<noteq> None"
    unfolding l_def using not_less_Least by blast
  moreover have "(?s ^^ l) a \<in> valid_aliases m"
    using cyc_iterate(1) [OF assms(2)] by (simp add: alias_after_eq)
  ultimately show ?thesis
    using find_free_alias_iterate by metis
qed

lemma get_or_create_alias_cases:
  assumes "alias_ok m"
  obtains (known) a where "ta_topic_to_alias m topic = Some a"
      "TopicAliasManager_get_or_create_alias m topic = Some (Some a, m)"
    | (full) "ta_topic_to_alias m topic = None"
      "card (dom (ta_alias_to_topic m)) \<ge> unat (ta_topic_alias_maximum m)"
      "TopicAliasManager_get_or_create_alias m topic = Some (None, m)"
    | (fresh) a where "ta_topic_to_alias m topic = None" "a \<in> valid_aliases m"
      "card (dom (ta_alias_to_topic m)) < unat (ta_topic_alias_maximum m)"
      "ta_alias_to_topic m a = None"
      "TopicAliasManager_get_or_create_alias m topic = Some (Some a,
         m\<lparr>ta_alias_to_topic := (ta_alias_to_topic m)(a \<mapsto> topic),
           ta_topic_to_alias := (ta_topic_to_alias m)(topic \<mapsto> a),
           ta_next_alias := TopicAliasManager_alias_after m a\<rparr>)"
proof (cases "ta_topic_to_alias m topic")
  case (Some a)
  then show ?thesis
    using known by (simp add: TopicAliasManager_get_or_create_alias_def)
next
  case None
  show ?thesis
  proof (cases "card (dom (ta_alias_to_topic m)) \<ge> unat (ta_topic_alias_maximum m)")
    case True
    then show ?thesis
      using None full by (simp add: TopicAliasManager_get_or_create_alias_def)
  next
    case False
    then have pos: "ta_topic_alias_maximum m \<noteq> 0"
      by auto
    then have "ta_next_alias m \<in> valid_aliases m"
      using assms by (simp add: alias_ok_def)
    then obtain a where a: "find_free_alias m (ta_next_alias m) = Some a" "a \<in> valid_aliases m"
      "ta_alias_to_topic m a = None"
      using find_free_alias_returns [OF assms] False by auto
    then show ?thesis
      using None pos False by (intro fresh) (auto simp: TopicAliasManager_get_or_create_alias_def)
  qed
qed

lemma get_or_create_alias_ok:
  assumes "alias_ok m" "TopicAliasManager_get_or_create_alias m topic = Some (r, m')"
  shows "alias_ok m'"
  using assms(1)
proof (cases rule: get_or_create_alias_cases [of m topic])
  case (fresh a)
  then show ?thesis
    using assms cyc_next_in [OF fresh(2)] by (auto simp: alias_ok_def alias_after_eq)
qed (use assms in auto)

lemma register_alias_ok:
  assumes "alias_ok m" "TopicAliasManager_register_alias m a t = Inr m'"
  shows "alias_ok m'"
proof -
  have a: "a \<in> valid_aliases m"
    using assms(2) by (auto simp: TopicAliasManager_register_alias_def cyc_ids_nonzero
        not_less split: if_splits)
  then have "ta_topic_alias_maximum m \<noteq> 0"
    by (auto simp: cyc_ids_iff)
  have inv: "ta_topic_to_alias m t = Some b \<Longrightarrow> ta_alias_to_topic m b = Some t"
    "ta_alias_to_topic m x = Some y \<Longrightarrow> x \<in> valid_aliases m" for t b x y
    using assms(1) by (auto simp: alias_ok_def)
  show ?thesis
    using assms a \<open>ta_topic_alias_maximum m \<noteq> 0\<close>
    by (cases "ta_alias_to_topic m a")
      (auto simp: alias_ok_def TopicAliasManager_register_alias_def Let_def
        dest: inv split: if_splits)
qed

text \<open>
  A connection on which the sender attaches aliases to a sequence of topics and the receiver
  registers every alias it sees.
\<close>

fun alias_session :: "string list \<Rightarrow> TopicAliasManager \<Rightarrow> TopicAliasManager \<Rightarrow>
    (TopicAliasManager \<times> TopicAliasManager) option" where
  "alias_session [] sender receiver = Some (sender, receiver)"
| "alias_session (topic # topics) sender receiver =
     Option.bind (TopicAliasManager_get_or_create_alias sender topic) (\<lambda>(r, sender').
       case r of
         None \<Rightarrow> alias_session topics sender' receiver
       | Some a \<Rightarrow>
           (case TopicAliasManager_register_alias receiver a topic of
              Inl _ \<Rightarrow> None | Inr receiver' \<Rightarrow> alias_session topics sender' receiver'))"

lemma alias_session_agrees:
  assumes "alias_ok s" "ta_alias_to_topic r = ta_alias_to_topic s"
    "ta_topic_alias_maximum r = ta_topic_alias_maximum s"
  shows "\<exists>s' r'. alias_session topics s r = Some (s', r') \<and> alias_ok s'
    \<and> ta_alias_to_topic r' = ta_alias_to_topic s'"
  using assms
proof (induction topics arbitrary: s r)
  case (Cons topic topics)
  have reg: "\<exists>r'. TopicAliasManager_register_alias r a topic = Inr r'
      \<and> ta_alias_to_topic r' = (ta_alias_to_topic s)(a \<mapsto> topic)
      \<and> ta_topic_alias_maximum r' = ta_topic_alias_maximum s" if "a \<in> valid_aliases s" for a
    using that Cons.prems by (simp add: TopicAliasManager_register_alias_def cyc_ids_nonzero Let_def not_less)
  show ?case
    using Cons.prems(1)
  proof (cases rule: get_or_create_alias_cases [of s topic])
    case (known a)
    then have "ta_alias_to_topic s a = Some topic"
      using Cons.prems(1) by (simp add: alias_ok_def)
    moreover from this have "a \<in> valid_aliases s"
      using Cons.prems(1) by (auto simp: alias_ok_def)
    ultimately obtain r' where "TopicAliasManager_register_alias r a topic = Inr r'"
      "ta_alias_to_topic r' = ta_alias_to_topic s" "ta_topic_alias_maximum r' = ta_topic_alias_maximum s"
      using reg [of a] by (auto simp: fun_upd_idem)
    then show ?thesis
      using known Cons.IH [OF Cons.prems(1)] by simp
  next
    case full
    then show ?thesis
      using Cons.IH [OF Cons.prems] by simp
  next
    case (fresh a)
    let ?s = "s\<lparr>ta_alias_to_topic := (ta_alias_to_topic s)(a \<mapsto> topic),
           ta_topic_to_alias := (ta_topic_to_alias s)(topic \<mapsto> a),
           ta_next_alias := TopicAliasManager_alias_after s a\<rparr>"
    obtain r' where r': "TopicAliasManager_register_alias r a topic = Inr r'"
      "ta_alias_to_topic r' = ta_alias_to_topic ?s" "ta_topic_alias_maximum r' = ta_topic_alias_maximum ?s"
      using reg [OF fresh(2)] by auto
    have "alias_ok ?s"
      by (rule get_or_create_alias_ok [OF Cons.prems(1) fresh(5)])
    then show ?thesis
      using fresh(5) r'(1) Cons.IH [OF _ r'(2,3)] by simp
  qed
qed simp

subsection \<open>Properties of the component\<close>

text \<open>
  C24: outgoing aliases. On every consistent table \<open>get_or_create_alias\<close> returns (its search for a
  free alias ends), keeps the table consistent, and answers with a valid alias that resolves to the
  topic and leaves all other aliases alone; it answers \<open>None\<close> only for an unknown topic when all
  aliases are taken, or none are allowed.
\<close>

theorem alias_allocation:
  assumes "alias_ok m"
  shows "\<exists>r m'. TopicAliasManager_get_or_create_alias m topic = Some (r, m') \<and> alias_ok m'
    \<and> (case r of
         Some a \<Rightarrow> 1 \<le> a \<and> a \<le> ta_topic_alias_maximum m
           \<and> TopicAliasManager_get_topic m' a = Some topic
           \<and> TopicAliasManager_get_alias m' topic = Some a
           \<and> (\<forall>b. b \<noteq> a \<longrightarrow> TopicAliasManager_get_topic m' b = TopicAliasManager_get_topic m b)
           \<and> (\<forall>old. TopicAliasManager_get_topic m a = Some old \<longrightarrow> old = topic)
       | None \<Rightarrow> m' = m \<and> TopicAliasManager_get_alias m topic = None
           \<and> card (dom (ta_alias_to_topic m)) \<ge> unat (ta_topic_alias_maximum m))"
  using assms
proof (cases rule: get_or_create_alias_cases [of m topic])
  case (known a)
  then have "ta_alias_to_topic m a = Some topic"
    using assms by (simp add: alias_ok_def)
  moreover from this have "a \<in> valid_aliases m"
    using assms by (auto simp: alias_ok_def)
  ultimately show ?thesis
    using known assms
    by (auto simp: TopicAliasManager_get_topic_def TopicAliasManager_get_alias_def cyc_ids_def)
next
  case full
  then show ?thesis
    using assms by (simp add: TopicAliasManager_get_alias_def)
next
  case (fresh a)
  then show ?thesis
    using get_or_create_alias_ok [OF assms fresh(5)]
    by (auto simp: TopicAliasManager_get_topic_def TopicAliasManager_get_alias_def cyc_ids_def)
qed

theorem alias_allocation_witness:
  "\<exists>r m'. TopicAliasManager_get_or_create_alias (TopicAliasManager_new 1) ''a'' = Some (r, m')
    \<and> alias_ok m'"
  using alias_allocation [OF alias_ok_new, of 1 "''a''"] by blast

text \<open>
  C26: the two ends of a connection. If the receiver registers every alias the sender attaches to a
  topic, then after any sequence of topics both tables resolve every alias alike: the receiver
  looks up exactly the topic the sender meant.
\<close>

theorem alias_tables_agree:
  "\<exists>sender receiver.
     alias_session topics (TopicAliasManager_new n) (TopicAliasManager_new n) = Some (sender, receiver)
     \<and> (\<forall>a. TopicAliasManager_get_topic receiver a = TopicAliasManager_get_topic sender a)
     \<and> (\<forall>t. case TopicAliasManager_get_alias sender t of
              None \<Rightarrow> True | Some a \<Rightarrow> TopicAliasManager_get_topic receiver a = Some t)"
proof -
  obtain s r where "alias_session topics (TopicAliasManager_new n) (TopicAliasManager_new n) = Some (s, r)"
    "alias_ok s" "ta_alias_to_topic r = ta_alias_to_topic s"
    using alias_session_agrees [OF alias_ok_new refl refl] by blast
  then show ?thesis
    by (auto simp: TopicAliasManager_get_topic_def TopicAliasManager_get_alias_def alias_ok_def
        split: option.split)
qed

end
