(* ===== verification/Packet_Id.thy ===== *)
theory Packet_Id
  imports Cyclic_Ids
begin

text \<open>
  The packet identifier generator (\<open>packet_id.rs\<close>). Its state is the value of one atomic cell. What
  other threads do between the load and the compare-and-swap of attempt \<open>i\<close> is the argument
  \<open>other i\<close>, which maps the value loaded to the value the cell then holds; a call nobody interferes
  with has \<open>other i c = c\<close>.
\<close>

definition PacketIdGenerator_new :: u16 where
  "PacketIdGenerator_new = 1"

definition MAX_RETRIES :: nat where
  "MAX_RETRIES = 1000"

text \<open>The retry loop: \<open>Inr\<close> the identifier and the cell, or \<open>Inl\<close> the cell when all attempts failed.\<close>

fun next_retry :: "(nat \<Rightarrow> u16 \<Rightarrow> u16) \<Rightarrow> nat \<Rightarrow> u16 \<Rightarrow> u16 + (u16 \<times> u16)" where
  "next_retry other 0 cell = Inl cell"
| "next_retry other (Suc n) cell =
     (let current = cell;
          nxt = (if current = 0xFFFF then 1 else current + 1);
          cell = other n cell
      in if cell = current then Inr (current, nxt) else next_retry other n cell)"

definition PacketIdGenerator_next :: "(nat \<Rightarrow> u16 \<Rightarrow> u16) \<Rightarrow> u16 \<Rightarrow> u16 \<times> u16" where
  "PacketIdGenerator_next other cell =
     (case next_retry other MAX_RETRIES cell of
        Inr r \<Rightarrow> r
      | Inl current \<Rightarrow> if current = 0 then (1, 2) else (current, current + 1))"

abbreviation alone :: "nat \<Rightarrow> u16 \<Rightarrow> u16" where
  "alone \<equiv> \<lambda>i c. c"

text \<open>\<open>(0..u16::MAX).map(next).find(free)\<close> in a single thread.\<close>

fun next_available_loop :: "nat \<Rightarrow> (u16 \<Rightarrow> bool) \<Rightarrow> u16 \<Rightarrow> u16 option \<times> u16" where
  "next_available_loop 0 in_use cell = (None, cell)"
| "next_available_loop (Suc n) in_use cell =
     (case PacketIdGenerator_next alone cell of
        (packet_id, cell) \<Rightarrow>
          if \<not> in_use packet_id then (Some packet_id, cell)
          else next_available_loop n in_use cell)"

definition PacketIdGenerator_next_available :: "(u16 \<Rightarrow> bool) \<Rightarrow> u16 \<Rightarrow> u16 option \<times> u16" where
  "PacketIdGenerator_next_available in_use cell = next_available_loop 65535 in_use cell"

subsection \<open>Behaviour\<close>

abbreviation packet_ids :: "u16 set" where
  "packet_ids \<equiv> cyc_ids 0xFFFF"

lemma packet_ids_iff: "a \<in> packet_ids \<longleftrightarrow> a \<noteq> 0"
  by (simp add: cyc_ids_nonzero word_le_nat_alt unat_u16_le)

lemma next_alone: "PacketIdGenerator_next alone cell = (cell, cyc_next 0xFFFF cell)"
proof -
  have "(0xFFFF \<le> cell) = (cell = 0xFFFF)"
    using unat_u16_le [of cell] by (auto simp: word_le_nat_alt word_unat_eq_iff)
  then show ?thesis
    by (simp add: PacketIdGenerator_next_def MAX_RETRIES_def cyc_next_def numeral_eq_Suc Let_def)
qed

lemma next_available_loop_eq:
  "next_available_loop n in_use cell =
     (if \<exists>k < n. \<not> in_use ((cyc_next 0xFFFF ^^ k) cell)
      then (let k = LEAST k. \<not> in_use ((cyc_next 0xFFFF ^^ k) cell)
            in (Some ((cyc_next 0xFFFF ^^ k) cell), (cyc_next 0xFFFF ^^ Suc k) cell))
      else (None, (cyc_next 0xFFFF ^^ n) cell))"
proof (induction n arbitrary: cell)
  case (Suc n)
  let ?s = "cyc_next 0xFFFF" and ?free = "\<lambda>c k. \<not> in_use ((cyc_next 0xFFFF ^^ k) c)"
  show ?case
  proof (cases "in_use cell")
    case False
    then have "(LEAST k. ?free cell k) = 0" "\<exists>k < Suc n. ?free cell k"
      by (auto intro: Least_equality)
    with False show ?thesis
      by (simp add: next_alone Let_def)
  next
    case True
    have shift: "?free cell (Suc k) = ?free (?s cell) k" for k
      by (simp add: funpow_swap1)
    have ex: "(\<exists>k < Suc n. ?free cell k) \<longleftrightarrow> (\<exists>k < n. ?free (?s cell) k)"
      using True shift by (auto simp: less_Suc_eq_0_disj)
    show ?thesis
    proof (cases "\<exists>k < n. ?free (?s cell) k")
      case free: True
      then obtain k where "?free cell (Suc k)"
        using shift by blast
      then have "(LEAST k. ?free cell k) = Suc (LEAST k. ?free cell (Suc k))"
        using True by (intro Least_Suc [of _ "Suc k"]) auto
      with free ex True show ?thesis
        by (simp add: next_alone Suc.IH shift Let_def funpow_swap1 del: funpow.simps)
          (simp add: funpow_swap1)
    next
      case False
      then have "\<not> (\<exists>k < Suc n. ?free cell k)"
        using ex by blast
      with False True show ?thesis
        unfolding next_available_loop.simps next_alone prod.case Suc.IH
        by (simp only: if_False if_True not_True_eq_False funpow_swap1 funpow.simps comp_apply)
    qed
  qed
qed simp

lemma cyc_next_neq: "cyc_next 0xFFFF c \<noteq> c"
  by (auto simp: cyc_next_def word_le_nat_alt)

lemma next_retry_contended:
  "next_retry (\<lambda>i c. cyc_next 0xFFFF c) n cell = Inl ((cyc_next 0xFFFF ^^ n) cell)"
  by (induction n arbitrary: cell) (simp_all add: cyc_next_neq funpow_swap1)

subsection \<open>Properties of the component\<close>

text \<open>
  C27: finding a free packet identifier. Used by one thread from a non-zero cell,
  \<open>next_available\<close> returns a non-zero identifier that is not in use whenever there is one, and
  \<open>None\<close> only if all 65535 are taken; the cell stays non-zero.
\<close>

theorem next_available_complete:
  assumes "cell \<noteq> 0"
  shows "case PacketIdGenerator_next_available in_use cell of
      (Some packet_id, cell') \<Rightarrow> packet_id \<noteq> 0 \<and> \<not> in_use packet_id \<and> cell' \<noteq> 0
    | (None, cell') \<Rightarrow> (\<forall>packet_id. packet_id \<noteq> 0 \<longrightarrow> in_use packet_id) \<and> cell' \<noteq> 0"
proof -
  let ?s = "cyc_next 0xFFFF" and ?free = "\<lambda>k. \<not> in_use ((cyc_next 0xFFFF ^^ k) cell)"
  have cell: "cell \<in> packet_ids"
    using assms by (simp add: packet_ids_iff)
  have nz: "(?s ^^ k) cell \<noteq> 0" for k
    using cyc_iterate(1) [OF cell] by (simp add: packet_ids_iff)
  show ?thesis
  proof (cases "\<exists>k < 65535. ?free k")
    case True
    then have "?free (LEAST k. ?free k)"
      by (metis (mono_tags, lifting) LeastI)
    with True nz nz [of "Suc (LEAST k. ?free k)"] show ?thesis
      by (simp add: PacketIdGenerator_next_available_def next_available_loop_eq Let_def del: funpow.simps)
  next
    case False
    have "in_use packet_id" if "packet_id \<noteq> 0" for packet_id
    proof -
      have "packet_id \<in> packet_ids"
        using that by (simp add: packet_ids_iff)
      then obtain k where "k < unat (0xFFFF :: u16)" "(?s ^^ k) cell = packet_id"
        using cyc_reaches [OF cell] by blast
      with False show ?thesis
        by auto
    qed
    with False nz show ?thesis
      by (auto simp: PacketIdGenerator_next_available_def next_available_loop_eq)
  qed
qed

theorem next_available_complete_witness:
  "case PacketIdGenerator_next_available (\<lambda>i. i = 1) PacketIdGenerator_new of
      (Some packet_id, cell') \<Rightarrow> packet_id \<noteq> 0 \<and> packet_id \<noteq> 1 \<and> cell' \<noteq> 0
    | (None, cell') \<Rightarrow> False"
proof -
  have "\<not> (\<forall>packet_id :: u16. packet_id \<noteq> 0 \<longrightarrow> packet_id = 1)"
    by (auto intro!: exI [of _ 2])
  then show ?thesis
    using next_available_complete [of PacketIdGenerator_new "\<lambda>i. i = 1"]
    by (auto simp: PacketIdGenerator_new_def split: prod.splits option.splits)
qed

text \<open>
  C36: the zero identifier. If another thread advances the generator between the load and the
  compare-and-swap of all thousand attempts of a call, and the cell has then reached 65535, the
  fallback path increments past the end: the cell becomes 0, and the next undisturbed call hands out
  the identifier 0, which the protocol forbids.
\<close>

theorem contended_generator_yields_zero:
  assumes "other = (\<lambda>i c. snd (PacketIdGenerator_next alone c))"
  shows "fst (PacketIdGenerator_next alone (snd (PacketIdGenerator_next other 64535))) = 0"
proof -
  have "next_retry other MAX_RETRIES 64535 = Inl ((cyc_next 0xFFFF ^^ MAX_RETRIES) 64535)"
    by (simp add: assms next_alone next_retry_contended)
  moreover have "(cyc_next 0xFFFF ^^ MAX_RETRIES) 64535 = 0xFFFF"
    using cyc_iterate(2) [of "64535" "0xFFFF" MAX_RETRIES]
    by (simp add: word_unat_eq_iff cyc_ids_iff MAX_RETRIES_def)
  ultimately show ?thesis
    by (simp only: next_alone fst_conv) (simp add: PacketIdGenerator_next_def)
qed

theorem contended_generator_yields_zero_witness:
  "fst (PacketIdGenerator_next alone
     (snd (PacketIdGenerator_next (\<lambda>i c. snd (PacketIdGenerator_next alone c)) 64535))) = 0"
  by (rule contended_generator_yields_zero [OF refl])

end
