(* ===== verification/Assoc_Lists.thy ===== *)
theory Assoc_Lists
  imports "HOL-Library.AList" "HOL-Library.Multiset"
begin

text \<open>
  Hash maps whose entries the source enumerates are association lists with distinct keys. These
  lemmas are what the components need of \<open>AList.update\<close> and \<open>AList.delete\<close>.
\<close>

lemma alist_update_fresh: "map_of t p = None \<Longrightarrow> AList.update p v t = t @ [(p, v)]"
  by (induction t) (auto split: if_splits)

lemma alist_update_map:
  assumes "map_of t p = Some v0" "f (p, v) = f (p, v0)"
  shows "map f (AList.update p v t) = map f t"
  using assms by (induction t) auto

lemma alist_delete_mset:
  assumes "distinct (map fst t)" "map_of t p = Some v"
  shows "mset t = add_mset (p, v) (mset (AList.delete p t))"
  using assms
proof (induction t)
  case (Cons e t)
  show ?case
  proof (cases "fst e = p")
    case True
    with Cons.prems have "map_of t p = None"
      by (auto simp: map_of_eq_None_iff)
    then have "AList.delete p t = t"
      by (simp add: AList.delete_id map_of_eq_None_iff)
    with True Cons.prems show ?thesis
      by (cases e) auto
  next
    case False
    with Cons show ?thesis
      by (cases e) auto
  qed
qed simp

lemma alist_delete_none: "map_of t p = None \<Longrightarrow> AList.delete p t = t"
  by (simp add: AList.delete_id map_of_eq_None_iff)

lemma list_all_alist_delete: "list_all P t \<Longrightarrow> list_all P (AList.delete p t)"
  by (auto simp: list_all_iff AList.delete_eq)

lemma list_all_alist_update:
  assumes "list_all P t" "P (p, v)"
  shows "list_all P (AList.update p v t)"
  using assms by (induction t) auto

lemma alist_filter_key:
  assumes "distinct (map fst t)"
  shows "filter (\<lambda>e. fst e = p) t = (case map_of t p of None \<Rightarrow> [] | Some v \<Rightarrow> [(p, v)])"
  using assms
proof (induction t)
  case (Cons e t)
  then show ?case
  proof (cases "fst e = p")
    case True
    with Cons.prems have "filter (\<lambda>e. fst e = p) t = []"
      by (auto simp: filter_empty_conv image_iff)
    with True show ?thesis
      by (cases e) auto
  qed (cases e, auto)
qed simp

lemma alist_fold_update:
  assumes "distinct (map k ms)"
  shows "map_of (fold (\<lambda>m. AList.update (k m) (g m)) ms t) p =
    (case find (\<lambda>m. k m = p) ms of Some m \<Rightarrow> Some (g m) | None \<Rightarrow> map_of t p)"
  using assms
proof (induction ms arbitrary: t)
  case (Cons m ms)
  have "find (\<lambda>m. k m = p) ms = None" if "k m = p"
    using Cons.prems that by (auto simp: find_None_iff image_iff)
  with Cons show ?case
    by (auto simp: AList.update_conv' split: option.split)
qed simp

lemma mset_singleton_filter:
  assumes "mset xs = mset ys" "filter P ys = zs" "length zs \<le> 1"
  shows "filter P xs = zs"
proof -
  have "mset (filter P xs) = mset zs"
    using assms(1,2) by (metis mset_filter)
  with assms(3) show ?thesis
    by (cases zs) (auto simp del: mset_filter simp: mset_single_iff)
qed

lemmas alist_maps = AList.update_conv' AList.delete_conv'

lemmas alist_distinct = AList.distinct_update AList.distinct_delete

end
