(* ===== verification/Session_State.thy ===== *)
theory Session_State
  imports Packet_Publish Packet_Id Session_Queue Assoc_Lists "HOL-Library.Product_Lexorder"
begin

text \<open>
  The message exchange state of a client session (\<open>session/state.rs\<close> of the \<open>mqtt5\<close> crate) with the
  inbound part of its flow control (\<open>session/flow_control.rs\<close>). The two outbound hash maps are
  association lists, because \<open>outbound_replay\<close> enumerates them; the inbound ones are only looked up
  and counted, and are partial functions. Every operation that reads the clock takes the reading
  \<open>now\<close>; the locks of the source make each operation atomic.
\<close>

datatype OutboundStage = AwaitingPubAck | AwaitingPubRec | AwaitingPubComp

datatype OutboundReplay = Publish PublishPacket | PubRel u16

datatype AckResolution = Unresolved | Acked

record SessionState =
  ss_unacked_publishes :: "(u16 \<times> u64 \<times> PublishPacket) list"
  ss_unacked_pubrels :: "(u16 \<times> u64 \<times> nat) list"
  ss_outbound_send_order :: u64
  ss_inbound_pubrecs :: "u16 \<rightharpoonup> nat"
  ss_inbound_delivered :: "u16 \<rightharpoonup> nat"
  ss_inbound_resolution :: "u16 \<rightharpoonup> AckResolution"
  ss_last_activity :: nat
  ss_limits :: LimitsConfig
  ss_inbound_receive_maximum :: u16
  ss_inbound_in_flight :: "u16 \<rightharpoonup> nat"

definition SessionState_new :: "nat \<Rightarrow> SessionState" where
  "SessionState_new now =
     \<lparr>ss_unacked_publishes = [], ss_unacked_pubrels = [], ss_outbound_send_order = 0,
      ss_inbound_pubrecs = Map.empty, ss_inbound_delivered = Map.empty,
      ss_inbound_resolution = Map.empty, ss_last_activity = now, ss_limits = LimitsConfig_default,
      ss_inbound_receive_maximum = 65535, ss_inbound_in_flight = Map.empty\<rparr>"

definition SessionState_next_send_order :: "SessionState \<Rightarrow> u64 \<times> SessionState" where
  "SessionState_next_send_order s =
     (ss_outbound_send_order s, s\<lparr>ss_outbound_send_order := ss_outbound_send_order s + 1\<rparr>)"

definition SessionState_touch :: "nat \<Rightarrow> SessionState \<Rightarrow> SessionState" where
  "SessionState_touch now s = s\<lparr>ss_last_activity := now\<rparr>"

subsection \<open>Outbound exchanges\<close>

definition SessionState_store_unacked_publish ::
  "nat \<Rightarrow> PublishPacket \<Rightarrow> SessionState \<Rightarrow> SessionState result" where
  "SessionState_store_unacked_publish now packet s =
     (case pub_packet_id packet of
        Some packet_id \<Rightarrow>
          (case SessionState_next_send_order (SessionState_touch now s) of
             (order, s) \<Rightarrow>
               Inr (s\<lparr>ss_unacked_publishes :=
                 AList.update packet_id (order, packet) (ss_unacked_publishes s)\<rparr>))
      | None \<Rightarrow> Inl MqttError.ProtocolError)"

definition SessionState_remove_unacked_publish ::
  "nat \<Rightarrow> u16 \<Rightarrow> SessionState \<Rightarrow> PublishPacket option \<times> SessionState" where
  "SessionState_remove_unacked_publish now packet_id s =
     (map_option snd (map_of (ss_unacked_publishes s) packet_id),
      (SessionState_touch now s)\<lparr>ss_unacked_publishes :=
         AList.delete packet_id (ss_unacked_publishes s)\<rparr>)"

definition SessionState_store_pubrel :: "nat \<Rightarrow> u16 \<Rightarrow> SessionState \<Rightarrow> SessionState" where
  "SessionState_store_pubrel now packet_id s =
     (case SessionState_next_send_order (SessionState_touch now s) of
        (order, s) \<Rightarrow>
          (case map_of (ss_unacked_pubrels s) packet_id of
             None \<Rightarrow> s\<lparr>ss_unacked_pubrels :=
               AList.update packet_id (order, now) (ss_unacked_pubrels s)\<rparr>
           | Some _ \<Rightarrow> s))"

definition SessionState_outbound_replay :: "SessionState \<Rightarrow> OutboundReplay list" where
  "SessionState_outbound_replay s =
     (let ordered =
            map (\<lambda>(packet_id, order, _). (False, order, PubRel packet_id)) (ss_unacked_pubrels s)
            @ map (\<lambda>(_, order, packet). (True, order, Publish packet)) (ss_unacked_publishes s)
      in map (\<lambda>(_, _, item). item)
           (sort_key (\<lambda>(is_publish, order, _). (is_publish, order)) ordered))"

definition SessionState_outbound_stage :: "SessionState \<Rightarrow> u16 \<Rightarrow> OutboundStage option" where
  "SessionState_outbound_stage s packet_id =
     (case map_option (pub_qos \<circ> snd) (map_of (ss_unacked_publishes s) packet_id) of
        Some QoS.ExactlyOnce \<Rightarrow> Some AwaitingPubRec
      | Some _ \<Rightarrow> Some AwaitingPubAck
      | None \<Rightarrow>
          if map_of (ss_unacked_pubrels s) packet_id \<noteq> None then Some AwaitingPubComp else None)"

definition SessionState_complete_outbound :: "nat \<Rightarrow> u16 \<Rightarrow> SessionState \<Rightarrow> SessionState" where
  "SessionState_complete_outbound now packet_id s =
     (SessionState_touch now s)\<lparr>
       ss_unacked_publishes := AList.delete packet_id (ss_unacked_publishes s),
       ss_unacked_pubrels := AList.delete packet_id (ss_unacked_pubrels s)\<rparr>"

definition SessionState_allocate_packet_id ::
  "(u16 \<Rightarrow> bool) \<Rightarrow> u16 \<Rightarrow> SessionState \<Rightarrow> u16 option \<times> u16" where
  "SessionState_allocate_packet_id in_use_elsewhere generator s =
     PacketIdGenerator_next_available (\<lambda>packet_id.
       map_of (ss_unacked_publishes s) packet_id \<noteq> None
       \<or> map_of (ss_unacked_pubrels s) packet_id \<noteq> None
       \<or> in_use_elsewhere packet_id) generator"

definition SessionState_complete_pubrec :: "nat \<Rightarrow> u16 \<Rightarrow> SessionState \<Rightarrow> SessionState" where
  "SessionState_complete_pubrec now packet_id s =
     (let s = SessionState_touch now s in
      case map_of (ss_unacked_publishes s) packet_id of
        None \<Rightarrow> s
      | Some _ \<Rightarrow>
          let s = s\<lparr>ss_unacked_publishes := AList.delete packet_id (ss_unacked_publishes s)\<rparr> in
          case SessionState_next_send_order s of
            (order, s) \<Rightarrow> s\<lparr>ss_unacked_pubrels :=
              AList.update packet_id (order, now) (ss_unacked_pubrels s)\<rparr>)"

definition SessionState_complete_pubrel :: "nat \<Rightarrow> u16 \<Rightarrow> SessionState \<Rightarrow> SessionState" where
  "SessionState_complete_pubrel now packet_id s =
     (SessionState_touch now s)\<lparr>ss_unacked_pubrels :=
        AList.delete packet_id (ss_unacked_pubrels s)\<rparr>"

subsection \<open>Inbound exchanges\<close>

definition SessionState_mark_pubrec_pending ::
  "nat \<Rightarrow> u16 \<Rightarrow> SessionState \<Rightarrow> bool \<times> SessionState" where
  "SessionState_mark_pubrec_pending now packet_id s =
     (ss_inbound_pubrecs s packet_id = None,
      (SessionState_touch now s)\<lparr>ss_inbound_pubrecs := (ss_inbound_pubrecs s)(packet_id \<mapsto> now)\<rparr>)"

definition SessionState_clear_inbound_state :: "u16 \<Rightarrow> SessionState \<Rightarrow> SessionState" where
  "SessionState_clear_inbound_state packet_id s =
     s\<lparr>ss_inbound_delivered := (ss_inbound_delivered s)(packet_id := None),
       ss_inbound_resolution := (ss_inbound_resolution s)(packet_id := None),
       ss_inbound_pubrecs := (ss_inbound_pubrecs s)(packet_id := None)\<rparr>"

definition SessionState_remove_pubrec :: "nat \<Rightarrow> u16 \<Rightarrow> SessionState \<Rightarrow> SessionState" where
  "SessionState_remove_pubrec now packet_id s =
     (SessionState_touch now s)\<lparr>ss_inbound_pubrecs := (ss_inbound_pubrecs s)(packet_id := None)\<rparr>"

definition register_inbound_publish :: "nat \<Rightarrow> u16 \<Rightarrow> SessionState \<Rightarrow> SessionState result" where
  "register_inbound_publish now packet_id s =
     (if ss_inbound_receive_maximum s = 0 then Inr s
      else if ss_inbound_in_flight s packet_id \<noteq> None then Inr s
      else if card (dom (ss_inbound_in_flight s)) \<ge> unat (ss_inbound_receive_maximum s)
      then Inl MqttError.ReceiveMaximumExceeded
      else Inr (s\<lparr>ss_inbound_in_flight := (ss_inbound_in_flight s)(packet_id \<mapsto> now)\<rparr>))"

definition acknowledge_inbound :: "u16 \<Rightarrow> SessionState \<Rightarrow> SessionState" where
  "acknowledge_inbound packet_id s =
     s\<lparr>ss_inbound_in_flight := (ss_inbound_in_flight s)(packet_id := None)\<rparr>"

definition SessionState_check_packet_size :: "SessionState \<Rightarrow> nat \<Rightarrow> unit result" where
  "SessionState_check_packet_size s sz = LimitsManager_check_packet_size (ss_limits s) sz"


subsection \<open>The outbound tables\<close>

abbreviation pubs :: "SessionState \<Rightarrow> u16 \<rightharpoonup> u64 \<times> PublishPacket" where
  "pubs s \<equiv> map_of (ss_unacked_publishes s)"

abbreviation rels :: "SessionState \<Rightarrow> u16 \<rightharpoonup> u64 \<times> nat" where
  "rels s \<equiv> map_of (ss_unacked_pubrels s)"

definition tables_ok :: "SessionState \<Rightarrow> bool" where
  "tables_ok s \<longleftrightarrow>
     distinct (map fst (ss_unacked_publishes s)) \<and> distinct (map fst (ss_unacked_pubrels s))"

named_theorems session_simps \<open>the effect of the session operations on the outbound tables\<close>

lemma store_unacked_publish_tables [session_simps]:
  assumes "SessionState_store_unacked_publish now packet s = Inr s'" "tables_ok s"
    and "pub_packet_id packet = Some p"
  shows "pubs s' = (pubs s)(p \<mapsto> (ss_outbound_send_order s, packet))" "rels s' = rels s" "tables_ok s'"
  using assms
  by (auto simp: SessionState_store_unacked_publish_def SessionState_next_send_order_def
      SessionState_touch_def tables_ok_def alist_maps alist_distinct)

lemma remove_unacked_publish_tables [session_simps]:
  "pubs (snd (SessionState_remove_unacked_publish now p s)) = (pubs s)(p := None)"
  "rels (snd (SessionState_remove_unacked_publish now p s)) = rels s"
  "tables_ok s \<Longrightarrow> tables_ok (snd (SessionState_remove_unacked_publish now p s))"
  by (auto simp: SessionState_remove_unacked_publish_def SessionState_touch_def tables_ok_def
      alist_maps alist_distinct)

lemma complete_outbound_tables [session_simps]:
  "pubs (SessionState_complete_outbound now p s) = (pubs s)(p := None)"
  "rels (SessionState_complete_outbound now p s) = (rels s)(p := None)"
  "tables_ok s \<Longrightarrow> tables_ok (SessionState_complete_outbound now p s)"
  by (auto simp: SessionState_complete_outbound_def SessionState_touch_def tables_ok_def
      alist_maps alist_distinct)

lemma complete_pubrec_tables [session_simps]:
  "pubs (SessionState_complete_pubrec now p s) = (pubs s)(p := None)"
  "rels (SessionState_complete_pubrec now p s) =
     (if pubs s p = None then rels s else (rels s)(p \<mapsto> (ss_outbound_send_order s, now)))"
  "tables_ok s \<Longrightarrow> tables_ok (SessionState_complete_pubrec now p s)"
  by (auto simp: SessionState_complete_pubrec_def SessionState_touch_def SessionState_next_send_order_def
      Let_def tables_ok_def alist_maps alist_distinct split: option.split)

lemma store_pubrel_tables [session_simps]:
  "pubs (SessionState_store_pubrel now p s) = pubs s"
  "rels (SessionState_store_pubrel now p s) =
     (if rels s p = None then (rels s)(p \<mapsto> (ss_outbound_send_order s, now)) else rels s)"
  "tables_ok s \<Longrightarrow> tables_ok (SessionState_store_pubrel now p s)"
  by (auto simp: SessionState_store_pubrel_def SessionState_touch_def SessionState_next_send_order_def
      tables_ok_def alist_maps alist_distinct split: option.split)

lemma new_tables: "pubs (SessionState_new now) = Map.empty" "rels (SessionState_new now) = Map.empty"
    "tables_ok (SessionState_new now)"
  by (simp_all add: SessionState_new_def tables_ok_def)

fun replay_id :: "OutboundReplay \<Rightarrow> u16" where
  "replay_id (PubRel p) = p"
| "replay_id (Publish packet) = the (pub_packet_id packet)"

text \<open>The replay of a session holds one item for every open exchange, and no other.\<close>

lemma outbound_replay_at:
  assumes "tables_ok s" "\<And>q order packet. pubs s q = Some (order, packet) \<Longrightarrow> pub_packet_id packet = Some q"
    and "pubs s p = None \<or> rels s p = None"
  shows "filter (\<lambda>i. replay_id i = p) (SessionState_outbound_replay s) =
    (case pubs s p of
       Some (_, packet) \<Rightarrow> [Publish packet]
     | None \<Rightarrow> (case rels s p of Some _ \<Rightarrow> [PubRel p] | None \<Rightarrow> []))"
proof -
  let ?items = "map (\<lambda>e. PubRel (fst e)) (ss_unacked_pubrels s)
    @ map (\<lambda>e. Publish (snd (snd e))) (ss_unacked_publishes s)"
  let ?at = "(case pubs s p of
       Some (_, packet) \<Rightarrow> [Publish packet]
     | None \<Rightarrow> (case rels s p of Some _ \<Rightarrow> [PubRel p] | None \<Rightarrow> []))"
  have "mset (SessionState_outbound_replay s) = mset ?items"
    by (simp add: SessionState_outbound_replay_def Let_def case_prod_unfold multiset.map_comp comp_def)
  moreover have "filter (\<lambda>i. replay_id i = p) ?items = ?at"
  proof -
    have "replay_id (Publish (snd (snd e))) = fst e" if "e \<in> set (ss_unacked_publishes s)" for e
      using that assms(1) assms(2) [of "fst e" "fst (snd e)" "snd (snd e)"]
      by (simp add: tables_ok_def map_of_is_SomeI)
    then have "filter (\<lambda>e. replay_id (Publish (snd (snd e))) = p) (ss_unacked_publishes s)
        = filter (\<lambda>e. fst e = p) (ss_unacked_publishes s)"
      by (intro filter_cong) auto
    then have "filter (\<lambda>i. replay_id i = p) ?items =
        map (\<lambda>e. PubRel (fst e)) (filter (\<lambda>e. fst e = p) (ss_unacked_pubrels s))
        @ map (\<lambda>e. Publish (snd (snd e))) (filter (\<lambda>e. fst e = p) (ss_unacked_publishes s))"
      by (simp only: filter_append filter_map comp_def replay_id.simps(1))
    also have "\<dots> = ?at"
      using assms(1,3)
      by (cases "pubs s p"; cases "rels s p") (simp_all add: tables_ok_def alist_filter_key case_prod_unfold)
    finally show ?thesis .
  qed
  moreover have "length ?at \<le> 1"
    by (simp add: case_prod_unfold split: option.split)
  ultimately show ?thesis
    by (rule mset_singleton_filter)
qed

end
