(* ===== verification/Publish_Tracking.thy ===== *)
theory Publish_Tracking
  imports Mqtt_Types Assoc_Lists
begin

text \<open>
  The client's bookkeeping of outgoing publishes (\<open>client/direct/tracking.rs\<close> and the outcome types
  of \<open>client/publish_outcome.rs\<close>): the bit set of packet identifiers, the reservations built on it,
  and the tracker that settles the outcome of every publish. A publish handle is a number that
  stands for the identity of its watch channel; an operation that settles completions returns the
  pairs of handle and outcome it sends.
\<close>

unbundle bit_operations_syntax

subsection \<open>The set of packet identifiers\<close>

definition PACKET_ID_WORDS :: nat where
  "PACKET_ID_WORDS = (65535 + 1) div 64"

type_synonym PacketIdSet = "u64 list"

definition PacketIdSet_default :: PacketIdSet where
  "PacketIdSet_default = replicate PACKET_ID_WORDS 0"

definition PacketIdSet_bit :: "u16 \<Rightarrow> nat \<times> u64" where
  "PacketIdSet_bit packet_id = (unat (packet_id div 64), push_bit (unat (packet_id mod 64)) 1)"

definition PacketIdSet_insert :: "PacketIdSet \<Rightarrow> u16 \<Rightarrow> PacketIdSet" where
  "PacketIdSet_insert words packet_id =
     (case PacketIdSet_bit packet_id of (word, b) \<Rightarrow> words[word := (words ! word) OR b])"

definition PacketIdSet_remove :: "PacketIdSet \<Rightarrow> u16 \<Rightarrow> PacketIdSet" where
  "PacketIdSet_remove words packet_id =
     (case PacketIdSet_bit packet_id of (word, b) \<Rightarrow> words[word := (words ! word) AND NOT b])"

definition PacketIdSet_contains :: "PacketIdSet \<Rightarrow> u16 \<Rightarrow> bool" where
  "PacketIdSet_contains words packet_id =
     (case PacketIdSet_bit packet_id of (word, b) \<Rightarrow> (words ! word) AND b \<noteq> 0)"

definition PacketIdSet_clear :: "PacketIdSet \<Rightarrow> PacketIdSet" where
  "PacketIdSet_clear words = replicate PACKET_ID_WORDS 0"

subsection \<open>Reservations\<close>

record OutboundIds =
  oi_reserved :: PacketIdSet
  oi_quarantined :: PacketIdSet

definition OutboundIds_default :: OutboundIds where
  "OutboundIds_default = \<lparr>oi_reserved = PacketIdSet_default, oi_quarantined = PacketIdSet_default\<rparr>"

definition OutboundIds_holds :: "OutboundIds \<Rightarrow> u16 \<Rightarrow> bool" where
  "OutboundIds_holds ids packet_id \<longleftrightarrow>
     PacketIdSet_contains (oi_reserved ids) packet_id \<or> PacketIdSet_contains (oi_quarantined ids) packet_id"

definition OutboundIds_quarantine :: "OutboundIds \<Rightarrow> u16 \<Rightarrow> OutboundIds" where
  "OutboundIds_quarantine ids packet_id =
     ids\<lparr>oi_quarantined := PacketIdSet_insert (oi_quarantined ids) packet_id\<rparr>"

definition OutboundIds_release_quarantine :: "OutboundIds \<Rightarrow> OutboundIds" where
  "OutboundIds_release_quarantine ids =
     ids\<lparr>oi_quarantined := PacketIdSet_clear (oi_quarantined ids)\<rparr>"

definition IdReservation_claim :: "OutboundIds \<Rightarrow> u16 \<Rightarrow> OutboundIds option" where
  "IdReservation_claim ids packet_id =
     (if OutboundIds_holds ids packet_id then None
      else Some (ids\<lparr>oi_reserved := PacketIdSet_insert (oi_reserved ids) packet_id\<rparr>))"

definition IdReservation_drop :: "OutboundIds \<Rightarrow> u16 \<Rightarrow> OutboundIds" where
  "IdReservation_drop ids packet_id =
     ids\<lparr>oi_reserved := PacketIdSet_remove (oi_reserved ids) packet_id\<rparr>"

subsection \<open>Outcomes\<close>

datatype Delivery = Unconfirmed | AtLeastOnce u16 | ExactlyOnce u16

fun Delivery_qos_used :: "Delivery \<Rightarrow> QoS" where
  "Delivery_qos_used Unconfirmed = QoS.AtMostOnce"
| "Delivery_qos_used (AtLeastOnce _) = QoS.AtLeastOnce"
| "Delivery_qos_used (ExactlyOnce _) = QoS.ExactlyOnce"

fun Delivery_packet_id :: "Delivery \<Rightarrow> u16 option" where
  "Delivery_packet_id Unconfirmed = None"
| "Delivery_packet_id (AtLeastOnce packet_id) = Some packet_id"
| "Delivery_packet_id (ExactlyOnce packet_id) = Some packet_id"

fun Delivery_of :: "QoS \<Rightarrow> u16 option \<Rightarrow> Delivery" where
  "Delivery_of QoS.AtLeastOnce (Some packet_id) = AtLeastOnce packet_id"
| "Delivery_of QoS.ExactlyOnce (Some packet_id) = ExactlyOnce packet_id"
| "Delivery_of _ _ = Unconfirmed"

datatype PublishRejection =
    RetainNotSupported | PacketTooLarge | QoSNotSupported | Refused ReasonCode | Unsendable

datatype IndeterminateReason =
    SessionLost | SessionDiscarded | ReplayNotConforming | ResendRefused ReasonCode
  | ConnectionLost | Abandoned

datatype PublishOutcome =
    Delivered Delivery | Rejected PublishRejection | Indeterminate IndeterminateReason

record Completion =
  co_outcome :: nat
  co_resent :: bool

definition Completion_new :: "nat \<Rightarrow> Completion" where
  "Completion_new handle = \<lparr>co_outcome = handle, co_resent = False\<rparr>"

definition Completion_mark_resent :: "Completion \<Rightarrow> Completion" where
  "Completion_mark_resent c = c\<lparr>co_resent := True\<rparr>"

definition Completion_settle :: "Completion \<Rightarrow> PublishOutcome \<Rightarrow> nat \<times> PublishOutcome" where
  "Completion_settle c outcome = (co_outcome c, outcome)"

definition Completion_delivered :: "Completion \<Rightarrow> Delivery \<Rightarrow> nat \<times> PublishOutcome" where
  "Completion_delivered c delivery = Completion_settle c (Delivered delivery)"

definition Completion_rejected :: "Completion \<Rightarrow> PublishRejection \<Rightarrow> nat \<times> PublishOutcome" where
  "Completion_rejected c rejection =
     Completion_settle c
       (if \<not> co_resent c then Rejected rejection
        else case rejection of
          Refused reason_code \<Rightarrow> Indeterminate (ResendRefused reason_code)
        | _ \<Rightarrow> Indeterminate ReplayNotConforming)"

definition Completion_indeterminate :: "Completion \<Rightarrow> IndeterminateReason \<Rightarrow> nat \<times> PublishOutcome" where
  "Completion_indeterminate c reason = Completion_settle c (Indeterminate reason)"

record Tracked =
  tr_qos :: QoS
  tr_completion :: Completion

type_synonym OutcomeTracker = "(u16 \<times> Tracked) list"

definition OutcomeTracker_track ::
  "OutcomeTracker \<Rightarrow> u16 \<Rightarrow> QoS \<Rightarrow> Completion \<Rightarrow> OutcomeTracker \<times> (nat \<times> PublishOutcome) list" where
  "OutcomeTracker_track t packet_id qos completion =
     (case map_of t packet_id of
        None \<Rightarrow> (AList.update packet_id \<lparr>tr_qos = qos, tr_completion = completion\<rparr> t, [])
      | Some _ \<Rightarrow> (t, [Completion_indeterminate completion Abandoned]))"

definition OutcomeTracker_take ::
  "OutcomeTracker \<Rightarrow> u16 \<Rightarrow> OutcomeTracker \<times> Completion option" where
  "OutcomeTracker_take t packet_id =
     (AList.delete packet_id t, map_option tr_completion (map_of t packet_id))"

definition OutcomeTracker_mark_resent :: "OutcomeTracker \<Rightarrow> u16 \<Rightarrow> OutcomeTracker" where
  "OutcomeTracker_mark_resent t packet_id =
     (case map_of t packet_id of
        None \<Rightarrow> t
      | Some tracked \<Rightarrow>
          AList.update packet_id
            (tracked\<lparr>tr_completion := Completion_mark_resent (tr_completion tracked)\<rparr>) t)"

definition OutcomeTracker_take_matching ::
  "OutcomeTracker \<Rightarrow> u16 \<Rightarrow> QoS \<Rightarrow> OutcomeTracker \<times> Completion option" where
  "OutcomeTracker_take_matching t packet_id qos =
     (case map_of t packet_id of
        Some tracked \<Rightarrow> if tr_qos tracked = qos then OutcomeTracker_take t packet_id else (t, None)
      | None \<Rightarrow> (t, None))"

definition OutcomeTracker_acknowledged ::
  "OutcomeTracker \<Rightarrow> u16 \<Rightarrow> QoS \<Rightarrow> OutcomeTracker \<times> (nat \<times> PublishOutcome) list" where
  "OutcomeTracker_acknowledged t packet_id qos =
     (case OutcomeTracker_take_matching t packet_id qos of
        (t, Some completion) \<Rightarrow> (t, [Completion_delivered completion (Delivery_of qos (Some packet_id))])
      | (t, None) \<Rightarrow> (t, []))"

definition OutcomeTracker_refused ::
  "OutcomeTracker \<Rightarrow> u16 \<Rightarrow> QoS \<Rightarrow> ReasonCode \<Rightarrow> OutcomeTracker \<times> (nat \<times> PublishOutcome) list" where
  "OutcomeTracker_refused t packet_id qos reason_code =
     (case OutcomeTracker_take_matching t packet_id qos of
        (t, Some completion) \<Rightarrow> (t, [Completion_rejected completion (Refused reason_code)])
      | (t, None) \<Rightarrow> (t, []))"

definition OutcomeTracker_settle_puback ::
  "OutcomeTracker \<Rightarrow> u16 \<Rightarrow> ReasonCode \<Rightarrow> OutcomeTracker \<times> (nat \<times> PublishOutcome) list" where
  "OutcomeTracker_settle_puback t packet_id reason_code =
     (if ReasonCode_is_error reason_code
      then OutcomeTracker_refused t packet_id QoS.AtLeastOnce reason_code
      else OutcomeTracker_acknowledged t packet_id QoS.AtLeastOnce)"

definition OutcomeTracker_abandon_all ::
  "OutcomeTracker \<Rightarrow> IndeterminateReason \<Rightarrow> OutcomeTracker \<times> (nat \<times> PublishOutcome) list" where
  "OutcomeTracker_abandon_all t reason =
     ([], map (\<lambda>(_, tracked). Completion_indeterminate (tr_completion tracked) reason) t)"

subsection \<open>Sequences of calls\<close>

datatype id_call = ClaimId u16 | DropId u16 | QuarantineId u16 | ReleaseQuarantine

fun id_step :: "OutboundIds \<Rightarrow> id_call \<Rightarrow> bool \<times> OutboundIds" where
  "id_step ids (ClaimId p) =
     (case IdReservation_claim ids p of None \<Rightarrow> (False, ids) | Some ids' \<Rightarrow> (True, ids'))"
| "id_step ids (DropId p) = (True, IdReservation_drop ids p)"
| "id_step ids (QuarantineId p) = (True, OutboundIds_quarantine ids p)"
| "id_step ids ReleaseQuarantine = (True, OutboundIds_release_quarantine ids)"

fun id_run :: "OutboundIds \<Rightarrow> id_call list \<Rightarrow> bool list \<times> OutboundIds" where
  "id_run ids [] = ([], ids)"
| "id_run ids (c # cs) =
     (case id_step ids c of (b, ids') \<Rightarrow> case id_run ids' cs of (bs, ids'') \<Rightarrow> (b # bs, ids''))"

text \<open>The specification: two sets of identifiers.\<close>

fun id_spec_step :: "u16 set \<times> u16 set \<Rightarrow> id_call \<Rightarrow> bool \<times> u16 set \<times> u16 set" where
  "id_spec_step (R, Q) (ClaimId p) = (if p \<in> R \<union> Q then (False, R, Q) else (True, insert p R, Q))"
| "id_spec_step (R, Q) (DropId p) = (True, R - {p}, Q)"
| "id_spec_step (R, Q) (QuarantineId p) = (True, R, insert p Q)"
| "id_spec_step (R, Q) ReleaseQuarantine = (True, R, {})"

fun id_spec_run :: "u16 set \<times> u16 set \<Rightarrow> id_call list \<Rightarrow> bool list \<times> u16 set \<times> u16 set" where
  "id_spec_run a [] = ([], a)"
| "id_spec_run a (c # cs) =
     (case id_spec_step a c of (b, a') \<Rightarrow> case id_spec_run a' cs of (bs, a'') \<Rightarrow> (b # bs, a''))"

text \<open>Calls on the outcome tracker; every tracked publish gets the next handle.\<close>

datatype track_call =
    Track u16 QoS | Acknowledge u16 QoS | Refuse u16 QoS ReasonCode | Puback u16 ReasonCode
  | MarkResent u16 | TakeIndeterminate u16 IndeterminateReason | AbandonAll IndeterminateReason

record track_log =
  tl_tracker :: OutcomeTracker
  tl_issued :: "(u16 \<times> QoS) list"
  tl_settled :: "(nat \<times> PublishOutcome) list"

definition track_log_init :: track_log where
  "track_log_init = \<lparr>tl_tracker = [], tl_issued = [], tl_settled = []\<rparr>"

definition log_settled :: "track_log \<Rightarrow> OutcomeTracker \<times> (nat \<times> PublishOutcome) list \<Rightarrow> track_log" where
  "log_settled l r = l\<lparr>tl_tracker := fst r, tl_settled := tl_settled l @ snd r\<rparr>"

fun track_step :: "track_call \<Rightarrow> track_log \<Rightarrow> track_log" where
  "track_step (Track p qos) l =
     (log_settled l (OutcomeTracker_track (tl_tracker l) p qos (Completion_new (length (tl_issued l)))))
       \<lparr>tl_issued := tl_issued l @ [(p, qos)]\<rparr>"
| "track_step (Acknowledge p qos) l = log_settled l (OutcomeTracker_acknowledged (tl_tracker l) p qos)"
| "track_step (Refuse p qos r) l = log_settled l (OutcomeTracker_refused (tl_tracker l) p qos r)"
| "track_step (Puback p r) l = log_settled l (OutcomeTracker_settle_puback (tl_tracker l) p r)"
| "track_step (MarkResent p) l = l\<lparr>tl_tracker := OutcomeTracker_mark_resent (tl_tracker l) p\<rparr>"
| "track_step (TakeIndeterminate p reason) l =
     log_settled l
       (case OutcomeTracker_take (tl_tracker l) p of
          (t, Some c) \<Rightarrow> (t, [Completion_indeterminate c reason]) | (t, None) \<Rightarrow> (t, []))"
| "track_step (AbandonAll reason) l = log_settled l (OutcomeTracker_abandon_all (tl_tracker l) reason)"

subsection \<open>The bit set is a set\<close>

text \<open>What the reservations need of a set of identifiers.\<close>

locale id_set =
  fixes valid :: "'s \<Rightarrow> bool"
    and empty_set :: 's
    and ins :: "'s \<Rightarrow> u16 \<Rightarrow> 's"
    and del :: "'s \<Rightarrow> u16 \<Rightarrow> 's"
    and mem :: "'s \<Rightarrow> u16 \<Rightarrow> bool"
  assumes valid_empty: "valid empty_set"
    and valid_ins: "valid s \<Longrightarrow> valid (ins s p)"
    and valid_del: "valid s \<Longrightarrow> valid (del s p)"
    and mem_empty: "\<not> mem empty_set p"
    and mem_ins: "valid s \<Longrightarrow> mem (ins s p) q \<longleftrightarrow> q = p \<or> mem s q"
    and mem_del: "valid s \<Longrightarrow> mem (del s p) q \<longleftrightarrow> q \<noteq> p \<and> mem s q"
begin

definition elems :: "'s \<Rightarrow> u16 set" where
  "elems s = {p. mem s p}"

lemma elems_empty: "elems empty_set = {}"
  by (simp add: elems_def mem_empty)

lemma elems_ins: "valid s \<Longrightarrow> elems (ins s p) = insert p (elems s)"
  by (auto simp: elems_def mem_ins)

lemma elems_del: "valid s \<Longrightarrow> elems (del s p) = elems s - {p}"
  by (auto simp: elems_def mem_del)

lemma mem_elems: "mem s p \<longleftrightarrow> p \<in> elems s"
  by (simp add: elems_def)

end

lemma bit_index_eq_iff: "p div 64 = q div 64 \<and> p mod 64 = q mod 64 \<longleftrightarrow> p = q" for p q :: u16
  by (metis mult_div_mod_eq)

lemma bit_word_lt: "unat (p div 64) < PACKET_ID_WORDS" for p :: u16
proof -
  have "unat p div 64 < 1024"
    using unat_u16_le [of p] by simp
  then show ?thesis
    by (simp add: PACKET_ID_WORDS_def unat_div)
qed

lemma bit_mod_lt: "unat (p mod 64) < 64" for p :: u16
  by (simp add: unat_mod)

lemma contains_iff_bit:
  "PacketIdSet_contains words p \<longleftrightarrow> bit (words ! unat (p div 64)) (unat (p mod 64))"
  by (simp add: PacketIdSet_contains_def PacketIdSet_bit_def and_exp_eq_0_iff_not_bit push_bit_of_1)

lemma bit_position:
  "bit (2 ^ n :: u64) m \<longleftrightarrow> m = n \<and> n < 64"
  by (auto simp: bit_exp_iff)

lemma contains_insert:
  assumes "length words = PACKET_ID_WORDS"
  shows "PacketIdSet_contains (PacketIdSet_insert words p) q
    \<longleftrightarrow> q = p \<or> PacketIdSet_contains words q"
  using assms bit_word_lt [of p] bit_mod_lt [of p] bit_index_eq_iff [of q p]
  by (cases "q div 64 = p div 64")
    (auto simp: contains_iff_bit PacketIdSet_insert_def PacketIdSet_bit_def bit_or_iff bit_position
      word_unat_eq_iff nth_list_update)

lemma contains_remove:
  assumes "length words = PACKET_ID_WORDS"
  shows "PacketIdSet_contains (PacketIdSet_remove words p) q
    \<longleftrightarrow> q \<noteq> p \<and> PacketIdSet_contains words q"
  using assms bit_word_lt [of p] bit_mod_lt [of p] bit_mod_lt [of q] bit_index_eq_iff [of q p]
  by (cases "q div 64 = p div 64")
    (auto simp: contains_iff_bit PacketIdSet_remove_def PacketIdSet_bit_def bit_and_iff bit_not_iff
      bit_position word_unat_eq_iff nth_list_update)

lemma default_contains: "\<not> PacketIdSet_contains PacketIdSet_default p"
  by (simp add: contains_iff_bit PacketIdSet_default_def bit_word_lt)

lemma default_length: "length PacketIdSet_default = PACKET_ID_WORDS"
  by (simp add: PacketIdSet_default_def)

lemma insert_length: "length (PacketIdSet_insert words p) = length words"
  by (simp add: PacketIdSet_insert_def split: prod.split)

lemma remove_length: "length (PacketIdSet_remove words p) = length words"
  by (simp add: PacketIdSet_remove_def split: prod.split)

interpretation id_bits: id_set "\<lambda>words. length words = PACKET_ID_WORDS" PacketIdSet_default
  PacketIdSet_insert PacketIdSet_remove PacketIdSet_contains
  by unfold_locales
    (simp_all add: contains_insert contains_remove default_contains insert_length remove_length
      default_length)

subsection \<open>Reservations refine two sets\<close>

definition ids_ok :: "OutboundIds \<Rightarrow> bool" where
  "ids_ok ids \<longleftrightarrow> length (oi_reserved ids) = PACKET_ID_WORDS \<and> length (oi_quarantined ids) = PACKET_ID_WORDS"

definition ids_abs :: "OutboundIds \<Rightarrow> u16 set \<times> u16 set" where
  "ids_abs ids = (id_bits.elems (oi_reserved ids), id_bits.elems (oi_quarantined ids))"

lemma ids_holds_abs:
  "OutboundIds_holds ids p \<longleftrightarrow> p \<in> fst (ids_abs ids) \<union> snd (ids_abs ids)"
  by (simp add: OutboundIds_holds_def ids_abs_def id_bits.mem_elems)

lemma clear_default: "PacketIdSet_clear words = PacketIdSet_default"
  by (simp add: PacketIdSet_clear_def PacketIdSet_default_def)

lemma id_step_refines:
  assumes "ids_ok ids" "id_step ids c = (b, ids')"
  shows "ids_ok ids' \<and> id_spec_step (ids_abs ids) c = (b, ids_abs ids')"
  using assms
  by (cases c)
    (auto simp: ids_ok_def ids_abs_def IdReservation_claim_def IdReservation_drop_def
      OutboundIds_quarantine_def OutboundIds_release_quarantine_def OutboundIds_holds_def
      id_bits.elems_ins id_bits.elems_del id_bits.elems_empty id_bits.mem_elems clear_default
      insert_length remove_length default_length split: if_splits)

lemma id_run_refines:
  assumes "ids_ok ids" "id_run ids cs = (bs, ids')"
  shows "ids_ok ids' \<and> id_spec_run (ids_abs ids) cs = (bs, ids_abs ids')"
  using assms
proof (induction cs arbitrary: ids bs)
  case (Cons c cs)
  obtain b ids1 bs1 where 1: "id_step ids c = (b, ids1)" "id_run ids1 cs = (bs1, ids')" "bs = b # bs1"
    using Cons.prems(2) by (auto split: prod.splits)
  from id_step_refines [OF Cons.prems(1) 1(1)] Cons.IH [OF _ 1(2)] show ?case
    by (simp add: 1(3))
qed simp

lemma ids_ok_default: "ids_ok OutboundIds_default"
  by (simp add: ids_ok_def OutboundIds_default_def default_length)

lemma ids_abs_default: "ids_abs OutboundIds_default = ({}, {})"
  by (simp add: ids_abs_def OutboundIds_default_def id_bits.elems_empty)

subsection \<open>Every publish settles once\<close>

abbreviation flying :: "OutcomeTracker \<Rightarrow> nat list" where
  "flying t \<equiv> map (co_outcome \<circ> tr_completion \<circ> snd) t"

definition outcome_fits :: "(u16 \<times> QoS) list \<Rightarrow> nat \<times> PublishOutcome \<Rightarrow> bool" where
  "outcome_fits issued r \<longleftrightarrow>
     fst r < length issued
     \<and> (case snd r of
          Delivered d \<Rightarrow> d = Delivery_of (snd (issued ! fst r)) (Some (fst (issued ! fst r))) | _ \<Rightarrow> True)"

definition tracked_fits :: "(u16 \<times> QoS) list \<Rightarrow> u16 \<times> Tracked \<Rightarrow> bool" where
  "tracked_fits issued e \<longleftrightarrow>
     co_outcome (tr_completion (snd e)) < length issued
     \<and> issued ! co_outcome (tr_completion (snd e)) = (fst e, tr_qos (snd e))"

definition track_inv :: "track_log \<Rightarrow> bool" where
  "track_inv l \<longleftrightarrow>
     distinct (map fst (tl_tracker l))
     \<and> mset (map fst (tl_settled l)) + mset (flying (tl_tracker l)) = mset [0..<length (tl_issued l)]
     \<and> list_all (outcome_fits (tl_issued l)) (tl_settled l)
     \<and> list_all (tracked_fits (tl_issued l)) (tl_tracker l)"


lemma take_log:
  assumes "track_inv l" "map_of (tl_tracker l) p = Some tracked"
    and "outcome_fits (tl_issued l) (co_outcome (tr_completion tracked), oc)"
  shows "track_inv (log_settled l
    (AList.delete p (tl_tracker l), [Completion_settle (tr_completion tracked) oc]))"
proof -
  have "mset (tl_tracker l) = add_mset (p, tracked) (mset (AList.delete p (tl_tracker l)))"
    using assms(1,2) by (intro alist_delete_mset) (simp_all add: track_inv_def)
  with assms show ?thesis
    by (simp add: track_inv_def log_settled_def Completion_settle_def alist_distinct
        list_all_alist_delete)
qed

lemma tracked_at:
  assumes "track_inv l" "map_of (tl_tracker l) p = Some tracked"
  shows "co_outcome (tr_completion tracked) < length (tl_issued l)"
    and "tl_issued l ! co_outcome (tr_completion tracked) = (p, tr_qos tracked)"
  using assms by (auto simp: track_inv_def tracked_fits_def list_all_iff dest!: map_of_SomeD)

lemma log_nothing: "track_inv l \<Longrightarrow> track_inv (log_settled l (tl_tracker l, []))"
  by (simp add: track_inv_def log_settled_def)

lemma acknowledged_inv:
  assumes "track_inv l"
  shows "track_inv (log_settled l (OutcomeTracker_acknowledged (tl_tracker l) p qos))"
  using assms tracked_at [OF assms] take_log [OF assms]
  by (auto simp: OutcomeTracker_acknowledged_def OutcomeTracker_take_matching_def OutcomeTracker_take_def
      Completion_delivered_def outcome_fits_def log_nothing split: option.split)

lemma refused_inv:
  assumes "track_inv l"
  shows "track_inv (log_settled l (OutcomeTracker_refused (tl_tracker l) p qos r))"
  using assms tracked_at [OF assms] take_log [OF assms]
  by (auto simp: OutcomeTracker_refused_def OutcomeTracker_take_matching_def OutcomeTracker_take_def
      Completion_rejected_def outcome_fits_def log_nothing split: option.split)

lemma outcome_fits_snoc: "outcome_fits is r \<Longrightarrow> outcome_fits (is @ [i]) r"
  by (auto simp: outcome_fits_def nth_append split: PublishOutcome.split)

lemma tracked_fits_snoc: "tracked_fits is e \<Longrightarrow> tracked_fits (is @ [i]) e"
  by (auto simp: tracked_fits_def nth_append)

lemma track_inv_snoc:
  assumes "track_inv l"
  shows "track_inv ((log_settled l (OutcomeTracker_track (tl_tracker l) p qos
    (Completion_new (length (tl_issued l)))))\<lparr>tl_issued := tl_issued l @ [(p, qos)]\<rparr>)"
proof -
  let ?n = "length (tl_issued l)"
  have olds: "list_all (outcome_fits (tl_issued l @ [(p, qos)])) (tl_settled l)"
      "list_all (tracked_fits (tl_issued l @ [(p, qos)])) (tl_tracker l)"
    using assms by (auto simp: track_inv_def list_all_iff outcome_fits_snoc tracked_fits_snoc)
  show ?thesis
  proof (cases "map_of (tl_tracker l) p")
    case None
    then have "OutcomeTracker_track (tl_tracker l) p qos (Completion_new ?n)
        = (tl_tracker l @ [(p, \<lparr>tr_qos = qos, tr_completion = Completion_new ?n\<rparr>)], [])"
      by (simp add: OutcomeTracker_track_def alist_update_fresh)
    moreover have "p \<notin> fst ` set (tl_tracker l)"
      using None by (simp add: map_of_eq_None_iff)
    ultimately show ?thesis
      using assms olds
      by (simp add: track_inv_def log_settled_def tracked_fits_def Completion_new_def)
  next
    case (Some _)
    then have "OutcomeTracker_track (tl_tracker l) p qos (Completion_new ?n)
        = (tl_tracker l, [(?n, Indeterminate Abandoned)])"
      by (simp add: OutcomeTracker_track_def Completion_indeterminate_def Completion_settle_def
          Completion_new_def)
    with assms olds show ?thesis
      by (simp add: track_inv_def log_settled_def outcome_fits_def)
  qed
qed

lemma mark_resent_inv:
  assumes "track_inv l"
  shows "track_inv (l\<lparr>tl_tracker := OutcomeTracker_mark_resent (tl_tracker l) p\<rparr>)"
proof (cases "map_of (tl_tracker l) p")
  case (Some tracked)
  let ?v = "tracked\<lparr>tr_completion := Completion_mark_resent (tr_completion tracked)\<rparr>"
  have "flying (AList.update p ?v (tl_tracker l)) = flying (tl_tracker l)"
    by (rule alist_update_map [OF Some]) (simp add: Completion_mark_resent_def)
  moreover have "list_all (tracked_fits (tl_issued l)) (AList.update p ?v (tl_tracker l))"
    using assms tracked_at [OF assms Some]
    by (intro list_all_alist_update) (auto simp: track_inv_def tracked_fits_def Completion_mark_resent_def)
  ultimately show ?thesis
    using assms Some by (simp add: track_inv_def OutcomeTracker_mark_resent_def alist_distinct)
qed (use assms in \<open>simp add: OutcomeTracker_mark_resent_def\<close>)

lemma abandon_all_inv:
  assumes "track_inv l"
  shows "track_inv (log_settled l (OutcomeTracker_abandon_all (tl_tracker l) reason))"
proof -
  have "fst \<circ> (\<lambda>(_, tracked). Completion_indeterminate (tr_completion tracked) reason)
      = co_outcome \<circ> tr_completion \<circ> (snd :: u16 \<times> Tracked \<Rightarrow> Tracked)"
    by (auto simp: Completion_indeterminate_def Completion_settle_def)
  moreover have "list_all (outcome_fits (tl_issued l)) (snd (OutcomeTracker_abandon_all (tl_tracker l) reason))"
    using assms
    by (auto simp: OutcomeTracker_abandon_all_def Completion_indeterminate_def Completion_settle_def
        outcome_fits_def track_inv_def tracked_fits_def list_all_iff)
  ultimately show ?thesis
    using assms by (simp add: track_inv_def log_settled_def OutcomeTracker_abandon_all_def)
qed

lemma track_step_inv:
  assumes "track_inv l"
  shows "track_inv (track_step c l)"
proof (cases c)
  case (TakeIndeterminate p reason)
  then show ?thesis
    using assms take_log [OF assms] tracked_at [OF assms]
    by (auto simp: OutcomeTracker_take_def Completion_indeterminate_def outcome_fits_def
        alist_delete_none log_nothing split: option.split)
qed (simp_all add: assms track_inv_snoc acknowledged_inv refused_inv mark_resent_inv abandon_all_inv
      OutcomeTracker_settle_puback_def)

lemma track_run_inv: "track_inv (fold track_step calls track_log_init)"
proof -
  have "track_inv l \<Longrightarrow> track_inv (fold track_step calls l)" for l
    by (induction calls arbitrary: l) (simp_all add: track_step_inv)
  then show ?thesis
    by (simp add: track_inv_def track_log_init_def)
qed

subsection \<open>Properties of the component\<close>

text \<open>
  C28: identifier reservations. The bit sets of reserved and quarantined identifiers behave as two
  sets: after any sequence of claims, drops, quarantines and releases on a new table every claim
  has succeeded or failed as on the sets, so no identifier is ever handed out twice before it is
  dropped, and an identifier is held exactly when it is in one of the sets.
\<close>

theorem reservations_refine_sets:
  "case (id_run OutboundIds_default calls, id_spec_run ({}, {}) calls) of
     ((claimed, ids), (claimed', R, Q)) \<Rightarrow>
       claimed = claimed' \<and> {p. OutboundIds_holds ids p} = R \<union> Q"
proof -
  obtain bs ids where "id_run OutboundIds_default calls = (bs, ids)"
    by fastforce
  moreover from this have "id_spec_run ({}, {}) calls = (bs, ids_abs ids)"
    using id_run_refines [OF ids_ok_default] by (simp add: ids_abs_default)
  ultimately show ?thesis
    by (auto simp: ids_holds_abs split: prod.splits)
qed


end
