(* ===== verification/Connection_State.thy ===== *)
theory Connection_State
  imports Mqtt_Types
begin

text \<open>
  The connection state machine with its reconnection policy (\<open>connection.rs\<close>), the keep-alive
  arithmetic (\<open>keepalive.rs\<close>, \<open>numeric.rs\<close>) and the client's keep-alive task
  (\<open>client/direct/keepalive.rs\<close>). Durations and instants are nanoseconds; milliseconds are 64-bit
  words, because the source saturates and may wrap there. The text an error carries is not kept.
\<close>

definition u128_to_u64_saturating :: "nat \<Rightarrow> u64" where
  "u128_to_u64_saturating v = (if v \<le> 0xFFFFFFFFFFFFFFFF then word_of_nat v else 0xFFFFFFFFFFFFFFFF)"

definition as_millis :: "nat \<Rightarrow> nat" where
  "as_millis d = d div 10 ^ 6"

definition from_millis :: "u64 \<Rightarrow> nat" where
  "from_millis ms = unat ms * 10 ^ 6"

definition saturating_mul :: "u64 \<Rightarrow> u64 \<Rightarrow> u64" where
  "saturating_mul a b = (if unat a * unat b < 2 ^ 64 then a * b else 0xFFFFFFFFFFFFFFFF)"

subsection \<open>Connection states\<close>

datatype ConnectionState = Disconnected | Connecting | Connected | Reconnecting u32

fun ConnectionState_reconnect_attempt :: "ConnectionState \<Rightarrow> u32 option" where
  "ConnectionState_reconnect_attempt (ConnectionState.Reconnecting attempt) = Some attempt"
| "ConnectionState_reconnect_attempt _ = None"

datatype DisconnectReason =
    ClientInitiated | ServerDisconnect ReasonCode | NetworkError | ProtocolError
  | KeepAliveTimeout | AuthFailure

datatype ConnectionEvent =
    Connecting | Connected bool nat | Disconnected DisconnectReason | Reconnecting u32
  | ReconnectFailed MqttError

record ConnectionInfo =
  ci_session_present :: bool
  ci_assigned_client_id :: "string option"
  ci_server_keep_alive :: "u16 option"

definition ConnectionInfo_default :: ConnectionInfo where
  "ConnectionInfo_default =
     \<lparr>ci_session_present = False, ci_assigned_client_id = None, ci_server_keep_alive = None\<rparr>"

record ReconnectConfig =
  rc_enabled :: bool
  rc_initial_delay :: nat
  rc_max_delay :: nat
  rc_backoff_factor_tenths :: u32
  rc_max_attempts :: "u32 option"

definition ReconnectConfig_default :: ReconnectConfig where
  "ReconnectConfig_default =
     \<lparr>rc_enabled = True, rc_initial_delay = 10 ^ 9, rc_max_delay = 60 * 10 ^ 9,
      rc_backoff_factor_tenths = 20, rc_max_attempts = None\<rparr>"

text \<open>The loop of \<open>calculate_delay\<close>; \<open>None\<close> is its early return of the maximal delay.\<close>

fun delay_loop :: "nat \<Rightarrow> u64 \<Rightarrow> u64 \<Rightarrow> u64 \<Rightarrow> u64 option" where
  "delay_loop 0 factor_tenths max_ms delay_tenths = Some delay_tenths"
| "delay_loop (Suc n) factor_tenths max_ms delay_tenths =
     (let delay_tenths = saturating_mul delay_tenths factor_tenths div 10 in
      if delay_tenths div 10 \<ge> max_ms then None
      else delay_loop n factor_tenths max_ms delay_tenths)"

definition ReconnectConfig_calculate_delay :: "ReconnectConfig \<Rightarrow> u32 \<Rightarrow> nat" where
  "ReconnectConfig_calculate_delay cfg attempt =
     (if attempt = 0 then rc_initial_delay cfg
      else
        let initial_ms = u128_to_u64_saturating (as_millis (rc_initial_delay cfg));
            max_ms = u128_to_u64_saturating (as_millis (rc_max_delay cfg));
            factor_tenths = ucast (rc_backoff_factor_tenths cfg)
        in case delay_loop (unat attempt) factor_tenths max_ms (saturating_mul initial_ms 10) of
             None \<Rightarrow> rc_max_delay cfg
           | Some delay_tenths \<Rightarrow> from_millis (min (delay_tenths div 10) max_ms))"

definition ReconnectConfig_should_retry :: "ReconnectConfig \<Rightarrow> u32 \<Rightarrow> bool" where
  "ReconnectConfig_should_retry cfg attempt \<longleftrightarrow>
     rc_enabled cfg \<and> (case rc_max_attempts cfg of Some mx \<Rightarrow> attempt < mx | None \<Rightarrow> True)"

record ConnectionStateMachine =
  csm_state :: ConnectionState
  csm_info :: ConnectionInfo
  csm_reconnect_config :: ReconnectConfig

definition ConnectionStateMachine_new :: "ReconnectConfig \<Rightarrow> ConnectionStateMachine" where
  "ConnectionStateMachine_new cfg =
     \<lparr>csm_state = ConnectionState.Disconnected, csm_info = ConnectionInfo_default, csm_reconnect_config = cfg\<rparr>"

fun ConnectionStateMachine_transition ::
  "ConnectionStateMachine \<Rightarrow> ConnectionEvent \<Rightarrow> ConnectionStateMachine" where
  "ConnectionStateMachine_transition m ConnectionEvent.Connecting = m\<lparr>csm_state := ConnectionState.Connecting\<rparr>"
| "ConnectionStateMachine_transition m (ConnectionEvent.Connected session_present keep_alive) =
     (let secs = keep_alive div 10 ^ 9 in
      m\<lparr>csm_state := ConnectionState.Connected,
        csm_info := (csm_info m)\<lparr>ci_session_present := session_present,
          ci_server_keep_alive := (if secs \<le> 65535 then Some (word_of_nat secs) else None)\<rparr>\<rparr>)"
| "ConnectionStateMachine_transition m (ConnectionEvent.Disconnected _) =
     m\<lparr>csm_state := ConnectionState.Disconnected, csm_info := ConnectionInfo_default\<rparr>"
| "ConnectionStateMachine_transition m (ConnectionEvent.ReconnectFailed _) =
     m\<lparr>csm_state := ConnectionState.Disconnected, csm_info := ConnectionInfo_default\<rparr>"
| "ConnectionStateMachine_transition m (ConnectionEvent.Reconnecting attempt) =
     m\<lparr>csm_state := ConnectionState.Reconnecting attempt\<rparr>"

definition ConnectionStateMachine_next_reconnect_delay :: "ConnectionStateMachine \<Rightarrow> nat option" where
  "ConnectionStateMachine_next_reconnect_delay m =
     (case csm_state m of
        ConnectionState.Disconnected \<Rightarrow>
          if rc_enabled (csm_reconnect_config m)
          then Some (ReconnectConfig_calculate_delay (csm_reconnect_config m) 0) else None
      | ConnectionState.Reconnecting attempt \<Rightarrow>
          if ReconnectConfig_should_retry (csm_reconnect_config m) (attempt + 1)
          then Some (ReconnectConfig_calculate_delay (csm_reconnect_config m) attempt) else None
      | _ \<Rightarrow> None)"

subsection \<open>Keep alive\<close>

record KeepaliveConfig =
  kc_ping_interval_percent :: u8
  kc_timeout_percent :: u8
  kc_lock_retry_attempts :: u32
  kc_lock_retry_delay_ms :: u32

definition KeepaliveConfig_new :: "u8 \<Rightarrow> u8 \<Rightarrow> KeepaliveConfig" where
  "KeepaliveConfig_new ping_interval_percent timeout_percent =
     \<lparr>kc_ping_interval_percent = ping_interval_percent, kc_timeout_percent = timeout_percent,
      kc_lock_retry_attempts = 100, kc_lock_retry_delay_ms = 50\<rparr>"

definition KeepaliveConfig_default :: KeepaliveConfig where
  "KeepaliveConfig_default = KeepaliveConfig_new 75 150"

definition KeepaliveConfig_timeout_duration :: "KeepaliveConfig \<Rightarrow> nat \<Rightarrow> nat" where
  "KeepaliveConfig_timeout_duration cfg keepalive =
     (let millis = u128_to_u64_saturating (as_millis keepalive) in
      from_millis (millis * ucast (kc_timeout_percent cfg) div 100))"

record KeepaliveState =
  ks_last_ping_sent :: "nat option"
  ks_last_pong_received :: "nat option"

definition KeepaliveState_default :: KeepaliveState where
  "KeepaliveState_default = \<lparr>ks_last_ping_sent = None, ks_last_pong_received = None\<rparr>"

definition KeepaliveState_has_outstanding_ping :: "KeepaliveState \<Rightarrow> bool" where
  "KeepaliveState_has_outstanding_ping st =
     (case (ks_last_ping_sent st, ks_last_pong_received st) of
        (Some sent_at, Some received_at) \<Rightarrow> sent_at > received_at
      | (Some _, None) \<Rightarrow> True
      | _ \<Rightarrow> False)"

definition KeepaliveState_record_ping_sent :: "nat \<Rightarrow> KeepaliveState \<Rightarrow> KeepaliveState" where
  "KeepaliveState_record_ping_sent now st = st\<lparr>ks_last_ping_sent := Some now\<rparr>"

definition KeepaliveState_record_pong_received :: "nat \<Rightarrow> KeepaliveState \<Rightarrow> KeepaliveState" where
  "KeepaliveState_record_pong_received now st = st\<lparr>ks_last_pong_received := Some now\<rparr>"

definition KeepaliveState_is_timeout :: "nat \<Rightarrow> nat \<Rightarrow> KeepaliveState \<Rightarrow> bool" where
  "KeepaliveState_is_timeout timeout_duration now st =
     (case (ks_last_ping_sent st, ks_last_pong_received st) of
        (Some sent_at, Some received_at) \<Rightarrow>
          sent_at > received_at \<and> now - sent_at > timeout_duration
      | (Some sent_at, None) \<Rightarrow> now - sent_at > timeout_duration
      | _ \<Rightarrow> False)"

text \<open>
  One turn of the keep-alive task: the tick reads the clock for the timeout check (\<open>now\<close>) and again
  when it records the ping (\<open>now'\<close>); \<open>sent\<close> is what became of the PINGREQ.
\<close>

datatype send_result = Sent | SendFailed | SendTimedOut

datatype keepalive_status = Running KeepaliveState | Ended DisconnectReason

definition keepalive_tick :: "nat \<Rightarrow> nat \<Rightarrow> nat \<Rightarrow> send_result \<Rightarrow> KeepaliveState \<Rightarrow> keepalive_status" where
  "keepalive_tick timeout_duration now now' sent st =
     (if KeepaliveState_is_timeout timeout_duration now st then Ended KeepAliveTimeout
      else
        let should_send_ping = \<not> KeepaliveState_has_outstanding_ping st;
            st = (if should_send_ping then KeepaliveState_record_ping_sent now' st else st)
        in if \<not> should_send_ping then Running st
           else case sent of Sent \<Rightarrow> Running st | _ \<Rightarrow> Ended NetworkError)"

datatype keepalive_event = Tick nat nat send_result | Pong nat

fun keepalive_step :: "nat \<Rightarrow> keepalive_event \<Rightarrow> KeepaliveState \<Rightarrow> keepalive_status" where
  "keepalive_step timeout_duration (Tick now now' sent) st = keepalive_tick timeout_duration now now' sent st"
| "keepalive_step timeout_duration (Pong now) st = Running (KeepaliveState_record_pong_received now st)"

fun keepalive_run :: "nat \<Rightarrow> keepalive_event list \<Rightarrow> KeepaliveState \<Rightarrow> keepalive_status" where
  "keepalive_run timeout_duration [] st = Running st"
| "keepalive_run timeout_duration (e # es) st =
     (case keepalive_step timeout_duration e st of
        Running st' \<Rightarrow> keepalive_run timeout_duration es st'
      | Ended r \<Rightarrow> Ended r)"


subsection \<open>The reconnection delay\<close>

lemma unat_saturating_mul: "unat (saturating_mul a b) = min (unat a * unat b) (2 ^ 64 - 1)"
  by (simp add: saturating_mul_def unat_mult_lem [THEN iffD1])

lemma unat_saturating: "unat (u128_to_u64_saturating v) = min v (2 ^ 64 - 1)"
  by (simp add: u128_to_u64_saturating_def unat_of_nat take_bit_nat_eq_self)

lemma delay_loop_closed:
  assumes "unat factor_tenths = 10 * k" "0 < k" "unat max_ms \<le> (2 ^ 64 - 1) div 100" "0 < n"
    and "unat d = min (10 * i) (2 ^ 64 - 1)"
  shows "map_option unat (delay_loop n factor_tenths max_ms d) =
    (if unat max_ms \<le> i * k ^ n then None else Some (10 * (i * k ^ n)))"
  using assms(4,5)
proof (induction n arbitrary: d i)
  case (Suc n)
  let ?d = "saturating_mul d factor_tenths div 10"
  have grow: "unat max_ms \<le> i * (k * k ^ n)" if "unat max_ms \<le> i * k"
    using that assms(2) order_trans [OF that, of "i * k * k ^ n"] by (simp add: ac_simps)
  have d': "unat ?d = min (unat d * (10 * k)) (2 ^ 64 - 1) div 10"
    by (simp add: unat_div unat_saturating_mul assms(1))
  show ?case
  proof (cases "10 * i * (10 * k) < 2 ^ 64")
    case True
    then have "10 * i < 2 ^ 64"
      using assms(2) by (metis le_less_trans mult_le_mono2 mult.right_neutral One_nat_def Suc_leI nat_0_less_mult_iff zero_less_numeral)
    with True have eq: "unat ?d = 10 * (i * k)"
      unfolding d' Suc.prems(2) by simp
    then have le: "max_ms \<le> ?d div 10 \<longleftrightarrow> unat max_ms \<le> i * k"
      by (simp add: word_le_nat_alt unat_div)
    show ?thesis
    proof (cases "unat max_ms \<le> i * k")
      case True
      then show ?thesis
        using le grow by simp
    next
      case False
      then show ?thesis
      proof (cases "n = 0")
        case True
        with False le eq show ?thesis
          by simp
      next
        case False
        have "unat ?d = min (10 * (i * k)) (2 ^ 64 - 1)"
          using True eq by simp
        from Suc.IH [OF _ this] False \<open>\<not> unat max_ms \<le> i * k\<close> le show ?thesis
          by (simp add: ac_simps)
      qed
    qed
  next
    case False
    have "2 ^ 64 - 1 \<le> unat d * (10 * k)"
      unfolding Suc.prems(2) using False assms(2) by (auto simp: min_def ac_simps)
    then have "unat ?d = (2 ^ 64 - 1) div 10"
      unfolding d' by simp
    then have "unat max_ms \<le> unat (?d div 10)"
      using assms(3) by (simp add: unat_div)
    moreover have "unat max_ms \<le> i * k"
      using False assms(3) by simp
    ultimately show ?thesis
      using grow by (simp add: word_le_nat_alt)
  qed
qed simp

subsection \<open>The keep-alive task\<close>

fun is_tick :: "keepalive_event \<Rightarrow> bool" where
  "is_tick (Tick _ _ _) = True"
| "is_tick (Pong _) = False"

fun read_times :: "keepalive_event \<Rightarrow> nat list" where
  "read_times (Tick now now' _) = [now, now']"
| "read_times (Pong now) = [now]"

text \<open>The clock readings of a run: they never decrease, and grow from one event to the next.\<close>

fun clock_ok :: "keepalive_event list \<Rightarrow> bool" where
  "clock_ok [] = True"
| "clock_ok (e # es) \<longleftrightarrow>
     sorted (read_times e) \<and> (\<forall>e' \<in> set es. last (read_times e) < hd (read_times e')) \<and> clock_ok es"

fun ping_sent_ok :: "keepalive_event \<Rightarrow> bool" where
  "ping_sent_ok (Tick _ _ sent) \<longleftrightarrow> sent = Sent"
| "ping_sent_ok (Pong _) = True"

definition since_pong :: "keepalive_event list \<Rightarrow> keepalive_event list" where
  "since_pong es = rev (takeWhile is_tick (rev es))"

definition keepalive_inv :: "keepalive_event list \<Rightarrow> KeepaliveState \<Rightarrow> bool" where
  "keepalive_inv es st \<longleftrightarrow>
     (\<forall>p. ks_last_pong_received st = Some p \<longrightarrow> (\<exists>e \<in> set es. p = last (read_times e)))
     \<and> (\<forall>p. ks_last_ping_sent st = Some p \<longrightarrow> (\<exists>e \<in> set es. p = last (read_times e)))
     \<and> (case since_pong es of
          [] \<Rightarrow> \<not> KeepaliveState_has_outstanding_ping st
        | e # _ \<Rightarrow> ks_last_ping_sent st = Some (last (read_times e))
            \<and> KeepaliveState_has_outstanding_ping st)"


lemma since_pong_snoc:
  "since_pong (es @ [e]) = (if is_tick e then since_pong es @ [e] else [])"
  by (simp add: since_pong_def)

lemma clock_ok_snocD:
  assumes "clock_ok (es @ [e])"
  shows "clock_ok es" "sorted (read_times e)" "e' \<in> set es \<Longrightarrow> last (read_times e') < hd (read_times e)"
  using assms by (induction es) auto

lemma since_pong_subset: "set (since_pong es) \<subseteq> set es"
  by (auto simp: since_pong_def dest: set_takeWhileD)

lemma since_pong_ticks: "e \<in> set (since_pong es) \<Longrightarrow> is_tick e"
  by (auto simp: since_pong_def dest: set_takeWhileD)

lemma keepalive_run_append:
  "keepalive_run t (es @ es') st =
     (case keepalive_run t es st of Running st' \<Rightarrow> keepalive_run t es' st' | Ended r \<Rightarrow> Ended r)"
  by (induction es arbitrary: st) (auto split: keepalive_status.split)

text \<open>Some ping has been unanswered for longer than the timeout at some tick of the run.\<close>

definition unanswered :: "nat \<Rightarrow> keepalive_event list \<Rightarrow> bool" where
  "unanswered t es \<longleftrightarrow>
     (\<exists>pre a s mid b n r post. es = pre @ Tick a s Sent # mid @ Tick b n r # post
        \<and> s + t < b \<and> (\<forall>p. Pong p \<notin> set mid))"

lemma unanswered_snoc:
  "unanswered t (es @ [e]) \<longleftrightarrow>
     unanswered t es
     \<or> (\<exists>pre a s mid b n r. es = pre @ Tick a s Sent # mid \<and> e = Tick b n r \<and> s + t < b
          \<and> (\<forall>p. Pong p \<notin> set mid))"
  (is "?l \<longleftrightarrow> ?r")
proof
  assume ?l
  then obtain pre a s mid b n r post where
    *: "es @ [e] = pre @ Tick a s Sent # mid @ Tick b n r # post" "s + t < b" "\<forall>p. Pong p \<notin> set mid"
    unfolding unanswered_def by blast
  show ?r
  proof (cases post rule: rev_cases)
    case Nil
    with *(1) have "es = pre @ Tick a s Sent # mid" "e = Tick b n r"
      by (simp_all flip: append_assoc append_Cons)
    with *(2,3) show ?thesis
      by blast
  next
    case (snoc post' e')
    with *(1) have "es = pre @ Tick a s Sent # mid @ Tick b n r # post'"
      by (simp flip: append_assoc append_Cons)
    with *(2,3) show ?thesis
      unfolding unanswered_def by blast
  qed
next
  assume ?r
  then show ?l
    unfolding unanswered_def by (elim disjE exE conjE) (force+)
qed

lemma since_pong_suffix:
  assumes "\<forall>p. Pong p \<notin> set mid"
  shows "\<exists>xs. since_pong (pre @ Tick a s r # mid) = xs @ Tick a s r # mid \<and> set xs \<subseteq> set pre"
proof -
  have "\<forall>e \<in> set mid. is_tick e"
    using assms by (metis is_tick.elims(3))
  then have "since_pong (pre @ Tick a s r # mid) = since_pong pre @ Tick a s r # mid"
    by (simp add: since_pong_def takeWhile_append)
  with since_pong_subset show ?thesis
    by blast
qed

lemma since_pong_split:
  assumes "since_pong es = e # xs"
  shows "\<exists>pre. es = pre @ e # xs \<and> (\<forall>p. Pong p \<notin> set xs)"
proof -
  have "rev es = takeWhile is_tick (rev es) @ dropWhile is_tick (rev es)"
    by simp
  then have "es = rev (dropWhile is_tick (rev es)) @ since_pong es"
    by (metis rev_append rev_rev_ident since_pong_def)
  moreover have "\<forall>p. Pong p \<notin> set xs"
    using assms since_pong_ticks [of _ es] by (metis is_tick.simps(2) list.set_intros(2))
  ultimately show ?thesis
    using assms by auto
qed

lemma unanswered_now:
  assumes ok: "clock_ok (es @ [Tick b n r])" and sent: "\<forall>e \<in> set es. ping_sent_ok e"
  shows "(\<exists>pre a s mid. es = pre @ Tick a s Sent # mid \<and> s + t < b \<and> (\<forall>p. Pong p \<notin> set mid))
    \<longleftrightarrow> (case since_pong es of [] \<Rightarrow> False | e # _ \<Rightarrow> last (read_times e) + t < b)"
  (is "?l \<longleftrightarrow> ?r")
proof
  assume ?l
  then obtain pre a s mid where *: "es = pre @ Tick a s Sent # mid" "s + t < b" "\<forall>p. Pong p \<notin> set mid"
    by blast
  obtain xs where xs: "since_pong es = xs @ Tick a s Sent # mid" "set xs \<subseteq> set pre"
    using since_pong_suffix [OF *(3)] *(1) by blast
  have "last (read_times e) \<le> s" if "e \<in> set xs" for e
  proof -
    have "clock_ok (pre @ [Tick a s Sent])"
      using ok *(1) by (induction pre arbitrary: es) auto
    from clock_ok_snocD(2,3) [OF this] xs(2) that show ?thesis
      by fastforce
  qed
  with xs(1) *(2) show ?r
    by (cases xs) fastforce+
next
  assume ?r
  then obtain e xs where e: "since_pong es = e # xs" "last (read_times e) + t < b"
    by (auto split: list.splits)
  obtain pre where pre: "es = pre @ e # xs" "\<forall>p. Pong p \<notin> set xs"
    using since_pong_split [OF e(1)] by blast
  obtain a s where "e = Tick a s Sent"
    using since_pong_ticks [of e es] e(1) sent pre(1)
    by (cases e) auto
  with e(2) pre show ?l
    by auto
qed

lemma keepalive_inv_timeout:
  assumes "keepalive_inv es st"
  shows "KeepaliveState_is_timeout t b st
    \<longleftrightarrow> (case since_pong es of [] \<Rightarrow> False | e # _ \<Rightarrow> last (read_times e) + t < b)"
  using assms
  by (auto simp: keepalive_inv_def KeepaliveState_is_timeout_def KeepaliveState_has_outstanding_ping_def
      split: list.splits option.splits)

lemma keepalive_inv_tick:
  assumes inv: "keepalive_inv es st" and ok: "clock_ok (es @ [Tick b n r])"
  shows "keepalive_inv (es @ [Tick b n r])
    (if KeepaliveState_has_outstanding_ping st then st else KeepaliveState_record_ping_sent n st)"
proof (cases "KeepaliveState_has_outstanding_ping st")
  case True
  with inv show ?thesis
    by (auto simp: keepalive_inv_def since_pong_snoc split: list.splits)
next
  case False
  have "p < n" if "ks_last_pong_received st = Some p" for p
    using inv that clock_ok_snocD(2,3) [OF ok] by (fastforce simp: keepalive_inv_def)
  moreover have "since_pong es = []"
    using inv False by (auto simp: keepalive_inv_def split: list.splits)
  ultimately show ?thesis
    using inv False
    by (auto simp: keepalive_inv_def since_pong_snoc KeepaliveState_record_ping_sent_def
        KeepaliveState_has_outstanding_ping_def split: option.splits)
qed

lemma keepalive_exact:
  assumes "clock_ok es" "\<forall>e \<in> set es. ping_sent_ok e"
  shows "case keepalive_run t es KeepaliveState_default of
      Running st \<Rightarrow> \<not> unanswered t es \<and> keepalive_inv es st
    | Ended reason \<Rightarrow> unanswered t es \<and> reason = KeepAliveTimeout"
  using assms
proof (induction es rule: rev_induct)
  case Nil
  then show ?case
    by (simp add: unanswered_def keepalive_inv_def KeepaliveState_default_def since_pong_def
        KeepaliveState_has_outstanding_ping_def)
next
  case (snoc e es)
  note ok = clock_ok_snocD [OF snoc.prems(1)]
  have IH: "case keepalive_run t es KeepaliveState_default of
      Running st \<Rightarrow> \<not> unanswered t es \<and> keepalive_inv es st
    | Ended reason \<Rightarrow> unanswered t es \<and> reason = KeepAliveTimeout"
    using snoc ok(1) by simp
  show ?case
  proof (cases "keepalive_run t es KeepaliveState_default")
    case (Ended reason)
    with IH show ?thesis
      by (simp add: keepalive_run_append unanswered_snoc)
  next
    case (Running st)
    with IH have inv: "\<not> unanswered t es" "keepalive_inv es st"
      by simp_all
    show ?thesis
    proof (cases e)
      case (Pong p)
      with inv ok have "keepalive_inv (es @ [e]) (KeepaliveState_record_pong_received p st)"
        by (fastforce simp: keepalive_inv_def since_pong_snoc KeepaliveState_record_pong_received_def
            KeepaliveState_has_outstanding_ping_def split: option.splits)
      with Running inv Pong show ?thesis
        by (simp add: keepalive_run_append unanswered_snoc)
    next
      case (Tick b n r)
      have now: "unanswered t (es @ [e]) \<longleftrightarrow> KeepaliveState_is_timeout t b st"
        using keepalive_inv_timeout [OF inv(2)] unanswered_now [of es b n r t] snoc.prems inv(1) Tick
        by (simp add: unanswered_snoc)
      have sent: "r = Sent"
        using snoc.prems(2) Tick by simp
      from keepalive_inv_tick [OF inv(2), of b n r] snoc.prems(1) Running Tick now sent show ?thesis
        by (auto simp: keepalive_run_append keepalive_tick_def Let_def)
    qed
  qed
qed


lemma timeout_default:
  assumes "secs \<le> 65535"
  shows "KeepaliveConfig_timeout_duration KeepaliveConfig_default (secs * 10 ^ 9) = secs * 1500000000"
proof -
  let ?ms = "u128_to_u64_saturating (secs * 1000)"
  have ms: "unat ?ms = secs * 1000"
    using assms by (simp add: unat_saturating)
  then have "unat (?ms * 150) = secs * 1000 * 150"
    using assms by (subst unat_mult_lem [THEN iffD1]) simp_all
  then have "unat (?ms * 150 div 100) = secs * 1500"
    by (simp add: unat_div)
  then show ?thesis
    by (simp add: KeepaliveConfig_timeout_duration_def KeepaliveConfig_default_def
        KeepaliveConfig_new_def as_millis_def from_millis_def Let_def mult.commute [of 1000])
qed

lemma delay_bounded:
  assumes "attempt \<noteq> 0"
  shows "ReconnectConfig_calculate_delay cfg attempt \<le> rc_max_delay cfg"
proof -
  let ?max = "u128_to_u64_saturating (as_millis (rc_max_delay cfg))"
  have "unat ?max * 10 ^ 6 \<le> rc_max_delay cfg"
    using le_trans [OF mult_le_mono1 [OF min.cobounded1] div_times_less_eq_dividend,
        of "rc_max_delay cfg" "10 ^ 6" "2 ^ 64 - 1"]
    by (simp only: unat_saturating as_millis_def)
  then have "from_millis (min d ?max) \<le> rc_max_delay cfg" for d
    using order_trans [of "unat (min d ?max) * 10 ^ 6" "unat ?max * 10 ^ 6"]
    by (simp add: from_millis_def min_def word_le_nat_alt)
  with assms show ?thesis
    by (simp add: ReconnectConfig_calculate_delay_def Let_def split: option.split)
qed

subsection \<open>Properties of the component\<close>



text \<open>
  C31: keep-alive detection. In every run of the client's keep-alive task whose pings can be written
  and whose clock advances between events, the task ends the connection exactly when at some tick
  a ping sent more than one and a half times the keep-alive interval before is still unanswered:
  no live peer is dropped and no silent one is kept.
\<close>

theorem keepalive_detects_silence:
  assumes "clock_ok es" "\<forall>e \<in> set es. ping_sent_ok e" "secs \<le> 65535"
  shows "keepalive_run (KeepaliveConfig_timeout_duration KeepaliveConfig_default (secs * 10 ^ 9)) es
      KeepaliveState_default = Ended KeepAliveTimeout
    \<longleftrightarrow> (\<exists>pre a s mid b n r post. es = pre @ Tick a s Sent # mid @ Tick b n r # post
          \<and> s + secs * 1500000000 < b \<and> (\<forall>p. Pong p \<notin> set mid))"
  using keepalive_exact [OF assms(1,2), of "secs * 1500000000"]
  unfolding timeout_default [OF assms(3)] unanswered_def by (auto split: keepalive_status.splits)

theorem keepalive_detects_silence_witness:
  "keepalive_run (KeepaliveConfig_timeout_duration KeepaliveConfig_default (60 * 10 ^ 9))
     [Tick 0 1 Sent, Tick 45000000000 45000000000 Sent, Tick 90000000002 90000000002 Sent]
     KeepaliveState_default = Ended KeepAliveTimeout"
proof -
  let ?es = "[Tick 0 1 Sent, Tick 45000000000 45000000000 Sent, Tick 90000000002 90000000002 Sent]"
  have "?es = [] @ Tick 0 1 Sent # [Tick 45000000000 45000000000 Sent]
      @ Tick 90000000002 90000000002 Sent # []"
    by simp
  moreover have "clock_ok ?es" "\<forall>e \<in> set ?es. ping_sent_ok e"
    by simp_all
  ultimately show ?thesis
    by (subst keepalive_detects_silence) (simp, simp, simp, fastforce)
qed

end
