(* ===== verification/Client_Exchange.thy ===== *)
theory Client_Exchange
  imports Packet_Io Topic_Alias Session_State Publish_Tracking Connection_State
begin

text \<open>
  How the client handles a received packet (\<open>client/direct/reader.rs\<close>, \<open>client/direct/handlers.rs\<close>)
  and how it sends and replays publishes (\<open>client/direct/mod.rs\<close>, \<open>client/direct/replay.rs\<close>), for a
  connection without deferred acknowledgements, payload codecs and QUIC flows. The transport is the
  argument \<open>wr\<close>, which says whether a packet can be written. A handler returns the new state, its
  effects (packets written, send quota released, publish outcomes settled, messages handed to the
  callbacks, acknowledgements handed to waiting subscribe and unsubscribe calls) and its result;
  after an error the reader closes the connection. The application's authentication handler is an
  argument.
\<close>

record Client =
  cl_session :: SessionState
  cl_outcomes :: OutcomeTracker
  cl_topic_aliases :: TopicAliasManager
  cl_topic_alias_out :: TopicAliasManager
  cl_keepalive :: KeepaliveState
  cl_outbound_ids :: OutboundIds
  cl_suback_channels :: "u16 list"
  cl_unsuback_channels :: "u16 list"

record Effects =
  ef_written :: "Packet list"
  ef_released :: "u16 list"
  ef_settled :: "(nat \<times> PublishOutcome) list"
  ef_dispatched :: "PublishPacket list"
  ef_answered :: "Packet list"

definition no_effects :: Effects where
  "no_effects = \<lparr>ef_written = [], ef_released = [], ef_settled = [], ef_dispatched = [],
      ef_answered = []\<rparr>"

type_synonym handled = "Client \<times> Effects \<times> unit result"

subsection \<open>Acknowledgements of outgoing publishes\<close>

fun problem_information_properties :: "Packet \<Rightarrow> Properties option" where
  "problem_information_properties (Packet.PubAck p) = Some (ack_properties p)"
| "problem_information_properties (Packet.PubRec p) = Some (ack_properties p)"
| "problem_information_properties (Packet.PubRel p) = Some (ack_properties p)"
| "problem_information_properties (Packet.PubComp p) = Some (ack_properties p)"
| "problem_information_properties (Packet.SubAck p) = Some (sak_properties p)"
| "problem_information_properties (Packet.UnsubAck p) = Some (uak_properties p)"
| "problem_information_properties (Packet.Auth p) = Some (aut_properties p)"
| "problem_information_properties _ = None"

definition check_problem_information :: "Packet \<Rightarrow> bool \<Rightarrow> unit result" where
  "check_problem_information packet requested =
     (case problem_information_properties packet of
        None \<Rightarrow> Inr ()
      | Some properties \<Rightarrow>
          if requested then Inr ()
          else if Properties_contains properties PropertyId.ReasonString
            \<or> Properties_contains properties PropertyId.UserProperty
          then Inl MqttError.ProtocolError else Inr ())"

fun accepted_stages :: "Packet \<Rightarrow> (u16 \<times> OutboundStage list) option" where
  "accepted_stages (Packet.PubAck ack) = Some (ack_packet_id ack, [AwaitingPubAck])"
| "accepted_stages (Packet.PubRec ack) =
     (if ReasonCode_is_error (ack_reason_code ack) then Some (ack_packet_id ack, [AwaitingPubRec])
      else Some (ack_packet_id ack, [AwaitingPubRec, AwaitingPubComp]))"
| "accepted_stages (Packet.PubComp ack) = Some (ack_packet_id ack, [AwaitingPubComp])"
| "accepted_stages _ = None"

definition check_acknowledgement_matches :: "Packet \<Rightarrow> Client \<Rightarrow> unit result" where
  "check_acknowledgement_matches packet c =
     (case accepted_stages packet of
        None \<Rightarrow> Inr ()
      | Some (packet_id, accepted) \<Rightarrow>
          (case SessionState_outbound_stage (cl_session c) packet_id of
             Some stage \<Rightarrow>
               if stage \<in> set accepted then Inr () else Inl MqttError.ProtocolError
           | None \<Rightarrow> Inr ()))"

definition release_outbound_quota :: "nat \<Rightarrow> u16 \<Rightarrow> Client \<times> Effects \<Rightarrow> Client \<times> Effects" where
  "release_outbound_quota now packet_id ce =
     (case ce of (c, e) \<Rightarrow>
        (c\<lparr>cl_session := SessionState_complete_outbound now packet_id (cl_session c)\<rparr>,
         e\<lparr>ef_released := ef_released e @ [packet_id]\<rparr>))"

definition with_outcomes ::
  "Client \<Rightarrow> OutcomeTracker \<times> (nat \<times> PublishOutcome) list \<Rightarrow> Client \<times> Effects" where
  "with_outcomes c r = (c\<lparr>cl_outcomes := fst r\<rparr>, no_effects\<lparr>ef_settled := snd r\<rparr>)"

text \<open>\<open>Some\<close> is \<open>Routed::Settled\<close>, \<open>None\<close> is \<open>Routed::Unhandled\<close>.\<close>

definition settle_acknowledgement ::
  "nat \<Rightarrow> Packet \<Rightarrow> Client \<Rightarrow> (Client \<times> Effects) option result" where
  "settle_acknowledgement now packet c =
     res_bind (check_acknowledgement_matches packet c) (\<lambda>_. Inr
       (case packet of
          Packet.PubAck puback \<Rightarrow>
            Some (release_outbound_quota now (ack_packet_id puback)
              (with_outcomes c (OutcomeTracker_settle_puback (cl_outcomes c)
                 (ack_packet_id puback) (ack_reason_code puback))))
        | Packet.PubRec pubrec \<Rightarrow>
            if ReasonCode_is_error (ack_reason_code pubrec) then
              let c = c\<lparr>cl_session := snd (SessionState_remove_unacked_publish now
                    (ack_packet_id pubrec) (cl_session c))\<rparr>
              in Some (release_outbound_quota now (ack_packet_id pubrec)
                   (with_outcomes c (OutcomeTracker_refused (cl_outcomes c) (ack_packet_id pubrec)
                      QoS.ExactlyOnce (ack_reason_code pubrec))))
            else None
        | Packet.PubComp pubcomp \<Rightarrow>
            Some (release_outbound_quota now (ack_packet_id pubcomp)
              (with_outcomes c (OutcomeTracker_acknowledged (cl_outcomes c)
                 (ack_packet_id pubcomp) QoS.ExactlyOnce)))
        | _ \<Rightarrow> None))"

definition handle_pubrec_outgoing ::
  "nat \<Rightarrow> (Packet \<Rightarrow> unit result) \<Rightarrow> AckPacket \<Rightarrow> Client \<Rightarrow> handled" where
  "handle_pubrec_outgoing now wr pubrec c =
     (let c = c\<lparr>cl_session :=
            SessionState_complete_pubrec now (ack_packet_id pubrec) (cl_session c)\<rparr>;
          pub_rel = Packet.PubRel (AckPacket_new (ack_packet_id pubrec))
      in case wr pub_rel of
           Inl e \<Rightarrow> (c, no_effects, Inl e)
         | Inr _ \<Rightarrow>
             (c\<lparr>cl_session := SessionState_store_pubrel now (ack_packet_id pubrec) (cl_session c)\<rparr>,
              no_effects\<lparr>ef_written := [pub_rel]\<rparr>, Inr ()))"

definition handle_pubcomp_outgoing :: "nat \<Rightarrow> AckPacket \<Rightarrow> Client \<Rightarrow> handled" where
  "handle_pubcomp_outgoing now pubcomp c =
     (case release_outbound_quota now (ack_packet_id pubcomp)
        (c\<lparr>cl_session := SessionState_complete_pubrel now (ack_packet_id pubcomp) (cl_session c)\<rparr>,
         no_effects) of
        (c, e) \<Rightarrow> (c, e, Inr ()))"

subsection \<open>Incoming publishes\<close>

definition validate_inbound_publish ::
  "PublishPacket \<Rightarrow> Client \<Rightarrow> (PublishPacket \<times> Client) result" where
  "validate_inbound_publish publish c =
     (let aliases = cl_topic_aliases c in
      if 0 \<in> set (Properties_subscription_identifiers (pub_properties publish))
      then Inl MqttError.ProtocolError
      else case Properties_get_topic_alias (pub_properties publish) of
        Some alias \<Rightarrow>
          if alias = 0 \<or> alias > ta_topic_alias_maximum aliases
          then Inl (MqttError.TopicAliasInvalid alias)
          else if pub_topic_name publish = [] then
            (case TopicAliasManager_get_topic aliases alias of
               None \<Rightarrow> Inl MqttError.ProtocolError
             | Some topic \<Rightarrow> Inr (publish\<lparr>pub_topic_name := topic\<rparr>, c))
          else res_bind (TopicAliasManager_register_alias aliases alias (pub_topic_name publish))
                 (\<lambda>aliases. Inr (publish, c\<lparr>cl_topic_aliases := aliases\<rparr>))
      | None \<Rightarrow>
          if pub_topic_name publish = [] then Inl MqttError.ProtocolError else Inr (publish, c))"

definition ack_fits_server_maximum :: "wire_ops \<Rightarrow> SessionState \<Rightarrow> Packet \<Rightarrow> bool" where
  "ack_fits_server_maximum L s packet =
     (case encode_packet_to_buffer L packet of
        Inl _ \<Rightarrow> False
      | Inr buf \<Rightarrow> SessionState_check_packet_size s (length buf) = Inr ())"

definition write_ack ::
  "wire_ops \<Rightarrow> (Packet \<Rightarrow> unit result) \<Rightarrow> SessionState \<Rightarrow> Packet \<Rightarrow> Packet list result" where
  "write_ack L wr s packet =
     (if ack_fits_server_maximum L s packet
      then res_bind (wr packet) (\<lambda>_. Inr [packet]) else Inr [])"

definition ack_qos1_inbound ::
  "wire_ops \<Rightarrow> nat \<Rightarrow> (Packet \<Rightarrow> unit result) \<Rightarrow> u16 \<Rightarrow> Client \<Rightarrow> handled" where
  "ack_qos1_inbound L now wr packet_id c =
     (case register_inbound_publish now packet_id (cl_session c) of
        Inl e \<Rightarrow> (c, no_effects, Inl e)
      | Inr s \<Rightarrow>
          let c = c\<lparr>cl_session := s\<rparr> in
          case write_ack L wr s (Packet.PubAck (AckPacket_new packet_id)) of
            Inl e \<Rightarrow> (c, no_effects, Inl e)
          | Inr written \<Rightarrow>
              (c\<lparr>cl_session := acknowledge_inbound packet_id s\<rparr>, no_effects\<lparr>ef_written := written\<rparr>,
               Inr ()))"

text \<open>The result says whether this is the first receipt (\<open>Qos2Receipt::First\<close>).\<close>

definition ack_qos2_inbound ::
  "wire_ops \<Rightarrow> nat \<Rightarrow> (Packet \<Rightarrow> unit result) \<Rightarrow> u16 \<Rightarrow> Client \<Rightarrow> Client \<times> Effects \<times> bool result" where
  "ack_qos2_inbound L now wr packet_id c =
     (case register_inbound_publish now packet_id (cl_session c) of
        Inl e \<Rightarrow> (c, no_effects, Inl e)
      | Inr s \<Rightarrow>
          (case SessionState_mark_pubrec_pending now packet_id s of
             (first_receipt, s) \<Rightarrow>
               (case write_ack L wr s (Packet.PubRec (AckPacket_new packet_id)) of
                  Inl e \<Rightarrow>
                    (c\<lparr>cl_session :=
                         (if first_receipt then SessionState_remove_pubrec now packet_id s else s)\<rparr>,
                     no_effects, Inl e)
                | Inr written \<Rightarrow>
                    (c\<lparr>cl_session := s\<rparr>, no_effects\<lparr>ef_written := written\<rparr>, Inr first_receipt))))"

definition handle_publish_with_ack ::
  "wire_ops \<Rightarrow> nat \<Rightarrow> (Packet \<Rightarrow> unit result) \<Rightarrow> PublishPacket \<Rightarrow> Client \<Rightarrow> handled" where
  "handle_publish_with_ack L now wr publish c =
     (let deliver = (\<lambda>(c, e). (c, e\<lparr>ef_dispatched := [publish\<lparr>pub_stream_id := None\<rparr>]\<rparr>, Inr ())) in
      case (pub_qos publish, pub_packet_id publish) of
        (QoS.AtLeastOnce, Some packet_id) \<Rightarrow>
          (case ack_qos1_inbound L now wr packet_id c of
             (c, e, Inl err) \<Rightarrow> (c, e, Inl err)
           | (c, e, Inr _) \<Rightarrow> deliver (c, e))
      | (QoS.ExactlyOnce, Some packet_id) \<Rightarrow>
          (case ack_qos2_inbound L now wr packet_id c of
             (c, e, Inl err) \<Rightarrow> (c, e, Inl err)
           | (c, e, Inr first_receipt) \<Rightarrow>
               if first_receipt then deliver (c, e) else (c, e, Inr ()))
      | _ \<Rightarrow> deliver (c, no_effects))"

definition handle_pubrel ::
  "wire_ops \<Rightarrow> (Packet \<Rightarrow> unit result) \<Rightarrow> AckPacket \<Rightarrow> Client \<Rightarrow> handled" where
  "handle_pubrel L wr pubrel c =
     (let s = SessionState_clear_inbound_state (ack_packet_id pubrel) (cl_session c);
          c = c\<lparr>cl_session := s\<rparr>
      in case write_ack L wr s (Packet.PubComp (AckPacket_new (ack_packet_id pubrel))) of
           Inl e \<Rightarrow> (c, no_effects, Inl e)
         | Inr written \<Rightarrow>
             (c\<lparr>cl_session := acknowledge_inbound (ack_packet_id pubrel) s\<rparr>,
              no_effects\<lparr>ef_written := written\<rparr>, Inr ()))"

subsection \<open>Dispatch\<close>

definition handle_incoming_packet_with_writer ::
  "wire_ops \<Rightarrow> nat \<Rightarrow> (Packet \<Rightarrow> unit result) \<Rightarrow> Packet \<Rightarrow> Client \<Rightarrow> handled" where
  "handle_incoming_packet_with_writer L now wr packet c =
     (case packet of
        Packet.Publish publish \<Rightarrow>
          (case validate_inbound_publish publish c of
             Inl e \<Rightarrow> (c, no_effects, Inl e)
           | Inr (publish, c) \<Rightarrow> handle_publish_with_ack L now wr publish c)
      | Packet.PingResp \<Rightarrow>
          (c\<lparr>cl_keepalive := KeepaliveState_record_pong_received now (cl_keepalive c)\<rparr>, no_effects, Inr ())
      | Packet.PubRec pubrec \<Rightarrow> handle_pubrec_outgoing now wr pubrec c
      | Packet.PubRel pubrel \<Rightarrow> handle_pubrel L wr pubrel c
      | Packet.PubComp pubcomp \<Rightarrow> handle_pubcomp_outgoing now pubcomp c
      | Packet.Disconnect disconnect \<Rightarrow>
          (c, no_effects, Inl (MqttError.ServerDisconnect (dis_reason_code disconnect)))
      | _ \<Rightarrow> (c, no_effects, Inr ()))"

datatype AuthResponse = Continue bytes | Success | Abort

record reader_env =
  re_request_problem_information :: bool
  re_auth_method :: "string option"
  re_auth_handler :: "(string \<Rightarrow> bytes option \<Rightarrow> AuthResponse result) option"

definition handle_auth_packet ::
  "reader_env \<Rightarrow> (Packet \<Rightarrow> unit result) \<Rightarrow> AuthPacket \<Rightarrow> Packet list \<times> unit result" where
  "handle_auth_packet env wr auth =
     (case aut_reason_code auth of
        ReasonCode.ContinueAuthentication \<Rightarrow>
          (case (re_auth_method env, re_auth_handler env) of
             (None, _) \<Rightarrow> ([], Inl MqttError.ProtocolError)
           | (Some method, None) \<Rightarrow> ([], Inl MqttError.AuthenticationFailed)
           | (Some method, Some handler) \<Rightarrow>
               (case handler (case AuthPacket_authentication_method auth of Some m \<Rightarrow> m | None \<Rightarrow> [])
                  (AuthPacket_authentication_data auth) of
                  Inl e \<Rightarrow> ([], Inl e)
                | Inr (Continue data) \<Rightarrow>
                    (case AuthPacket_continue_authentication method (Some data) of
                       Inl e \<Rightarrow> ([], Inl e)
                     | Inr auth_packet \<Rightarrow>
                         (case wr (Packet.Auth auth_packet) of
                            Inl e \<Rightarrow> ([], Inl e)
                          | Inr _ \<Rightarrow> ([Packet.Auth auth_packet], Inr ())))
                | Inr Success \<Rightarrow> ([], Inr ())
                | Inr Abort \<Rightarrow> ([], Inl MqttError.AuthenticationFailed)))
      | ReasonCode.Success \<Rightarrow> ([], Inr ())
      | _ \<Rightarrow> ([], Inl MqttError.AuthenticationFailed))"

definition process_packet ::
  "wire_ops \<Rightarrow> reader_env \<Rightarrow> nat \<Rightarrow> (Packet \<Rightarrow> unit result) \<Rightarrow> Packet \<Rightarrow> Client \<Rightarrow> handled" where
  "process_packet L env now wr packet c =
     (case res_bind (check_problem_information packet (re_request_problem_information env))
        (\<lambda>_. settle_acknowledgement now packet c) of
        Inl e \<Rightarrow> (c, no_effects, Inl e)
      | Inr (Some (c, e)) \<Rightarrow> (c, e, Inr ())
      | Inr None \<Rightarrow>
          let further = handle_incoming_packet_with_writer L now wr packet c in
          (case packet of
             Packet.SubAck suback \<Rightarrow>
               if sak_packet_id suback \<in> set (cl_suback_channels c)
               then (c\<lparr>cl_suback_channels := removeAll (sak_packet_id suback) (cl_suback_channels c)\<rparr>,
                     no_effects\<lparr>ef_answered := [packet]\<rparr>, Inr ())
               else further
           | Packet.UnsubAck unsuback \<Rightarrow>
               if uak_packet_id unsuback \<in> set (cl_unsuback_channels c)
               then (c\<lparr>cl_unsuback_channels :=
                         removeAll (uak_packet_id unsuback) (cl_unsuback_channels c)\<rparr>,
                     no_effects\<lparr>ef_answered := [packet]\<rparr>, Inr ())
               else further
           | Packet.Auth auth \<Rightarrow>
               (case handle_auth_packet env wr auth of
                  (written, r) \<Rightarrow> (c, no_effects\<lparr>ef_written := written\<rparr>, r))
           | _ \<Rightarrow> further))"

subsection \<open>Sending and replaying publishes\<close>

definition with_aliased_topic :: "PublishPacket \<Rightarrow> Client \<Rightarrow> PublishPacket result" where
  "with_aliased_topic publish c =
     (case PublishPacket_topic_alias publish of
        Some alias \<Rightarrow>
          if pub_topic_name publish = [] then
            (case TopicAliasManager_get_topic (cl_topic_alias_out c) alias of
               None \<Rightarrow> Inl (MqttError.TopicAliasInvalid alias)
             | Some topic \<Rightarrow> Inr (publish\<lparr>pub_topic_name := topic\<rparr>))
          else Inr publish
      | None \<Rightarrow> Inr publish)"

definition record_outbound_topic_alias :: "PublishPacket \<Rightarrow> Client \<Rightarrow> Client" where
  "record_outbound_topic_alias publish c =
     (case PublishPacket_topic_alias publish of
        Some alias \<Rightarrow>
          if pub_topic_name publish = [] then c
          else (case TopicAliasManager_register_alias (cl_topic_alias_out c) alias (pub_topic_name publish) of
                  Inr aliases \<Rightarrow> c\<lparr>cl_topic_alias_out := aliases\<rparr> | Inl _ \<Rightarrow> c)
      | None \<Rightarrow> c)"

datatype Transmitted = Sent Delivery | InFlight nat | Detached nat

text \<open>
  The part of \<open>transmit_publish\<close> after the checks that the connection is still the one the packet was
  conformed to: \<open>handle\<close> is the new publish handle.
\<close>

definition transmit_publish ::
  "nat \<Rightarrow> (Packet \<Rightarrow> unit result) \<Rightarrow> nat \<Rightarrow> PublishPacket \<Rightarrow> Client
     \<Rightarrow> Client \<times> Effects \<times> Transmitted result" where
  "transmit_publish now wr handle publish c =
     (let send = (\<lambda>c e in_flight.
            case (wr (Packet.Publish publish), in_flight) of
              (Inr _, None) \<Rightarrow>
                (record_outbound_topic_alias publish c, e\<lparr>ef_written := [Packet.Publish publish]\<rparr>,
                 Inr (Sent (Delivery_of (pub_qos publish) (pub_packet_id publish))))
            | (Inr _, Some h) \<Rightarrow>
                (record_outbound_topic_alias publish c, e\<lparr>ef_written := [Packet.Publish publish]\<rparr>,
                 Inr (InFlight h))
            | (Inl err, None) \<Rightarrow> (c, e, Inl err)
            | (Inl err, Some h) \<Rightarrow> (c, e, Inr (Detached h)))
      in case pub_packet_id publish of
           Some pid \<Rightarrow>
             if pub_qos publish \<noteq> QoS.AtMostOnce then
               (case res_bind (with_aliased_topic publish c)
                  (\<lambda>stored. SessionState_store_unacked_publish now stored (cl_session c)) of
                  Inl e \<Rightarrow> (c, no_effects\<lparr>ef_released := [pid]\<rparr>, Inl e)
                | Inr s \<Rightarrow>
                    (case OutcomeTracker_track (cl_outcomes c) pid (pub_qos publish) (Completion_new handle) of
                       (t, settled) \<Rightarrow>
                         send
                           (c\<lparr>cl_session := s, cl_outcomes := t,
                              cl_outbound_ids := IdReservation_drop (cl_outbound_ids c) pid\<rparr>)
                           (no_effects\<lparr>ef_settled := settled\<rparr>) (Some handle)))
             else send c no_effects None
         | None \<Rightarrow> send c no_effects None)"

record PublishPolicy =
  pp_maximum_qos :: "u8 option"
  pp_retain_available :: bool

definition PublishPolicy_admits_unchanged :: "PublishPolicy \<Rightarrow> PublishPacket \<Rightarrow> unit result" where
  "PublishPolicy_admits_unchanged policy publish =
     (if pub_retain publish \<and> \<not> pp_retain_available policy then Inl MqttError.RetainNotSupported
      else case pp_maximum_qos policy of
        Some maximum \<Rightarrow>
          if QoS_to_u8 (pub_qos publish) > maximum then Inl MqttError.QoSNotSupported else Inr ()
      | None \<Rightarrow> Inr ())"

definition without_topic_alias :: "PublishPacket \<Rightarrow> PublishPacket" where
  "without_topic_alias publish =
     publish\<lparr>pub_properties := Properties_remove_topic_alias (pub_properties publish)\<rparr>"

definition check_publish_size :: "wire_ops \<Rightarrow> PublishPacket \<Rightarrow> Client \<Rightarrow> unit result" where
  "check_publish_size L publish c =
     res_bind (MqttPacket_encode PacketType.Publish (PublishPacket_flags publish)
       (PublishPacket_encode_body L publish))
       (\<lambda>buf. SessionState_check_packet_size (cl_session c) (length buf))"

definition abandon_replay :: "nat \<Rightarrow> bool \<Rightarrow> PublishPacket \<Rightarrow> Client \<Rightarrow> Client \<times> Effects \<times> bool" where
  "abandon_replay now is_current publish c =
     (case pub_packet_id publish of
        None \<Rightarrow> (c, no_effects, True)
      | Some packet_id \<Rightarrow>
          if \<not> is_current then (c, no_effects, False)
          else
            let ids = (if pub_qos publish = QoS.ExactlyOnce
                       then OutboundIds_quarantine (cl_outbound_ids c) packet_id
                       else cl_outbound_ids c);
                s = snd (SessionState_remove_unacked_publish now packet_id (cl_session c))
            in case OutcomeTracker_take (cl_outcomes c) packet_id of
                 (t, completion) \<Rightarrow>
                   (c\<lparr>cl_outbound_ids := ids, cl_session := s, cl_outcomes := t\<rparr>,
                    no_effects\<lparr>ef_settled :=
                      (case completion of
                         Some completion \<Rightarrow> [Completion_indeterminate completion ReplayNotConforming]
                       | None \<Rightarrow> [])\<rparr>, True))"

text \<open>
  One item of \<open>replay_session_state\<close>; \<open>slot\<close> says whether a send slot could be taken, and the
  result whether the replay goes on.
\<close>

definition replay_item ::
  "wire_ops \<Rightarrow> nat \<Rightarrow> (Packet \<Rightarrow> unit result) \<Rightarrow> PublishPolicy \<Rightarrow> bool \<Rightarrow> bool \<Rightarrow> OutboundReplay
     \<Rightarrow> Client \<Rightarrow> Client \<times> Effects \<times> bool" where
  "replay_item L now wr policy slot is_current item c =
     (let write = (\<lambda>packet c.
            case wr packet of
              Inr _ \<Rightarrow> (c, no_effects\<lparr>ef_written := [packet]\<rparr>, True)
            | Inl _ \<Rightarrow> (c, no_effects, False))
      in case item of
           OutboundReplay.PubRel packet_id \<Rightarrow> write (Packet.PubRel (AckPacket_new packet_id)) c
         | OutboundReplay.Publish publish \<Rightarrow>
             let resend = without_topic_alias publish in
             (case res_bind (PublishPolicy_admits_unchanged policy resend)
                (\<lambda>_. check_publish_size L resend c) of
                Inl _ \<Rightarrow> abandon_replay now is_current resend c
              | Inr _ \<Rightarrow>
                  if \<not> slot then (c, no_effects, False)
                  else
                    let c = (case pub_packet_id resend of
                          Some packet_id \<Rightarrow>
                            c\<lparr>cl_outcomes := OutcomeTracker_mark_resent (cl_outcomes c) packet_id\<rparr>
                        | None \<Rightarrow> c)
                    in write (Packet.Publish (resend\<lparr>pub_dup := True\<rparr>)) c))"

end
