(* ===== verification/Broker_Publish.thy ===== *)
theory Broker_Publish
  imports Packet_Io Topic_Matching Assoc_Lists "HOL-Library.Product_Lexorder"
begin

text \<open>
  How the broker receives publishes from a client (\<open>broker/client_handler/publish.rs\<close>), with the
  persisted form of a message in flight (\<open>broker/storage/mod.rs\<close>) and the part of the memory
  backend that holds these messages (\<open>broker/storage/memory_backend.rs\<close>). The decisions of the
  other components (authorisation, retained store, resource monitor, the application's event
  handler) and the transport are arguments. A handler returns the new state, the packets written,
  the messages routed, and its result. The clock readings are nanoseconds since the epoch.
\<close>

subsection \<open>Messages in flight\<close>

datatype InflightDirection = Inbound | Outbound

datatype InflightPhase = AwaitingPubrec | AwaitingPubrel | AwaitingPubcomp

record V5PublishProps =
  v5_user_properties :: "(string \<times> string) list"
  v5_content_type :: "string option"
  v5_response_topic :: "string option"
  v5_correlation_data :: "bytes option"
  v5_payload_format_indicator :: "bool option"

definition V5PublishProps_from_packet :: "PublishPacket \<Rightarrow> V5PublishProps" where
  "V5PublishProps_from_packet packet =
     (let p = pub_properties packet in
      \<lparr>v5_user_properties =
         (case Properties_get_all p PropertyId.UserProperty of
            Some values \<Rightarrow> List.map_filter (\<lambda>v. case v of
              PropertyValue.Utf8StringPair k s \<Rightarrow> Some (k, s) | _ \<Rightarrow> None) values
          | None \<Rightarrow> []),
       v5_content_type = Properties_get_content_type p,
       v5_response_topic =
         (case Properties_get p PropertyId.ResponseTopic of
            Some (PropertyValue.Utf8String s) \<Rightarrow> Some s | _ \<Rightarrow> None),
       v5_correlation_data =
         (case Properties_get p PropertyId.CorrelationData of
            Some (PropertyValue.BinaryData b) \<Rightarrow> Some b | _ \<Rightarrow> None),
       v5_payload_format_indicator =
         (case Properties_get p PropertyId.PayloadFormatIndicator of
            Some (PropertyValue.Byte b) \<Rightarrow> Some (b \<noteq> 0) | _ \<Rightarrow> None)\<rparr>)"

definition set_opt :: "(Properties \<Rightarrow> 'a \<Rightarrow> Properties) \<Rightarrow> 'a option \<Rightarrow> Properties \<Rightarrow> Properties" where
  "set_opt f v p = (case v of Some x \<Rightarrow> f p x | None \<Rightarrow> p)"

definition apply_v5_props :: "V5PublishProps \<Rightarrow> PublishPacket \<Rightarrow> PublishPacket" where
  "apply_v5_props v5 packet =
     packet\<lparr>pub_properties :=
       set_opt Properties_set_payload_format_indicator (v5_payload_format_indicator v5)
         (set_opt Properties_set_correlation_data (v5_correlation_data v5)
           (set_opt Properties_set_response_topic (v5_response_topic v5)
             (set_opt Properties_set_content_type (v5_content_type v5)
               (fold (\<lambda>(k, s) p. Properties_add_user_property p k s) (v5_user_properties v5)
                 (pub_properties packet)))))\<rparr>"

record InflightMessage =
  im_client_id :: string
  im_packet_id :: u16
  im_direction :: InflightDirection
  im_phase :: InflightPhase
  im_topic :: string
  im_payload :: bytes
  im_qos :: QoS
  im_retain :: bool
  im_stored_at_secs :: nat
  im_message_expiry_interval :: "u32 option"
  im_expires_at_cache :: "nat option"
  im_props :: V5PublishProps

definition InflightMessage_from_publish ::
  "nat \<Rightarrow> PublishPacket \<Rightarrow> string \<Rightarrow> InflightDirection \<Rightarrow> InflightPhase \<Rightarrow> InflightMessage" where
  "InflightMessage_from_publish now packet client_id direction phase =
     (let message_expiry_interval = Properties_get_message_expiry_interval (pub_properties packet) in
      \<lparr>im_client_id = client_id,
       im_packet_id = (case pub_packet_id packet of Some i \<Rightarrow> i | None \<Rightarrow> 0),
       im_direction = direction, im_phase = phase, im_topic = pub_topic_name packet,
       im_payload = pub_payload packet, im_qos = pub_qos packet, im_retain = pub_retain packet,
       im_stored_at_secs = now div 10 ^ 9,
       im_message_expiry_interval = message_expiry_interval,
       im_expires_at_cache =
         map_option (\<lambda>interval. now + unat interval * 10 ^ 9) message_expiry_interval,
       im_props = V5PublishProps_from_packet packet\<rparr>)"

text \<open>\<open>duration_since\<close> fails only when the expiry lies before \<open>now\<close>.\<close>

definition InflightMessage_remaining_expiry_interval :: "nat \<Rightarrow> InflightMessage \<Rightarrow> u32 option" where
  "InflightMessage_remaining_expiry_interval now msg =
     Option.bind (im_expires_at_cache msg) (\<lambda>expiry.
       if now \<le> expiry then
         (let s = (expiry - now) div 10 ^ 9 in
          Some (if s < 2 ^ 32 then word_of_nat s else 0xFFFFFFFF))
       else None)"

definition InflightMessage_is_expired :: "nat \<Rightarrow> InflightMessage \<Rightarrow> bool" where
  "InflightMessage_is_expired now msg =
     (case im_expires_at_cache msg of Some expiry \<Rightarrow> now > expiry | None \<Rightarrow> False)"

definition InflightMessage_to_publish_packet :: "nat \<Rightarrow> InflightMessage \<Rightarrow> PublishPacket" where
  "InflightMessage_to_publish_packet now msg =
     (let packet = (PublishPacket_with_retain
            (PublishPacket_new (im_topic msg) (im_payload msg) (im_qos msg)) (im_retain msg))
            \<lparr>pub_packet_id := Some (im_packet_id msg)\<rparr>
      in apply_v5_props (im_props msg)
           (packet\<lparr>pub_properties :=
              set_opt Properties_set_message_expiry_interval
                (InflightMessage_remaining_expiry_interval now msg) (pub_properties packet)\<rparr>))"

text \<open>The in-flight messages of one client in the memory backend.\<close>

type_synonym inflight_store = "((u16 \<times> InflightDirection) \<times> InflightMessage) list"

definition store_inflight_message :: "InflightMessage \<Rightarrow> inflight_store \<Rightarrow> inflight_store" where
  "store_inflight_message msg entries =
     AList.update (im_packet_id msg, im_direction msg) msg entries"

definition get_inflight_messages :: "nat \<Rightarrow> inflight_store \<Rightarrow> InflightMessage list" where
  "get_inflight_messages now entries =
     filter (\<lambda>e. \<not> InflightMessage_is_expired now e) (map snd entries)"

definition remove_inflight_message :: "u16 \<Rightarrow> InflightDirection \<Rightarrow> inflight_store \<Rightarrow> inflight_store" where
  "remove_inflight_message packet_id direction entries = AList.delete (packet_id, direction) entries"

subsection \<open>The client handler\<close>

datatype InflightPublish = Pending PublishPacket | Handled

datatype PublishAction = Continue | Handled | Transform PublishPacket

record ClientHandler =
  ch_client_id :: string
  ch_user_id :: "string option"
  ch_inflight_publishes :: "(u16 \<times> InflightPublish) list"
  ch_server_receive_maximum :: u16
  ch_topic_aliases :: "u16 \<rightharpoonup> string"
  ch_topic_alias_maximum :: u16
  ch_maximum_qos :: u8
  ch_request_problem_information :: bool
  ch_client_max_packet_size :: "u32 option"
  ch_storage :: "inflight_store option"

record publish_env =
  pe_authorize_publish :: "string \<Rightarrow> string option \<Rightarrow> string \<Rightarrow> bool"
  pe_max_retained_message_size :: nat
  pe_retained_store_full :: "string \<Rightarrow> bool"
  pe_can_send_message :: "string \<Rightarrow> nat \<Rightarrow> bool"
  pe_on_client_publish :: "PublishPacket \<Rightarrow> PublishAction"

type_synonym broker_handled = "ClientHandler \<times> Packet list \<times> PublishPacket list \<times> unit result"

fun packet_map_properties :: "(Properties \<Rightarrow> Properties) \<Rightarrow> Packet \<Rightarrow> Packet option" where
  "packet_map_properties f (Packet.ConnAck p) = Some (Packet.ConnAck (p\<lparr>cak_properties := f (cak_properties p)\<rparr>))"
| "packet_map_properties f (Packet.PubAck p) = Some (Packet.PubAck (p\<lparr>ack_properties := f (ack_properties p)\<rparr>))"
| "packet_map_properties f (Packet.PubRec p) = Some (Packet.PubRec (p\<lparr>ack_properties := f (ack_properties p)\<rparr>))"
| "packet_map_properties f (Packet.PubRel p) = Some (Packet.PubRel (p\<lparr>ack_properties := f (ack_properties p)\<rparr>))"
| "packet_map_properties f (Packet.PubComp p) = Some (Packet.PubComp (p\<lparr>ack_properties := f (ack_properties p)\<rparr>))"
| "packet_map_properties f (Packet.SubAck p) = Some (Packet.SubAck (p\<lparr>sak_properties := f (sak_properties p)\<rparr>))"
| "packet_map_properties f (Packet.UnsubAck p) = Some (Packet.UnsubAck (p\<lparr>uak_properties := f (uak_properties p)\<rparr>))"
| "packet_map_properties f (Packet.Auth p) = Some (Packet.Auth (p\<lparr>aut_properties := f (aut_properties p)\<rparr>))"
| "packet_map_properties f (Packet.Disconnect p) = Some (Packet.Disconnect (p\<lparr>dis_properties := f (dis_properties p)\<rparr>))"
| "packet_map_properties f _ = None"

text \<open>What is written: nothing when the packet is too large for the client even without its reason string.\<close>

definition write_to_client ::
  "wire_ops \<Rightarrow> (Packet \<Rightarrow> unit result) \<Rightarrow> ClientHandler \<Rightarrow> Packet \<Rightarrow> Packet list result" where
  "write_to_client L wr h packet =
     (let transmit = (\<lambda>packet. res_bind (wr packet) (\<lambda>_. Inr [packet])) in
      case ch_client_max_packet_size h of
        None \<Rightarrow> transmit packet
      | Some mx \<Rightarrow>
          res_bind (encode_packet_to_buffer L packet) (\<lambda>buf.
            if length buf \<le> unat mx then transmit packet
            else case packet_map_properties Properties_remove_reason_string packet of
              None \<Rightarrow> Inr []
            | Some packet \<Rightarrow>
                res_bind (encode_packet_to_buffer L packet) (\<lambda>buf.
                  if length buf \<le> unat mx then transmit packet else Inr [])))"

definition respond ::
  "wire_ops \<Rightarrow> (Packet \<Rightarrow> unit result) \<Rightarrow> PublishPacket list \<Rightarrow> ClientHandler \<Rightarrow> Packet \<Rightarrow> broker_handled" where
  "respond L wr routed h packet =
     (case write_to_client L wr h packet of
        Inl e \<Rightarrow> (h, [], routed, Inl e)
      | Inr written \<Rightarrow> (h, written, routed, Inr ()))"

text \<open>The acknowledgement that refuses a publish, shared by the four error responses.\<close>

definition refusal :: "ClientHandler \<Rightarrow> u16 \<Rightarrow> ReasonCode \<Rightarrow> string \<Rightarrow> AckPacket" where
  "refusal h packet_id code reason =
     (let ack = (AckPacket_new packet_id)\<lparr>ack_reason_code := code\<rparr> in
      if ch_request_problem_information h
      then ack\<lparr>ack_properties := Properties_set_reason_string (ack_properties ack) reason\<rparr>
      else ack)"

definition refuse_publish ::
  "wire_ops \<Rightarrow> (Packet \<Rightarrow> unit result) \<Rightarrow> ClientHandler \<Rightarrow> PublishPacket \<Rightarrow> ReasonCode \<Rightarrow> string
     \<Rightarrow> broker_handled" where
  "refuse_publish L wr h publish code reason =
     (case pub_qos publish of
        QoS.AtMostOnce \<Rightarrow> (h, [], [], Inr ())
      | QoS.AtLeastOnce \<Rightarrow>
          respond L wr [] h (Packet.PubAck (refusal h (the (pub_packet_id publish)) code reason))
      | QoS.ExactlyOnce \<Rightarrow>
          respond L wr [] h (Packet.PubRec (refusal h (the (pub_packet_id publish)) code reason)))"

definition send_not_authorized_response ::
  "wire_ops \<Rightarrow> (Packet \<Rightarrow> unit result) \<Rightarrow> ClientHandler \<Rightarrow> PublishPacket \<Rightarrow> broker_handled" where
  "send_not_authorized_response L wr h publish =
     refuse_publish L wr h publish ReasonCode.NotAuthorized ''Not authorized to publish''"

fun decimal :: "nat \<Rightarrow> string" where
  "decimal n = (if n < 10 then [char_of (48 + n)] else decimal (n div 10) @ [char_of (48 + n mod 10)])"

definition send_qos_not_supported_response ::
  "wire_ops \<Rightarrow> (Packet \<Rightarrow> unit result) \<Rightarrow> ClientHandler \<Rightarrow> PublishPacket \<Rightarrow> broker_handled" where
  "send_qos_not_supported_response L wr h publish =
     (case pub_packet_id publish of
        None \<Rightarrow> (h, [], [], Inr ())
      | Some _ \<Rightarrow>
          refuse_publish L wr h publish ReasonCode.QoSNotSupported
            (''QoS '' @ decimal (unat (QoS_to_u8 (pub_qos publish)))
             @ '' not supported (maximum: '' @ decimal (unat (ch_maximum_qos h)) @ '')''))"

definition send_quota_exceeded_response ::
  "wire_ops \<Rightarrow> (Packet \<Rightarrow> unit result) \<Rightarrow> ClientHandler \<Rightarrow> PublishPacket \<Rightarrow> string \<Rightarrow> broker_handled" where
  "send_quota_exceeded_response L wr h publish reason =
     refuse_publish L wr h publish ReasonCode.QuotaExceeded reason"

definition send_rate_limit_response ::
  "wire_ops \<Rightarrow> (Packet \<Rightarrow> unit result) \<Rightarrow> ClientHandler \<Rightarrow> PublishPacket \<Rightarrow> broker_handled" where
  "send_rate_limit_response L wr h publish =
     refuse_publish L wr h publish ReasonCode.QuotaExceeded ''Rate limit exceeded''"

text \<open>\<open>Some\<close> the packets written before the connection is closed, and the error.\<close>

definition check_receive_maximum ::
  "wire_ops \<Rightarrow> (Packet \<Rightarrow> unit result) \<Rightarrow> ClientHandler \<Rightarrow> PublishPacket
     \<Rightarrow> (Packet list \<times> MqttError) option" where
  "check_receive_maximum L wr h publish =
     (if pub_qos publish \<noteq> QoS.AtMostOnce
         \<and> length (ch_inflight_publishes h) \<ge> unat (ch_server_receive_maximum h)
      then (case write_to_client L wr h
              (Packet.Disconnect (DisconnectPacket_new ReasonCode.ReceiveMaximumExceeded)) of
              Inl e \<Rightarrow> Some ([], e) | Inr written \<Rightarrow> Some (written, MqttError.ProtocolError))
      else None)"

definition resolve_topic_alias ::
  "ClientHandler \<Rightarrow> PublishPacket \<Rightarrow> (ClientHandler \<times> PublishPacket) result" where
  "resolve_topic_alias h publish =
     (case Properties_get_topic_alias (pub_properties publish) of
        Some alias \<Rightarrow>
          if alias = 0 \<or> alias > ch_topic_alias_maximum h then Inl MqttError.ProtocolError
          else
            let drop_alias = (\<lambda>publish. publish\<lparr>pub_properties :=
                  Properties_remove_topic_alias (pub_properties publish)\<rparr>)
            in if pub_topic_name publish = [] then
                 (case ch_topic_aliases h alias of
                    Some topic \<Rightarrow> Inr (h, drop_alias (publish\<lparr>pub_topic_name := topic\<rparr>))
                  | None \<Rightarrow> Inl MqttError.ProtocolError)
               else Inr (h\<lparr>ch_topic_aliases := (ch_topic_aliases h)(alias \<mapsto> pub_topic_name publish)\<rparr>,
                         drop_alias publish)
      | None \<Rightarrow>
          if pub_topic_name publish = [] then Inl MqttError.ProtocolError else Inr (h, publish))"

definition validate_publish_properties :: "PublishPacket \<Rightarrow> unit result" where
  "validate_publish_properties publish =
     (if Properties_get_subscription_identifier (pub_properties publish) \<noteq> None
      then Inl MqttError.ProtocolError
      else res_bind (validate_topic_name (pub_topic_name publish)) (\<lambda>_.
        case Properties_get (pub_properties publish) PropertyId.ResponseTopic of
          Some (PropertyValue.Utf8String response_topic) \<Rightarrow> validate_topic_name response_topic
        | _ \<Rightarrow> Inr ()))"

definition check_retained_limits :: "publish_env \<Rightarrow> PublishPacket \<Rightarrow> string option" where
  "check_retained_limits env publish =
     (if pe_max_retained_message_size env > 0
         \<and> length (pub_payload publish) > pe_max_retained_message_size env
      then Some ''Retained message too large''
      else if pe_retained_store_full env (pub_topic_name publish)
      then Some ''Retained message limit exceeded''
      else None)"

definition persist_inbound :: "nat \<Rightarrow> PublishPacket \<Rightarrow> ClientHandler \<Rightarrow> ClientHandler" where
  "persist_inbound now publish h =
     (case ch_storage h of
        None \<Rightarrow> h
      | Some entries \<Rightarrow>
          h\<lparr>ch_storage := Some (store_inflight_message
              (InflightMessage_from_publish now publish (ch_client_id h) Inbound AwaitingPubrel) entries)\<rparr>)"

definition route_publish_by_qos ::
  "wire_ops \<Rightarrow> nat \<Rightarrow> (Packet \<Rightarrow> unit result) \<Rightarrow> ClientHandler \<Rightarrow> PublishPacket \<Rightarrow> broker_handled" where
  "route_publish_by_qos L now wr h publish =
     (case pub_qos publish of
        QoS.AtMostOnce \<Rightarrow> (h, [], [publish], Inr ())
      | QoS.AtLeastOnce \<Rightarrow>
          respond L wr [publish] h (Packet.PubAck (AckPacket_new (the (pub_packet_id publish))))
      | QoS.ExactlyOnce \<Rightarrow>
          let packet_id = the (pub_packet_id publish);
              h = persist_inbound now publish h
          in respond L wr []
               (h\<lparr>ch_inflight_publishes :=
                  AList.update packet_id (Pending publish) (ch_inflight_publishes h)\<rparr>)
               (Packet.PubRec (AckPacket_new packet_id)))"

definition complete_qos_handshake ::
  "wire_ops \<Rightarrow> (Packet \<Rightarrow> unit result) \<Rightarrow> ClientHandler \<Rightarrow> PublishPacket \<Rightarrow> broker_handled" where
  "complete_qos_handshake L wr h publish =
     (case pub_qos publish of
        QoS.AtMostOnce \<Rightarrow> (h, [], [], Inr ())
      | QoS.AtLeastOnce \<Rightarrow>
          respond L wr [] h (Packet.PubAck (AckPacket_new (the (pub_packet_id publish))))
      | QoS.ExactlyOnce \<Rightarrow>
          let packet_id = the (pub_packet_id publish) in
          respond L wr []
            (h\<lparr>ch_inflight_publishes :=
               AList.update packet_id InflightPublish.Handled (ch_inflight_publishes h)\<rparr>)
            (Packet.PubRec (AckPacket_new packet_id)))"

definition handle_publish ::
  "wire_ops \<Rightarrow> publish_env \<Rightarrow> nat \<Rightarrow> (Packet \<Rightarrow> unit result) \<Rightarrow> PublishPacket \<Rightarrow> ClientHandler
     \<Rightarrow> broker_handled" where
  "handle_publish L env now wr publish h =
     (case check_receive_maximum L wr h publish of
        Some (written, e) \<Rightarrow> (h, written, [], Inl e)
      | None \<Rightarrow>
      (case resolve_topic_alias h publish of
         Inl e \<Rightarrow> (h, [], [], Inl e)
       | Inr (h, publish) \<Rightarrow>
      (case validate_publish_properties publish of
         Inl e \<Rightarrow> (h, [], [], Inl e)
       | Inr _ \<Rightarrow>
         if \<not> pe_authorize_publish env (ch_client_id h) (ch_user_id h) (pub_topic_name publish)
         then send_not_authorized_response L wr h publish
         else if QoS_to_u8 (pub_qos publish) > ch_maximum_qos h
         then send_qos_not_supported_response L wr h publish
         else case (if pub_retain publish \<and> pub_payload publish \<noteq> []
                    then check_retained_limits env publish else None) of
           Some reason \<Rightarrow> send_quota_exceeded_response L wr h publish reason
         | None \<Rightarrow>
           let publish = publish\<lparr>pub_properties :=
                 Properties_inject_client_id
                   (Properties_inject_sender (pub_properties publish) (ch_user_id h))
                   (Some (ch_client_id h))\<rparr>
           in if \<not> pe_can_send_message env (ch_client_id h) (length (pub_payload publish))
              then send_rate_limit_response L wr h publish
              else case pe_on_client_publish env publish of
                Continue \<Rightarrow> route_publish_by_qos L now wr h publish
              | PublishAction.Handled \<Rightarrow> complete_qos_handshake L wr h publish
              | Transform modified \<Rightarrow> route_publish_by_qos L now wr h modified)))"

definition broker_handle_pubrel ::
  "wire_ops \<Rightarrow> (Packet \<Rightarrow> unit result) \<Rightarrow> AckPacket \<Rightarrow> ClientHandler \<Rightarrow> broker_handled" where
  "broker_handle_pubrel L wr pubrel h =
     (let packet_id = ack_packet_id pubrel in
      case map_of (ch_inflight_publishes h) packet_id of
        Some entry \<Rightarrow>
          respond L wr (case entry of Pending publish \<Rightarrow> [publish] | InflightPublish.Handled \<Rightarrow> [])
            (h\<lparr>ch_inflight_publishes := AList.delete packet_id (ch_inflight_publishes h),
               ch_storage := map_option (remove_inflight_message packet_id Inbound) (ch_storage h)\<rparr>)
            (Packet.PubComp (AckPacket_new_with_reason packet_id ReasonCode.Success))
      | None \<Rightarrow>
          respond L wr [] h
            (Packet.PubComp (AckPacket_new_with_reason packet_id ReasonCode.PacketIdentifierNotFound)))"

text \<open>The inbound part of \<open>load_persisted_inflight\<close>: the handler of a resumed session.\<close>

definition load_inbound_inflight :: "nat \<Rightarrow> ClientHandler \<Rightarrow> ClientHandler" where
  "load_inbound_inflight now h =
     (case ch_storage h of
        None \<Rightarrow> h
      | Some entries \<Rightarrow>
          h\<lparr>ch_inflight_publishes :=
              fold (\<lambda>msg. AList.update (im_packet_id msg)
                     (Pending (InflightMessage_to_publish_packet now msg)))
                (filter (\<lambda>msg. im_direction msg = Inbound)
                  (sort_key (\<lambda>msg. (im_stored_at_secs msg, unat (im_packet_id msg)))
                    (get_inflight_messages now entries)))
                (ch_inflight_publishes h)\<rparr>)"


subsection \<open>Responses\<close>

lemma write_to_client_ack:
  assumes "packet = Packet.PubRec a \<or> packet = Packet.PubComp a"
    and "write_to_client L wr h packet = Inr written" "written \<noteq> []"
  shows "\<exists>a'. written = [if packet = Packet.PubRec a then Packet.PubRec a' else Packet.PubComp a']
    \<and> ack_packet_id a' = ack_packet_id a \<and> ack_reason_code a' = ack_reason_code a"
  using assms
  by (auto simp: write_to_client_def Let_def res_bind_def split: option.splits sum.splits if_splits)

end
