(* ===== verification/Qos2_System.thy ===== *)
theory Qos2_System
  imports Client_Exchange Broker_Publish
begin

text \<open>
  A client and a broker that exchange QoS 2 publishes over a connection that may fail at any time.
  The system is built from the client's handlers (\<open>process_packet\<close>, \<open>transmit_publish\<close>,
  \<open>replay_item\<close>, \<open>outbound_replay\<close>), the broker's (\<open>handle_publish\<close>, \<open>broker_handle_pubrel\<close>,
  \<open>load_inbound_inflight\<close>) and two reliable, ordered channels that lose what is in transit when the
  connection fails. Every write of either side may fail, the broker may refuse a publish, and the
  replay after a reconnection runs interleaved with everything else.
\<close>

record system =
  sy_client :: Client
  sy_broker :: ClientHandler
  sy_connected :: bool
  sy_replay :: "OutboundReplay list"
  sy_to_broker :: "Packet list"
  sy_to_client :: "Packet list"
  sy_routed :: "PublishPacket list"
  sy_submitted :: "PublishPacket list"
  sy_settled :: "(nat \<times> PublishOutcome) list"

definition lose_connection :: "system \<Rightarrow> system" where
  "lose_connection s =
     s\<lparr>sy_connected := False, sy_replay := [], sy_to_broker := [], sy_to_client := [],
       sy_broker := (sy_broker s)\<lparr>ch_inflight_publishes := [], ch_topic_aliases := Map.empty\<rparr>\<rparr>"

definition end_unless_ok :: "'a result \<Rightarrow> system \<Rightarrow> system" where
  "end_unless_ok r s = (case r of Inr _ \<Rightarrow> s | Inl _ \<Rightarrow> lose_connection s)"

definition resume_session :: "nat \<Rightarrow> system \<Rightarrow> system" where
  "resume_session now s =
     s\<lparr>sy_connected := True, sy_broker := load_inbound_inflight now (sy_broker s),
       sy_replay := SessionState_outbound_replay (cl_session (sy_client s))\<rparr>"

definition client_does :: "Client \<Rightarrow> Effects \<Rightarrow> system \<Rightarrow> system" where
  "client_does c e s =
     s\<lparr>sy_client := c, sy_to_broker := sy_to_broker s @ ef_written e,
       sy_settled := sy_settled s @ ef_settled e\<rparr>"

definition broker_does :: "ClientHandler \<Rightarrow> Packet list \<Rightarrow> PublishPacket list \<Rightarrow> system \<Rightarrow> system" where
  "broker_does h written routed s =
     s\<lparr>sy_broker := h, sy_to_client := sy_to_client s @ written, sy_routed := sy_routed s @ routed\<rparr>"

text \<open>The publishes the application submits: QoS 2, without topic alias and message expiry.\<close>

definition plain_qos2 :: "PublishPacket \<Rightarrow> bool" where
  "plain_qos2 publish \<longleftrightarrow>
     pub_qos publish = QoS.ExactlyOnce
     \<and> Properties_get_topic_alias (pub_properties publish) = None
     \<and> Properties_get_message_expiry_interval (pub_properties publish) = None"

inductive qos2_step :: "wire_ops \<Rightarrow> system \<Rightarrow> system \<Rightarrow> bool" for L where
  submit:
    "sy_connected s \<Longrightarrow> plain_qos2 publish \<Longrightarrow> cell \<noteq> 0
     \<Longrightarrow> SessionState_allocate_packet_id in_use_elsewhere cell (cl_session (sy_client s)) = (Some p, cell')
     \<Longrightarrow> publish' = publish\<lparr>pub_packet_id := Some p\<rparr>
     \<Longrightarrow> transmit_publish now wr (length (sy_submitted s)) publish' (sy_client s) = (c, e, r)
     \<Longrightarrow> qos2_step L s ((client_does c e s)\<lparr>sy_submitted := sy_submitted s @ [publish']\<rparr>)"
| client_receives:
    "sy_connected s \<Longrightarrow> sy_to_client s = packet # rest
     \<Longrightarrow> process_packet L env now wr packet (sy_client s) = (c, e, r)
     \<Longrightarrow> qos2_step L s (end_unless_ok r (client_does c e (s\<lparr>sy_to_client := rest\<rparr>)))"
| broker_receives_publish:
    "sy_connected s \<Longrightarrow> sy_to_broker s = Packet.Publish publish # rest
     \<Longrightarrow> pe_on_client_publish env = (\<lambda>_. PublishAction.Continue)
     \<Longrightarrow> handle_publish L env now wr publish (sy_broker s) = (h, written, routed, r)
     \<Longrightarrow> qos2_step L s (end_unless_ok r (broker_does h written routed (s\<lparr>sy_to_broker := rest\<rparr>)))"
| broker_receives_pubrel:
    "sy_connected s \<Longrightarrow> sy_to_broker s = Packet.PubRel pubrel # rest
     \<Longrightarrow> broker_handle_pubrel L wr pubrel (sy_broker s) = (h, written, routed, r)
     \<Longrightarrow> qos2_step L s (end_unless_ok r (broker_does h written routed (s\<lparr>sy_to_broker := rest\<rparr>)))"
| replay:
    "sy_connected s \<Longrightarrow> sy_replay s = item # items
     \<Longrightarrow> replay_item L now wr policy slot is_current item (sy_client s) = (c, e, goes_on)
     \<Longrightarrow> qos2_step L s ((client_does c e s)\<lparr>sy_replay := (if goes_on then items else [])\<rparr>)"
| lose: "sy_connected s \<Longrightarrow> qos2_step L s (lose_connection s)"
| resume: "\<not> sy_connected s \<Longrightarrow> qos2_step L s (resume_session now s)"

definition fresh_client :: "Client \<Rightarrow> bool" where
  "fresh_client c \<longleftrightarrow>
     ss_unacked_publishes (cl_session c) = [] \<and> ss_unacked_pubrels (cl_session c) = []
     \<and> cl_outcomes c = []"

definition system_init :: "Client \<Rightarrow> ClientHandler \<Rightarrow> system" where
  "system_init c h =
     \<lparr>sy_client = c, sy_broker = h\<lparr>ch_inflight_publishes := [], ch_storage := Some []\<rparr>,
      sy_connected = True, sy_replay = [], sy_to_broker = [], sy_to_client = [], sy_routed = [],
      sy_submitted = [], sy_settled = []\<rparr>"

inductive reachable :: "wire_ops \<Rightarrow> system \<Rightarrow> bool" for L where
  init: "fresh_client c \<Longrightarrow> reachable L (system_init c h)"
| step: "reachable L s \<Longrightarrow> qos2_step L s s' \<Longrightarrow> reachable L s'"

subsection \<open>The view of one packet identifier\<close>

datatype message = Message string bytes

definition content :: "PublishPacket \<Rightarrow> message" where
  "content publish = Message (pub_topic_name publish) (pub_payload publish)"

fun packet_for :: "Packet \<Rightarrow> u16 option" where
  "packet_for (Packet.Publish publish) = pub_packet_id publish"
| "packet_for (Packet.PubRec ack) = Some (ack_packet_id ack)"
| "packet_for (Packet.PubRel ack) = Some (ack_packet_id ack)"
| "packet_for (Packet.PubComp ack) = Some (ack_packet_id ack)"
| "packet_for _ = None"

datatype token = TPub PublishPacket | TRel

fun packet_token :: "Packet \<Rightarrow> token" where
  "packet_token (Packet.Publish publish) = TPub publish"
| "packet_token _ = TRel"

fun replay_token :: "OutboundReplay \<Rightarrow> token" where
  "replay_token (OutboundReplay.Publish publish) = TPub publish"
| "replay_token (OutboundReplay.PubRel _) = TRel"

record view =
  vw_tracked :: "Tracked option"
  vw_pub :: "(u64 \<times> PublishPacket) option"
  vw_rel :: bool
  vw_forward :: "token list"
  vw_backward :: "Packet list"
  vw_inflight :: "InflightPublish option"
  vw_stored :: "InflightMessage option"

definition store_of :: "ClientHandler \<Rightarrow> inflight_store" where
  "store_of h = (case ch_storage h of Some entries \<Rightarrow> entries | None \<Rightarrow> [])"

definition at :: "u16 \<Rightarrow> Packet list \<Rightarrow> Packet list" where
  "at p packets = filter (\<lambda>packet. packet_for packet = Some p) packets"

definition replay_at :: "u16 \<Rightarrow> OutboundReplay list \<Rightarrow> OutboundReplay list" where
  "replay_at p items = filter (\<lambda>i. replay_id i = p) items"

definition view :: "system \<Rightarrow> u16 \<Rightarrow> view" where
  "view s p =
     \<lparr>vw_tracked = map_of (cl_outcomes (sy_client s)) p,
      vw_pub = pubs (cl_session (sy_client s)) p,
      vw_rel = (rels (cl_session (sy_client s)) p \<noteq> None),
      vw_forward = map packet_token (at p (sy_to_broker s)) @ map replay_token (replay_at p (sy_replay s)),
      vw_backward = at p (sy_to_client s),
      vw_inflight = map_of (ch_inflight_publishes (sy_broker s)) p,
      vw_stored = map_of (store_of (sy_broker s)) (p, Inbound)\<rparr>"

definition carries :: "u16 \<Rightarrow> message \<Rightarrow> PublishPacket \<Rightarrow> bool" where
  "carries p m publish \<longleftrightarrow> plain_qos2 publish \<and> pub_packet_id publish = Some p \<and> content publish = m"

definition holds_message :: "u16 \<Rightarrow> message \<Rightarrow> InflightMessage \<Rightarrow> bool" where
  "holds_message p m msg \<longleftrightarrow> Message (im_topic msg) (im_payload msg) = m"

text \<open>Where the exchange of one identifier may stand; \<open>m\<close> is the message the identifier was used for.\<close>

inductive exchange_ok :: "u16 \<Rightarrow> message \<Rightarrow> view \<Rightarrow> bool" for p m where
  publishing:
    "vw_pub v = Some (order, publish) \<Longrightarrow> carries p m publish \<Longrightarrow> \<not> vw_rel v
     \<Longrightarrow> (\<forall>t \<in> set (vw_forward v). \<exists>publish. t = TPub publish \<and> carries p m publish)
     \<Longrightarrow> (\<forall>packet \<in> set (vw_backward v). \<exists>ack. packet = Packet.PubRec ack
           \<and> (\<not> ReasonCode_is_error (ack_reason_code ack)
               \<longrightarrow> (\<exists>msg. vw_stored v = Some msg \<and> holds_message p m msg)))
     \<Longrightarrow> length (vw_forward v) + length (vw_backward v) \<le> 1
     \<Longrightarrow> exchange_ok p m v"
| releasing:
    "vw_pub v = None \<Longrightarrow> vw_rel v
     \<Longrightarrow> (\<forall>msg. vw_stored v = Some msg \<longrightarrow> holds_message p m msg)
     \<Longrightarrow> set (vw_forward v) \<subseteq> {TRel}
     \<Longrightarrow> (\<forall>packet \<in> set (vw_backward v). (\<exists>ack. packet = Packet.PubComp ack) \<and> vw_stored v = None)
     \<Longrightarrow> length (vw_forward v) + length (vw_backward v) \<le> 1
     \<Longrightarrow> exchange_ok p m v"

definition broker_ok :: "bool \<Rightarrow> u16 \<Rightarrow> view \<Rightarrow> bool" where
  "broker_ok connected p v \<longleftrightarrow>
     (if connected then
        (case vw_stored v of
           None \<Rightarrow> vw_inflight v = None
         | Some msg \<Rightarrow> \<exists>publish. vw_inflight v = Some (Pending publish)
             \<and> content publish = Message (im_topic msg) (im_payload msg))
      else vw_inflight v = None)"

definition id_ok :: "system \<Rightarrow> u16 \<Rightarrow> bool" where
  "id_ok s p \<longleftrightarrow>
     broker_ok (sy_connected s) p (view s p)
     \<and> (case vw_tracked (view s p) of
          None \<Rightarrow> vw_pub (view s p) = None \<and> \<not> vw_rel (view s p) \<and> vw_forward (view s p) = []
            \<and> vw_backward (view s p) = []
        | Some tracked \<Rightarrow>
            tr_qos tracked = QoS.ExactlyOnce
            \<and> co_outcome (tr_completion tracked) < length (sy_submitted s)
            \<and> exchange_ok p (content (sy_submitted s ! co_outcome (tr_completion tracked))) (view s p))"

text \<open>The persisted messages are the publishes received from the client, none of them with an expiry.\<close>

abbreviation inbound_entries :: "inflight_store \<Rightarrow> bool" where
  "inbound_entries entries \<equiv> \<forall>((q, d), msg) \<in> set entries.
     d = Inbound \<and> im_packet_id msg = q \<and> im_direction msg = Inbound \<and> im_expires_at_cache msg = None"

definition stores_ok :: "system \<Rightarrow> bool" where
  "stores_ok s \<longleftrightarrow>
     tables_ok (cl_session (sy_client s))
     \<and> distinct (map fst (cl_outcomes (sy_client s)))
     \<and> ch_storage (sy_broker s) \<noteq> None
     \<and> distinct (map fst (store_of (sy_broker s)))
     \<and> inbound_entries (store_of (sy_broker s))
     \<and> (\<forall>packet \<in> set (sy_to_client s). \<exists>ack. packet = Packet.PubRec ack \<or> packet = Packet.PubComp ack)
     \<and> (\<forall>packet \<in> set (sy_to_broker s). packet_for packet \<noteq> None)
     \<and> (\<not> sy_connected s \<longrightarrow> sy_to_broker s = [] \<and> sy_to_client s = [] \<and> sy_replay s = []
          \<and> ch_inflight_publishes (sy_broker s) = [])"

text \<open>The message of an exchange that the broker has routed and the client has not yet settled.\<close>

definition in_transit :: "system \<Rightarrow> u16 \<Rightarrow> message multiset" where
  "in_transit s p =
     (case vw_tracked (view s p) of
        Some tracked \<Rightarrow>
          if vw_rel (view s p) \<and> vw_stored (view s p) = None
          then {# content (sy_submitted s ! co_outcome (tr_completion tracked)) #} else {#}
      | None \<Rightarrow> {#})"

definition delivered_handles :: "system \<Rightarrow> nat list" where
  "delivered_handles s =
     map fst (filter (\<lambda>(_, outcome). case outcome of Delivered _ \<Rightarrow> True | _ \<Rightarrow> False) (sy_settled s))"

definition accounts_ok :: "system \<Rightarrow> bool" where
  "accounts_ok s \<longleftrightarrow>
     mset (map fst (sy_settled s)) + mset (flying (cl_outcomes (sy_client s)))
       = mset [0..<length (sy_submitted s)]
     \<and> mset (map content (sy_routed s))
       = mset (map (\<lambda>h. content (sy_submitted s ! h)) (delivered_handles s)) + (\<Sum>p \<in> UNIV. in_transit s p)"

definition system_inv :: "system \<Rightarrow> bool" where
  "system_inv s \<longleftrightarrow> stores_ok s \<and> (\<forall>p. id_ok s p) \<and> accounts_ok s"


subsection \<open>Steps at one identifier\<close>

lemma view_simps:
  "vw_tracked (view s p) = map_of (cl_outcomes (sy_client s)) p"
  "vw_pub (view s p) = pubs (cl_session (sy_client s)) p"
  "vw_rel (view s p) = (rels (cl_session (sy_client s)) p \<noteq> None)"
  "vw_forward (view s p) =
     map packet_token (at p (sy_to_broker s)) @ map replay_token (replay_at p (sy_replay s))"
  "vw_backward (view s p) = at p (sy_to_client s)"
  "vw_inflight (view s p) = map_of (ch_inflight_publishes (sy_broker s)) p"
  "vw_stored (view s p) = map_of (store_of (sy_broker s)) (p, Inbound)"
  by (simp_all add: view_def)

lemma id_ok_frame:
  assumes "id_ok s q" "view s' q = view s q" "sy_connected s' = sy_connected s"
    and "sy_submitted s' = sy_submitted s @ new"
  shows "id_ok s' q"
  using assms by (cases "vw_tracked (view s q)") (simp_all add: id_ok_def nth_append)

lemma in_transit_frame:
  assumes "id_ok s q" "view s' q = view s q" "sy_submitted s' = sy_submitted s @ new"
  shows "in_transit s' q = in_transit s q"
  using assms by (cases "vw_tracked (view s q)") (simp_all add: id_ok_def in_transit_def nth_append)

lemma sum_at:
  fixes f g :: "u16 \<Rightarrow> 'a multiset"
  assumes "\<And>q. q \<noteq> p \<Longrightarrow> g q = f q"
  shows "(\<Sum>q \<in> UNIV. g q) + f p = (\<Sum>q \<in> UNIV. f q) + g p"
proof -
  have "(\<Sum>q \<in> UNIV - {p}. g q) = (\<Sum>q \<in> UNIV - {p}. f q)"
    using assms by (intro sum.cong) auto
  moreover have "(\<Sum>q \<in> UNIV. h q) = h p + (\<Sum>q \<in> UNIV - {p}. h q)" for h :: "u16 \<Rightarrow> 'a multiset"
    by (rule sum.remove) (rule finite, rule UNIV_I)
  ultimately show ?thesis
    by (simp only: ac_simps)
qed

abbreviation delivered_of :: "(nat \<times> PublishOutcome) list \<Rightarrow> nat list" where
  "delivered_of ds \<equiv>
     map fst (filter (\<lambda>(_, outcome). case outcome of Delivered _ \<Rightarrow> True | _ \<Rightarrow> False) ds)"

text \<open>
  A step that concerns identifier \<open>p\<close> alone preserves the invariant, if it does at \<open>p\<close> and its
  routed and settled messages balance the message in transit there.
\<close>

lemma local_step:
  assumes inv: "system_inv s" and stores: "stores_ok s'" and here: "id_ok s' p"
    and frame: "\<And>q. q \<noteq> p \<Longrightarrow> view s' q = view s q"
    and conn: "sy_connected s' = sy_connected s"
    and sub: "sy_submitted s' = sy_submitted s @ new"
    and routed: "sy_routed s' = sy_routed s @ R" and settled: "sy_settled s' = sy_settled s @ D"
    and handles: "mset (map fst D) + mset (flying (cl_outcomes (sy_client s')))
      = mset (flying (cl_outcomes (sy_client s))) + mset [length (sy_submitted s)..<length (sy_submitted s')]"
    and balance: "mset (map content R) + in_transit s p
      = mset (map (\<lambda>h. content (sy_submitted s' ! h)) (delivered_of D)) + in_transit s' p"
  shows "system_inv s'"
proof -
  have ids: "id_ok s q" for q
    using inv by (simp add: system_inv_def)
  have "id_ok s' q" for q
    using here ids frame conn sub by (cases "q = p") (auto intro: id_ok_frame)
  moreover have "accounts_ok s'"
    unfolding accounts_ok_def
  proof
    have "[0..<length (sy_submitted s')]
        = [0..<length (sy_submitted s)] @ [length (sy_submitted s)..<length (sy_submitted s')]"
      using sub upt_add_eq_append [of 0 "length (sy_submitted s)" "length new"] by simp
    then have "mset [0..<length (sy_submitted s')] = mset (map fst (sy_settled s))
        + (mset (flying (cl_outcomes (sy_client s))) + mset [length (sy_submitted s)..<length (sy_submitted s')])"
      using inv by (simp only: system_inv_def accounts_ok_def mset_append union_assoc [symmetric])
    then show "mset (map fst (sy_settled s')) + mset (flying (cl_outcomes (sy_client s')))
        = mset [0..<length (sy_submitted s')]"
      by (simp only: handles [symmetric] settled map_append mset_append union_assoc)
  next
    have old: "\<forall>h \<in> set (delivered_handles s). h < length (sy_submitted s)"
    proof
      fix h assume "h \<in> set (delivered_handles s)"
      then have "h \<in># mset (map fst (sy_settled s))"
        by (auto simp: delivered_handles_def)
      then have "h \<in># mset [0..<length (sy_submitted s)]"
        using inv by (metis accounts_ok_def system_inv_def union_iff)
      then show "h < length (sy_submitted s)"
        by simp
    qed
    have transit: "(\<Sum>q \<in> UNIV. in_transit s' q) + in_transit s p = (\<Sum>q \<in> UNIV. in_transit s q) + in_transit s' p"
      using frame ids sub by (intro sum_at) (auto intro: in_transit_frame)
    have deliv: "map (\<lambda>h. content (sy_submitted s' ! h)) (delivered_handles s)
        = map (\<lambda>h. content (sy_submitted s ! h)) (delivered_handles s)"
      using old by (simp add: sub nth_append)
    have "mset (map content (sy_routed s')) + in_transit s p
      = mset (map content (sy_routed s)) + (mset (map content R) + in_transit s p)"
      by (simp add: routed)
    also have "\<dots> = mset (map (\<lambda>h. content (sy_submitted s ! h)) (delivered_handles s))
        + mset (map (\<lambda>h. content (sy_submitted s' ! h)) (delivered_of D))
        + ((\<Sum>q \<in> UNIV. in_transit s q) + in_transit s' p)"
    proof -
      have "mset (map content (sy_routed s))
          = mset (map (\<lambda>h. content (sy_submitted s ! h)) (delivered_handles s)) + (\<Sum>q \<in> UNIV. in_transit s q)"
        using inv by (simp only: system_inv_def accounts_ok_def)
      then show ?thesis
        unfolding balance by (simp only: ac_simps)
    qed
    also have "\<dots> = mset (map (\<lambda>h. content (sy_submitted s' ! h)) (delivered_handles s'))
        + (\<Sum>q \<in> UNIV. in_transit s' q) + in_transit s p"
    proof -
      have "delivered_handles s' = delivered_handles s @ delivered_of D"
        by (simp add: delivered_handles_def settled)
      then show ?thesis
        unfolding transit [symmetric] by (simp only: map_append mset_append deliv ac_simps)
    qed
    finally show "mset (map content (sy_routed s'))
        = mset (map (\<lambda>h. content (sy_submitted s' ! h)) (delivered_handles s'))
          + (\<Sum>q \<in> UNIV. in_transit s' q)"
      by simp
  qed
  ultimately show ?thesis
    using stores by (simp add: system_inv_def)
qed

text \<open>Steps that only empty channels, or fill them with the replay, change no account.\<close>

lemma channel_step:
  assumes "system_inv s" "stores_ok s'" "\<And>p. id_ok s' p"
    and "sy_submitted s' = sy_submitted s" "sy_routed s' = sy_routed s" "sy_settled s' = sy_settled s"
    and "sy_client s' = sy_client s" "store_of (sy_broker s') = store_of (sy_broker s)"
  shows "system_inv s'"
proof -
  have "in_transit s' p = in_transit s p" for p
    unfolding in_transit_def view_simps assms(4,7,8) by (rule refl)
  then show ?thesis
    using assms by (simp add: system_inv_def accounts_ok_def delivered_handles_def)
qed

lemma exchange_ok_fewer:
  assumes "exchange_ok p m v" "vw_forward v' = [] \<or> vw_forward v' = vw_forward v"
    and "vw_backward v' = [] \<or> vw_backward v' = vw_backward v"
    and "vw_pub v' = vw_pub v" "vw_rel v' = vw_rel v" "vw_stored v' = vw_stored v"
  shows "exchange_ok p m v'"
proof -
  have sub: "set (vw_forward v') \<subseteq> set (vw_forward v)" "set (vw_backward v') \<subseteq> set (vw_backward v)"
      "length (vw_forward v') + length (vw_backward v') \<le> length (vw_forward v) + length (vw_backward v)"
    using assms(2,3) by auto
  from assms(1) show ?thesis
  proof cases
    case (publishing order publish)
    show ?thesis
    proof (rule exchange_ok.publishing [of v' order publish])
      show "\<forall>t \<in> set (vw_forward v'). \<exists>publish. t = TPub publish \<and> carries p m publish"
        using publishing(4) sub(1) by blast
      show "\<forall>packet \<in> set (vw_backward v'). \<exists>ack. packet = Packet.PubRec ack
          \<and> (\<not> ReasonCode_is_error (ack_reason_code ack)
              \<longrightarrow> (\<exists>msg. vw_stored v' = Some msg \<and> holds_message p m msg))"
        unfolding assms(6) using publishing(5) sub(2) by blast
    qed (use publishing sub(3) assms(4,5) in simp_all)
  next
    case releasing
    then show ?thesis
      using sub assms(4-) by (intro exchange_ok.releasing) (simp, simp, simp, blast, auto)
  qed
qed

lemma id_ok_fewer:
  assumes "id_ok s p" "sy_submitted s' = sy_submitted s" "broker_ok (sy_connected s') p (view s' p)"
    and "vw_forward (view s' p) = [] \<or> vw_forward (view s' p) = vw_forward (view s p)"
    and "vw_backward (view s' p) = [] \<or> vw_backward (view s' p) = vw_backward (view s p)"
    and "sy_client s' = sy_client s" "store_of (sy_broker s') = store_of (sy_broker s)"
  shows "id_ok s' p"
proof -
  have v: "vw_tracked (view s' p) = vw_tracked (view s p)" "vw_pub (view s' p) = vw_pub (view s p)"
      "vw_rel (view s' p) = vw_rel (view s p)" "vw_stored (view s' p) = vw_stored (view s p)"
    using assms(6,7) by (simp_all add: view_simps)
  have "exchange_ok p m (view s' p)" if "exchange_ok p m (view s p)" for m
    by (rule exchange_ok_fewer [OF that assms(4,5) v(2-4)])
  with assms(1-5) v show ?thesis
    by (cases "vw_tracked (view s p)") (auto simp add: id_ok_def)
qed

lemma lose_connection_inv:
  assumes "system_inv s"
  shows "system_inv (lose_connection s)"
proof (rule channel_step [OF assms])
  show "stores_ok (lose_connection s)"
    using assms by (simp add: system_inv_def stores_ok_def lose_connection_def store_of_def)
  fix p
  have "id_ok s p"
    using assms by (simp add: system_inv_def)
  then show "id_ok (lose_connection s) p"
    by (rule id_ok_fewer)
      (simp_all add: broker_ok_def view_simps lose_connection_def at_def replay_at_def store_of_def)
qed (simp_all add: lose_connection_def store_of_def)

lemma end_unless_ok_inv: "system_inv s \<Longrightarrow> system_inv (end_unless_ok r s)"
  by (simp add: end_unless_ok_def lose_connection_inv split: sum.split)

lemma forward_short:
  assumes "id_ok s p"
  shows "length (at p (sy_to_broker s)) + length (replay_at p (sy_replay s)) + length (at p (sy_to_client s)) \<le> 1"
proof (cases "vw_tracked (view s p)")
  case None
  with assms show ?thesis
    by (simp add: id_ok_def view_simps)
next
  case (Some tracked)
  with assms obtain m where "exchange_ok p m (view s p)"
    by (auto simp: id_ok_def)
  then have "length (vw_forward (view s p)) + length (vw_backward (view s p)) \<le> 1"
    by cases
  then show ?thesis
    by (simp add: view_simps)
qed

lemma drop_replay_inv:
  assumes "system_inv s"
  shows "system_inv (s\<lparr>sy_replay := []\<rparr>)"
proof (rule channel_step [OF assms])
  show "stores_ok (s\<lparr>sy_replay := []\<rparr>)"
    using assms by (simp add: system_inv_def stores_ok_def)
  fix p
  have ok: "id_ok s p"
    using assms by (simp add: system_inv_def)
  then have "broker_ok (sy_connected s) p (view s p)"
    by (simp add: id_ok_def)
  moreover have "at p (sy_to_broker s) = [] \<or> replay_at p (sy_replay s) = []"
    using forward_short [OF ok] by (cases "at p (sy_to_broker s)") auto
  ultimately show "id_ok (s\<lparr>sy_replay := []\<rparr>) p"
    by (intro id_ok_fewer [OF ok]) (auto simp: broker_ok_def view_simps replay_at_def [of p "[]"] cong: option.case_cong)
qed simp_all


subsection \<open>Resuming the session\<close>

lemma plain_pub_id:
  assumes "id_ok s q" "pubs (cl_session (sy_client s)) q = Some (order, publish)"
  shows "pub_packet_id publish = Some q"
proof (cases "vw_tracked (view s q)")
  case None
  with assms show ?thesis
    by (simp add: id_ok_def view_simps)
next
  case (Some tracked)
  with assms obtain m where "exchange_ok q m (view s q)"
    by (auto simp: id_ok_def)
  then show ?thesis
    using assms(2) by cases (auto simp: view_simps carries_def)
qed

lemma replay_forward:
  assumes inv: "system_inv s"
  shows "map replay_token (replay_at p (SessionState_outbound_replay (cl_session (sy_client s)))) =
    (case vw_pub (view s p) of
       Some (_, publish) \<Rightarrow> [TPub publish]
     | None \<Rightarrow> if vw_rel (view s p) then [TRel] else [])"
proof -
  have ok: "id_ok s p"
    using inv by (simp add: system_inv_def)
  have "pubs (cl_session (sy_client s)) p = None \<or> rels (cl_session (sy_client s)) p = None"
  proof (cases "vw_tracked (view s p)")
    case None
    with ok show ?thesis
      by (simp add: id_ok_def view_simps)
  next
    case (Some tracked)
    with ok obtain m where "exchange_ok p m (view s p)"
      by (auto simp: id_ok_def)
    then show ?thesis
      by cases (auto simp: view_simps)
  qed
  with inv plain_pub_id [of s] show ?thesis
    unfolding replay_at_def system_inv_def stores_ok_def
    by (subst outbound_replay_at) (auto simp: view_simps split: option.split)
qed

lemma find_unique:
  assumes "distinct (map k ms)" "m \<in> set ms" "k m = p"
  shows "find (\<lambda>m. k m = p) ms = Some m"
  using assms by (induction ms) (auto simp: image_iff)

lemma load_inbound_at:
  assumes "ch_storage h = Some entries" "ch_inflight_publishes h = []" "distinct (map fst entries)"
    and "inbound_entries entries"
  shows "map_of (ch_inflight_publishes (load_inbound_inflight now h)) p =
    map_option (\<lambda>msg. Pending (InflightMessage_to_publish_packet now msg)) (map_of entries (p, Inbound))"
proof -
  have each: "d = Inbound \<and> im_packet_id msg = q \<and> im_direction msg = Inbound \<and> im_expires_at_cache msg = None"
    if "((q, d), msg) \<in> set entries" for q d msg
    using assms(4) that by auto
  let ?ms = "filter (\<lambda>msg. im_direction msg = Inbound)
    (sort_key (\<lambda>msg. (im_stored_at_secs msg, unat (im_packet_id msg))) (get_inflight_messages now entries))"
  have ms: "mset ?ms = mset (map snd entries)"
  proof -
    have "get_inflight_messages now entries = map snd entries"
      using assms(4) by (auto simp: get_inflight_messages_def InflightMessage_is_expired_def filter_id_conv)
    moreover have "filter_mset (\<lambda>msg. im_direction msg = Inbound) (mset (map snd entries)) = mset (map snd entries)"
      using assms(4) by (auto simp: filter_mset_eq_conv)
    ultimately show ?thesis
      by simp
  qed
  have set_ms: "set ?ms = set (map snd entries)"
    by (rule mset_eq_setD [OF ms])
  have keys: "map im_packet_id (map snd entries) = map fst (map fst entries)"
    using assms(4) by auto
  have "inj_on fst (set (map fst entries))"
  proof -
    have "snd k = Inbound" if "k \<in> set (map fst entries)" for k
      using that each by fastforce
    then show ?thesis
      by (intro inj_onI prod_eqI) simp_all
  qed
  then have "distinct (map im_packet_id (map snd entries))"
    unfolding keys distinct_map [of fst "map fst entries"] using assms(3) by blast
  then have dist: "distinct (map im_packet_id ?ms)"
    using ms by (metis mset_eq_imp_distinct_iff mset_map)
  have "find (\<lambda>msg. im_packet_id msg = p) ?ms = map_of entries (p, Inbound)"
  proof (cases "map_of entries (p, Inbound)")
    case None
    then have "\<forall>msg \<in> set (map snd entries). im_packet_id msg \<noteq> p"
      using each by (force simp: map_of_eq_None_iff)
    then show ?thesis
      using None by (simp only: find_None_iff set_ms) blast
  next
    case (Some msg)
    have "msg \<in> set ?ms" "im_packet_id msg = p"
      using map_of_SomeD [OF Some] each unfolding set_ms by force+
    with dist Some show ?thesis
      by (simp only: find_unique)
  qed
  then show ?thesis
    by (simp add: load_inbound_inflight_def assms(1,2) alist_fold_update [OF dist] split: option.split)
qed

lemma to_publish_content:
  "content (InflightMessage_to_publish_packet now msg) = Message (im_topic msg) (im_payload msg)"
  by (simp add: content_def InflightMessage_to_publish_packet_def Let_def apply_v5_props_def
      PublishPacket_with_retain_def PublishPacket_new_def)

lemma resume_session_inv:
  assumes inv: "system_inv s" and conn: "\<not> sy_connected s"
  shows "system_inv (resume_session now s)"
proof (rule channel_step [OF inv])
  have stores: "stores_ok s"
    using inv by (simp add: system_inv_def)
  obtain entries where entries: "ch_storage (sy_broker s) = Some entries"
    using stores by (auto simp: stores_ok_def)
  have storage: "ch_storage (load_inbound_inflight now (sy_broker s)) = Some entries"
    by (simp add: load_inbound_inflight_def entries)
  then show store: "store_of (sy_broker (resume_session now s)) = store_of (sy_broker s)"
    by (simp add: resume_session_def store_of_def entries)
  then show "stores_ok (resume_session now s)"
    using stores conn storage by (simp add: stores_ok_def resume_session_def)
  fix p
  let ?v = "view s p" and ?v' = "view (resume_session now s) p"
  have ok: "id_ok s p"
    using inv by (simp add: system_inv_def)
  have v': "vw_tracked ?v' = vw_tracked ?v" "vw_pub ?v' = vw_pub ?v" "vw_rel ?v' = vw_rel ?v"
      "vw_stored ?v' = vw_stored ?v" "vw_backward ?v' = []"
      "vw_forward ?v' = (case vw_pub ?v of Some (_, publish) \<Rightarrow> [TPub publish]
         | None \<Rightarrow> if vw_rel ?v then [TRel] else [])"
    using stores conn replay_forward [OF inv, of p]
    by (simp_all add: view_simps resume_session_def stores_ok_def at_def flip: store [unfolded resume_session_def, simplified])
  have "vw_stored ?v' = map_of entries (p, Inbound)"
    by (simp add: view_simps resume_session_def store_of_def storage)
  moreover have "vw_inflight ?v' =
      map_option (\<lambda>msg. Pending (InflightMessage_to_publish_packet now msg)) (map_of entries (p, Inbound))"
    using load_inbound_at [OF entries, of now p] stores conn
    by (simp add: view_simps resume_session_def stores_ok_def store_of_def entries)
  ultimately have "broker_ok True p ?v'"
    by (simp add: broker_ok_def to_publish_content split: option.split)
  moreover have "exchange_ok p m ?v'" if "exchange_ok p m ?v" for m
    using that
  proof cases
    case (publishing order publish)
    then show ?thesis
      by (intro exchange_ok.publishing [of ?v' order publish]) (simp_all add: v')
  next
    case releasing
    then show ?thesis
      by (intro exchange_ok.releasing) (simp_all add: v')
  qed
  moreover have "sy_submitted (resume_session now s) = sy_submitted s" "sy_connected (resume_session now s)"
    by (simp_all add: resume_session_def)
  ultimately show "id_ok (resume_session now s) p"
    using ok by (cases "vw_tracked ?v") (simp_all add: id_ok_def v')
qed (simp_all add: resume_session_def)

end
