(* ===== verification/Qos2_Run.thy ===== *)
theory Qos2_Run
  imports Qos2_System
begin

text \<open>
  One complete QoS 2 exchange, computed from the handlers: the client sends a publish, the broker
  stores it and answers with PUBREC, the client releases it, the broker routes it and completes the
  exchange. It shows that the runs \<open>Qos2_Delivery\<close> speaks about exist.
\<close>

definition ex_publish :: PublishPacket where
  "ex_publish = (PublishPacket_new ''a'' [7] QoS.ExactlyOnce)\<lparr>pub_packet_id := Some 1\<rparr>"

definition ex_client :: Client where
  "ex_client = \<lparr>cl_session = SessionState_new 0, cl_outcomes = [], cl_topic_aliases = TopicAliasManager_new 0,
      cl_topic_alias_out = TopicAliasManager_new 0, cl_keepalive = KeepaliveState_default,
      cl_outbound_ids = OutboundIds_default, cl_suback_channels = [], cl_unsuback_channels = []\<rparr>"

definition ex_broker :: ClientHandler where
  "ex_broker = \<lparr>ch_client_id = ''c'', ch_user_id = None, ch_inflight_publishes = [],
      ch_server_receive_maximum = 10, ch_topic_aliases = Map.empty, ch_topic_alias_maximum = 0, ch_maximum_qos = 2,
      ch_request_problem_information = True, ch_client_max_packet_size = None, ch_storage = Some []\<rparr>"

definition ex_env :: publish_env where
  "ex_env = \<lparr>pe_authorize_publish = \<lambda>_ _ _. True, pe_max_retained_message_size = 0, 
     pe_retained_store_full = \<lambda>_. False, pe_can_send_message = \<lambda>_ _. True, pe_on_client_publish = \<lambda>_. PublishAction.Continue\<rparr>"

definition ex_reader :: reader_env where
  "ex_reader = \<lparr>re_request_problem_information = True, re_auth_method = None, re_auth_handler = None\<rparr>"

definition ex_injected :: PublishPacket where
  "ex_injected = ex_publish\<lparr>pub_properties := Properties_inject_client_id
    (Properties_inject_sender (pub_properties ex_publish) None) (Some ''c'')\<rparr>"

definition ex_client_sent :: Client where
  "ex_client_sent = ex_client\<lparr>
     cl_session := (SessionState_new 0)\<lparr>ss_unacked_publishes := [(1, (0, ex_publish))], ss_outbound_send_order := 1\<rparr>,
     cl_outcomes := [(1, \<lparr>tr_qos = QoS.ExactlyOnce, tr_completion = \<lparr>co_outcome = 0, co_resent = False\<rparr>\<rparr>)],
     cl_outbound_ids := IdReservation_drop OutboundIds_default 1\<rparr>"

definition ex_client_released :: Client where
  "ex_client_released = ex_client_sent\<lparr>
     cl_session := (SessionState_new 0)\<lparr>ss_unacked_pubrels := [(1, (1, 0))], ss_outbound_send_order := 3\<rparr>\<rparr>"

definition ex_broker_holding :: ClientHandler where
  "ex_broker_holding = ex_broker\<lparr>ch_inflight_publishes := [(1, Pending ex_injected)],
     ch_storage := Some [((1, Inbound), InflightMessage_from_publish 0 ex_injected ''c'' Inbound AwaitingPubrel)]\<rparr>"

lemma ex_sends: "transmit_publish 0 (\<lambda>_. Inr ()) 0 ex_publish ex_client =
   (ex_client_sent, no_effects\<lparr>ef_written := [Packet.Publish ex_publish]\<rparr>, Inr (InFlight 0))"
  by (simp add: transmit_publish_def ex_publish_def ex_client_def PublishPacket_new_def with_aliased_topic_def PublishPacket_topic_alias_def
    Properties_get_def Properties_new_def res_bind_def SessionState_store_unacked_publish_def SessionState_next_send_order_def SessionState_touch_def
   ex_client_sent_def SessionState_new_def OutcomeTracker_track_def Completion_new_def no_effects_def record_outbound_topic_alias_def Let_def)

lemma ex_allocates: "SessionState_allocate_packet_id (\<lambda>_. False) 1 (cl_session ex_client) = (Some 1, cyc_next 0xFFFF 1)"
  by (auto simp: SessionState_allocate_packet_id_def PacketIdGenerator_next_available_def
    ex_client_def SessionState_new_def next_available_loop_eq intro: exI [of _ 0])

lemma ex_valid: "validate_publish_properties ex_publish = Inr ()"
proof -
  have "is_valid_topic_name ''a''"
    by (simp add: is_valid_topic_name_def eval_simps limits_MAX_STRING_LENGTH_def)
  then show ?thesis
  by (simp add: validate_publish_properties_def ex_publish_def PublishPacket_new_def Properties_new_def Properties_get_def
    Properties_get_subscription_identifier_def res_bind_def validate_topic_name_def)
qed

lemma ex_accepts: "handle_publish ref_ops ex_env 0 (\<lambda>_. Inr ()) ex_publish ex_broker =
   (ex_broker_holding, [Packet.PubRec (AckPacket_new 1)], [], Inr ())"
proof -
  have h: "check_receive_maximum ref_ops (\<lambda>_. Inr ()) ex_broker ex_publish = None"
     "resolve_topic_alias ex_broker ex_publish = Inr (ex_broker, ex_publish)"
     "QoS_to_u8 (pub_qos ex_publish) = ch_maximum_qos ex_broker" "ch_user_id ex_broker = None" "ch_client_id ex_broker = ''c''"
     "\<not> pub_retain ex_publish" "ch_client_max_packet_size ex_broker = None" "ch_inflight_publishes ex_broker = []" "ch_storage ex_broker = Some []"
    by (simp_all add: check_receive_maximum_def resolve_topic_alias_def ex_broker_def ex_publish_def PublishPacket_new_def
      Properties_new_def Properties_get_topic_alias_def Properties_get_def)
  have i: "pub_qos ex_injected = QoS.ExactlyOnce" "pub_packet_id ex_injected = Some 1"
    by (simp_all add: ex_injected_def ex_publish_def PublishPacket_new_def)
  have "im_packet_id (InflightMessage_from_publish 0 ex_injected ''c'' Inbound AwaitingPubrel) = 1"
    "im_direction (InflightMessage_from_publish 0 ex_injected ''c'' Inbound AwaitingPubrel) = Inbound"
    by (simp_all add: InflightMessage_from_publish_def Let_def i)
  then have "route_publish_by_qos ref_ops 0 (\<lambda>_. Inr ()) ex_broker ex_injected = 
   (ex_broker_holding, [Packet.PubRec (AckPacket_new 1)], [], Inr ())"
    by (simp add: route_publish_by_qos_def i Let_def respond_def write_to_client_def persist_inbound_def h res_bind_def
     store_inflight_message_def ex_broker_holding_def)
  then show ?thesis
   by (simp add: handle_publish_def ex_valid h ex_env_def Let_def flip: ex_injected_def)
qed

lemma ex_releases: "process_packet ref_ops ex_reader 0 (\<lambda>_. Inr ()) (Packet.PubRec (AckPacket_new 1)) 
  ex_client_sent
  = (ex_client_released, no_effects\<lparr>ef_written := [Packet.PubRel (AckPacket_new 1)]\<rparr>, Inr ())"
  by (simp add: process_packet_def check_problem_information_def ex_reader_def settle_acknowledgement_def
     check_acknowledgement_matches_def SessionState_outbound_stage_def AckPacket_new_def ReasonCode_is_error_def enum_simps
     ex_publish_def PublishPacket_new_def res_bind_def handle_incoming_packet_with_writer_def handle_pubrec_outgoing_def
     SessionState_complete_pubrec_def SessionState_store_pubrel_def SessionState_touch_def SessionState_next_send_order_def Let_def
     SessionState_new_def ex_client_def ex_client_sent_def ex_client_released_def)

lemma ex_routes: "broker_handle_pubrel ref_ops (\<lambda>_. Inr ()) (AckPacket_new 1) ex_broker_holding
  = (ex_broker, [Packet.PubComp (AckPacket_new_with_reason 1 ReasonCode.Success)], [ex_injected], Inr ())"
  by (simp add: broker_handle_pubrel_def AckPacket_new_def respond_def write_to_client_def ex_broker_def ex_broker_holding_def remove_inflight_message_def res_bind_def Let_def)

lemma ex_completes: "process_packet ref_ops ex_reader 0 (\<lambda>_. Inr ()) (Packet.PubComp (AckPacket_new_with_reason 1 ReasonCode.Success))
   ex_client_released
  = (ex_client\<lparr>cl_session := (SessionState_new 0)\<lparr>ss_outbound_send_order := 3\<rparr>, cl_outbound_ids := IdReservation_drop OutboundIds_default 1\<rparr>, 
    no_effects\<lparr>ef_released := [1], ef_settled := [(0, Delivered (ExactlyOnce 1))]\<rparr>, Inr ())"
  by (simp add: process_packet_def check_problem_information_def ex_reader_def settle_acknowledgement_def
     check_acknowledgement_matches_def SessionState_outbound_stage_def AckPacket_new_with_reason_def
     res_bind_def release_outbound_quota_def with_outcomes_def OutcomeTracker_acknowledged_def OutcomeTracker_take_matching_def
     OutcomeTracker_take_def Completion_delivered_def Completion_settle_def SessionState_complete_outbound_def SessionState_touch_def
     SessionState_new_def ex_client_def ex_client_sent_def ex_client_released_def no_effects_def)

lemma one_exchange:
  "\<exists>s. reachable ref_ops s \<and> sy_submitted s = [ex_publish] \<and> sy_settled s = [(0, Delivered (ExactlyOnce 1))]
     \<and> ss_unacked_publishes (cl_session (sy_client s)) = [] \<and> ss_unacked_pubrels (cl_session (sy_client s)) = []"
proof -
  define s0 where "s0 = system_init ex_client ex_broker"
  define s1 where "s1 = s0\<lparr>sy_client := ex_client_sent, sy_to_broker := [Packet.Publish ex_publish],
    sy_submitted := [ex_publish]\<rparr>"
  define s2 where "s2 = s1\<lparr>sy_broker := ex_broker_holding, sy_to_broker := [],
    sy_to_client := [Packet.PubRec (AckPacket_new 1)]\<rparr>"
  define s3 where "s3 = s2\<lparr>sy_client := ex_client_released, sy_to_client := [],
    sy_to_broker := [Packet.PubRel (AckPacket_new 1)]\<rparr>"
  define s4 where "s4 = s3\<lparr>sy_broker := ex_broker, sy_to_broker := [], sy_routed := [ex_injected],
    sy_to_client := [Packet.PubComp (AckPacket_new_with_reason 1 ReasonCode.Success)]\<rparr>"
  define s5 where "s5 = s4\<lparr>sy_client := ex_client\<lparr>cl_session := (SessionState_new 0)\<lparr>ss_outbound_send_order := 3\<rparr>,
      cl_outbound_ids := IdReservation_drop OutboundIds_default 1\<rparr>, sy_to_client := [],
    sy_settled := [(0, Delivered (ExactlyOnce 1))]\<rparr>"
  note defs = s0_def s1_def s2_def s3_def s4_def s5_def system_init_def client_does_def broker_does_def
    end_unless_ok_def no_effects_def
  note run = back_subst [of "qos2_step ref_ops _"]
  have plain: "plain_qos2 ex_publish" "ex_publish = ex_publish\<lparr>pub_packet_id := Some 1\<rparr>"
    by (simp_all add: plain_qos2_def ex_publish_def PublishPacket_new_def Properties_get_topic_alias_def
        Properties_get_message_expiry_interval_def Properties_get_def Properties_new_def)
  have s0: "reachable ref_ops s0"
    by (simp add: s0_def reachable.init fresh_client_def ex_client_def SessionState_new_def)
  have s1: "qos2_step ref_ops s0 s1"
    by (rule run, rule qos2_step.submit [OF _ plain(1) _ _ plain(2),
        where cell = 1 and in_use_elsewhere = "\<lambda>_. False" and now = 0 and wr = "\<lambda>_. Inr ()"])
      (use ex_allocates ex_sends in \<open>(simp add: defs)+\<close>)
  have s2: "qos2_step ref_ops s1 s2"
    by (rule run, rule qos2_step.broker_receives_publish [where env = ex_env and now = 0 and wr = "\<lambda>_. Inr ()"])
      (use ex_accepts in \<open>(simp add: defs ex_env_def ex_broker_def)+\<close>)
  have s3: "qos2_step ref_ops s2 s3"
    by (rule run, rule qos2_step.client_receives [where env = ex_reader and now = 0 and wr = "\<lambda>_. Inr ()"],
        use ex_releases in \<open>(simp add: defs)+\<close>)
  have s4: "qos2_step ref_ops s3 s4"
    by (rule run, rule qos2_step.broker_receives_pubrel [where wr = "\<lambda>_. Inr ()"], use ex_routes in \<open>(simp add: defs)+\<close>)
  have s5: "qos2_step ref_ops s4 s5"
    by (rule run, rule qos2_step.client_receives [where env = ex_reader and now = 0 and wr = "\<lambda>_. Inr ()"],
        use ex_completes in \<open>(simp add: defs)+\<close>)
  have "reachable ref_ops s5"
    by (rule reachable.step [OF reachable.step [OF reachable.step [OF reachable.step [OF reachable.step
            [OF s0 s1] s2] s3] s4] s5])
  moreover have "sy_submitted s5 = [ex_publish]" "sy_settled s5 = [(0, Delivered (ExactlyOnce 1))]"
      "ss_unacked_publishes (cl_session (sy_client s5)) = []" "ss_unacked_pubrels (cl_session (sy_client s5)) = []"
    by (simp_all add: defs SessionState_new_def)
  ultimately show ?thesis
    by blast
qed

end
