(* ===== verification/Qos2_Delivery.thy ===== *)
theory Qos2_Delivery
  imports Qos2_Run
begin

text \<open>
  Every step of the system of \<open>Qos2_System\<close> preserves its invariant. The steps are taken apart the
  same way: the packet or replay item that is consumed leaves its identifier quiet, and what the
  handler then does concerns this identifier alone.
\<close>

definition quiet :: "system \<Rightarrow> u16 \<Rightarrow> bool" where
  "quiet s p \<longleftrightarrow> vw_forward (view s p) = [] \<and> vw_backward (view s p) = []"


subsection \<open>Consuming a packet\<close>

lemma broker_same:
  assumes "vw_stored v' = vw_stored v" "vw_inflight v' = vw_inflight v"
  shows "broker_ok connected p v' = broker_ok connected p v"
  using assms by (simp only: broker_ok_def)

lemma shorten:
  assumes inv: "system_inv s" and "stores_ok s'" "sy_client s' = sy_client s" "sy_broker s' = sy_broker s"
    and "sy_connected s' = sy_connected s" "sy_submitted s' = sy_submitted s"
    and "sy_routed s' = sy_routed s" "sy_settled s' = sy_settled s"
    and "\<And>q. vw_forward (view s' q) = [] \<or> vw_forward (view s' q) = vw_forward (view s q)"
    and "\<And>q. vw_backward (view s' q) = [] \<or> vw_backward (view s' q) = vw_backward (view s q)"
  shows "system_inv s'"
proof (rule channel_step [OF inv])
  fix q
  have ok: "id_ok s q"
    using inv by (simp add: system_inv_def)
  have same: "vw_stored (view s' q) = vw_stored (view s q)" "vw_inflight (view s' q) = vw_inflight (view s q)"
    using assms(4) by (simp_all add: view_simps)
  have "broker_ok (sy_connected s') q (view s' q)"
    using ok assms(5) by (simp add: broker_same [OF same] id_ok_def)
  then show "id_ok s' q"
    using assms by (intro id_ok_fewer [OF ok]) simp_all
qed (use assms in simp_all)

lemma at_Cons: "at q (packet # packets) = (if packet_for packet = Some q then [packet] else []) @ at q packets"
  by (simp add: at_def)

lemma at_append: "at q (xs @ ys) = at q xs @ at q ys"
  by (simp add: at_def)

lemma at_other: "\<forall>packet \<in> set packets. packet_for packet = Some p \<Longrightarrow> q \<noteq> p \<Longrightarrow> at q packets = []"
  by (auto simp: at_def filter_empty_conv)

lemma take_to_client:
  assumes "system_inv s" "sy_to_client s = packet # rest" "packet_for packet = Some p"
  shows "system_inv (s\<lparr>sy_to_client := rest\<rparr>)" "quiet (s\<lparr>sy_to_client := rest\<rparr>) p"
    "vw_forward (view s p) = []" "vw_backward (view s p) = [packet]"
proof -
  have "id_ok s p"
    using assms(1) by (simp add: system_inv_def)
  from forward_short [OF this]
  have short: "at p (sy_to_broker s) = []" "replay_at p (sy_replay s) = []" "at p rest = []"
    using assms(2,3) by (simp_all add: at_Cons)
  then show "quiet (s\<lparr>sy_to_client := rest\<rparr>) p" "vw_forward (view s p) = []"
      "vw_backward (view s p) = [packet]"
    using assms(2,3) by (simp_all add: quiet_def view_simps at_Cons)
  show "system_inv (s\<lparr>sy_to_client := rest\<rparr>)"
  proof (rule shorten [OF assms(1)])
    show "stores_ok (s\<lparr>sy_to_client := rest\<rparr>)"
      using assms(1,2) by (simp add: system_inv_def stores_ok_def store_of_def)
    show "vw_backward (view (s\<lparr>sy_to_client := rest\<rparr>) q) = []
        \<or> vw_backward (view (s\<lparr>sy_to_client := rest\<rparr>) q) = vw_backward (view s q)" for q
      using short assms(2,3) by (cases "q = p") (simp_all add: view_simps at_Cons)
  qed (simp_all add: view_simps)
qed

lemma take_to_broker:
  assumes "system_inv s" "sy_to_broker s = packet # rest" "packet_for packet = Some p"
  shows "system_inv (s\<lparr>sy_to_broker := rest\<rparr>)" "quiet (s\<lparr>sy_to_broker := rest\<rparr>) p"
    "vw_forward (view s p) = [packet_token packet]" "vw_backward (view s p) = []"
proof -
  have "id_ok s p"
    using assms(1) by (simp add: system_inv_def)
  from forward_short [OF this]
  have short: "at p rest = []" "replay_at p (sy_replay s) = []" "at p (sy_to_client s) = []"
    using assms(2,3) by (simp_all add: at_Cons)
  then show "quiet (s\<lparr>sy_to_broker := rest\<rparr>) p" "vw_forward (view s p) = [packet_token packet]"
      "vw_backward (view s p) = []"
    using assms(2,3) by (simp_all add: quiet_def view_simps at_Cons)
  show "system_inv (s\<lparr>sy_to_broker := rest\<rparr>)"
  proof (rule shorten [OF assms(1)])
    show "stores_ok (s\<lparr>sy_to_broker := rest\<rparr>)"
      using assms(1,2) by (simp add: system_inv_def stores_ok_def store_of_def)
    show "vw_forward (view (s\<lparr>sy_to_broker := rest\<rparr>) q) = []
        \<or> vw_forward (view (s\<lparr>sy_to_broker := rest\<rparr>) q) = vw_forward (view s q)" for q
      using short assms(2,3) by (cases "q = p") (simp_all add: view_simps at_Cons)
  qed (simp_all add: view_simps)
qed

lemma take_replay:
  assumes "system_inv s" "sy_replay s = item # items" "replay_id item = p"
  shows "system_inv (s\<lparr>sy_replay := items\<rparr>)" "quiet (s\<lparr>sy_replay := items\<rparr>) p"
    "vw_forward (view s p) = [replay_token item]" "vw_backward (view s p) = []"
proof -
  have "id_ok s p"
    using assms(1) by (simp add: system_inv_def)
  from forward_short [OF this]
  have short: "at p (sy_to_broker s) = []" "replay_at p items = []" "at p (sy_to_client s) = []"
    using assms(2,3) by (simp_all add: replay_at_def)
  then show "quiet (s\<lparr>sy_replay := items\<rparr>) p" "vw_forward (view s p) = [replay_token item]"
      "vw_backward (view s p) = []"
    using assms(2,3) by (simp_all add: quiet_def view_simps replay_at_def)
  show "system_inv (s\<lparr>sy_replay := items\<rparr>)"
  proof (rule shorten [OF assms(1)])
    show "stores_ok (s\<lparr>sy_replay := items\<rparr>)"
      using assms(1,2) by (simp add: system_inv_def stores_ok_def store_of_def)
    show "vw_forward (view (s\<lparr>sy_replay := items\<rparr>) q) = []
        \<or> vw_forward (view (s\<lparr>sy_replay := items\<rparr>) q) = vw_forward (view s q)" for q
      using short assms(2,3) by (cases "q = p") (simp_all add: view_simps replay_at_def)
  qed (simp_all add: view_simps)
qed

subsection \<open>Moves of one side\<close>

lemma client_move:
  assumes inv: "system_inv s" and conn: "sy_connected s"
    and tables: "tables_ok (cl_session c)" "distinct (map fst (cl_outcomes c))"
    and frame: "\<And>q. q \<noteq> p \<Longrightarrow> map_of (cl_outcomes c) q = map_of (cl_outcomes (sy_client s)) q"
      "\<And>q. q \<noteq> p \<Longrightarrow> pubs (cl_session c) q = pubs (cl_session (sy_client s)) q"
      "\<And>q. q \<noteq> p \<Longrightarrow> rels (cl_session c) q = rels (cl_session (sy_client s)) q"
    and written: "\<forall>packet \<in> set (ef_written e). packet_for packet = Some p"
    and s': "s' = (client_does c e s)\<lparr>sy_submitted := sy_submitted s @ new\<rparr>"
    and handles: "mset (map fst (ef_settled e)) + mset (flying (cl_outcomes c))
      = mset (flying (cl_outcomes (sy_client s)))
        + mset [length (sy_submitted s)..<length (sy_submitted s @ new)]"
    and here: "id_ok s' p"
    and balance: "in_transit s p
      = mset (map (\<lambda>h. content (sy_submitted s' ! h)) (delivered_of (ef_settled e))) + in_transit s' p"
  shows "system_inv s'"
proof (rule local_step [OF inv _ here])
  show "stores_ok s'"
    using inv conn tables written by (auto simp: system_inv_def stores_ok_def s' client_does_def)
  show "view s' q = view s q" if "q \<noteq> p" for q
    using frame [OF that] at_other [OF written that] by (simp add: view_def s' client_does_def at_append)
  show "sy_connected s' = sy_connected s" "sy_submitted s' = sy_submitted s @ new"
      "sy_routed s' = sy_routed s @ []" "sy_settled s' = sy_settled s @ ef_settled e"
    by (simp_all add: s' client_does_def)
  show "mset (map fst (ef_settled e)) + mset (flying (cl_outcomes (sy_client s')))
      = mset (flying (cl_outcomes (sy_client s)))
        + mset [length (sy_submitted s)..<length (sy_submitted s')]"
    using handles by (simp add: s' client_does_def)
  show "mset (map content []) + in_transit s p
      = mset (map (\<lambda>h. content (sy_submitted s' ! h)) (delivered_of (ef_settled e))) + in_transit s' p"
    using balance by (simp only: list.map mset.simps add_0)
qed

lemma broker_move:
  assumes inv: "system_inv s" and conn: "sy_connected s"
    and storage: "ch_storage h = Some entries" "distinct (map fst entries)"
    and entries: "inbound_entries entries"
    and frame: "\<And>q. q \<noteq> p \<Longrightarrow> map_of (ch_inflight_publishes h) q = map_of (ch_inflight_publishes (sy_broker s)) q"
      "\<And>q. q \<noteq> p \<Longrightarrow> map_of entries (q, Inbound) = map_of (store_of (sy_broker s)) (q, Inbound)"
    and written: "\<forall>packet \<in> set written. packet_for packet = Some p
      \<and> (\<exists>ack. packet = Packet.PubRec ack \<or> packet = Packet.PubComp ack)"
    and here: "id_ok (broker_does h written routed s) p"
    and balance: "mset (map content routed) + in_transit s p = in_transit (broker_does h written routed s) p"
  shows "system_inv (broker_does h written routed s)"
proof (rule local_step [OF inv _ here])
  let ?s' = "broker_does h written routed s"
  show "stores_ok ?s'"
    using inv conn storage entries written
    by (auto simp: system_inv_def stores_ok_def broker_does_def store_of_def)
  have "at q written = []" if "q \<noteq> p" for q
    using written that by (intro at_other [of written p]) auto
  then show "view ?s' q = view s q" if "q \<noteq> p" for q
    using frame [OF that] that by (simp add: view_def broker_does_def at_append store_of_def [of h] storage)
  show "sy_connected ?s' = sy_connected s" "sy_submitted ?s' = sy_submitted s @ []"
      "sy_routed ?s' = sy_routed s @ routed" "sy_settled ?s' = sy_settled s @ []"
    by (simp_all add: broker_does_def)
  show "mset (map fst []) + mset (flying (cl_outcomes (sy_client ?s')))
      = mset (flying (cl_outcomes (sy_client s))) + mset [length (sy_submitted s)..<length (sy_submitted ?s')]"
    by (simp add: broker_does_def)
  show "mset (map content routed) + in_transit s p
      = mset (map (\<lambda>h. content (sy_submitted ?s' ! h)) (delivered_of [])) + in_transit ?s' p"
    using balance by simp
qed

subsection \<open>The client receives an acknowledgement\<close>

lemma exchange_at:
  assumes "system_inv s" "vw_forward (view s p) \<noteq> [] \<or> vw_backward (view s p) \<noteq> []"
  obtains tracked where "map_of (cl_outcomes (sy_client s)) p = Some tracked" "tr_qos tracked = QoS.ExactlyOnce"
    "co_outcome (tr_completion tracked) < length (sy_submitted s)"
    "exchange_ok p (content (sy_submitted s ! co_outcome (tr_completion tracked))) (view s p)"
proof -
  have "id_ok s p"
    using assms(1) by (simp add: system_inv_def)
  then show thesis
    using assms(2) that by (cases "vw_tracked (view s p)") (auto simp: id_ok_def view_simps(1))
qed

lemma flying_delete:
  assumes "distinct (map fst t)" "map_of t p = Some tracked"
  shows "add_mset (co_outcome (tr_completion tracked)) (mset (flying (AList.delete p t))) = mset (flying t)"
proof -
  have "mset (flying t) = image_mset (co_outcome \<circ> tr_completion \<circ> snd) (mset t)"
    by simp
  also have "\<dots> = add_mset (co_outcome (tr_completion tracked)) (mset (flying (AList.delete p t)))"
    unfolding alist_delete_mset [OF assms] by simp
  finally show ?thesis ..
qed

lemma process_pubrec:
  assumes "process_packet L env now wr (Packet.PubRec ack) c = (c', e, r)"
    and "pubs (cl_session c) (ack_packet_id ack) = Some (order, publish)" "pub_qos publish = QoS.ExactlyOnce"
  shows "(c', e) = (c, no_effects)
    \<or> ReasonCode_is_error (ack_reason_code ack)
      \<and> (c', e) = release_outbound_quota now (ack_packet_id ack)
           (with_outcomes (c\<lparr>cl_session := snd (SessionState_remove_unacked_publish now
              (ack_packet_id ack) (cl_session c))\<rparr>)
             (OutcomeTracker_refused (cl_outcomes c) (ack_packet_id ack) QoS.ExactlyOnce (ack_reason_code ack)))
    \<or> \<not> ReasonCode_is_error (ack_reason_code ack) \<and> (c', e, r) = handle_pubrec_outgoing now wr ack c"
  using assms
  by (auto simp: process_packet_def settle_acknowledgement_def check_acknowledgement_matches_def
      SessionState_outbound_stage_def handle_incoming_packet_with_writer_def res_bind_def Let_def
      split: sum.splits if_splits prod.splits)

lemma process_pubcomp:
  assumes "process_packet L env now wr (Packet.PubComp ack) c = (c', e, r)"
    and "pubs (cl_session c) (ack_packet_id ack) = None" "rels (cl_session c) (ack_packet_id ack) \<noteq> None"
  shows "(c', e) = (c, no_effects)
    \<or> (c', e) = release_outbound_quota now (ack_packet_id ack)
         (with_outcomes c (OutcomeTracker_acknowledged (cl_outcomes c) (ack_packet_id ack) QoS.ExactlyOnce))"
  using assms
  by (auto simp: process_packet_def settle_acknowledgement_def check_acknowledgement_matches_def
      SessionState_outbound_stage_def res_bind_def split: sum.splits if_splits prod.splits)

lemma nothing_done: "client_does (sy_client s) no_effects s = s"
  by (cases s) (simp add: client_does_def no_effects_def)

lemma nothing_submitted: "client_does c e s = (client_does c e s)\<lparr>sy_submitted := sy_submitted s @ []\<rparr>"
  by (cases s) (simp add: client_does_def)

text \<open>The client settles the publish of identifier \<open>p\<close> and forgets the exchange.\<close>

lemma settle_move:
  assumes inv: "system_inv s" and conn: "sy_connected s" and quiet: "quiet s p"
    and tracked: "map_of (cl_outcomes (sy_client s)) p = Some tracked"
    and outcomes: "cl_outcomes c = AList.delete p (cl_outcomes (sy_client s))"
    and tables: "pubs (cl_session c) = (pubs (cl_session (sy_client s)))(p := None)"
      "rels (cl_session c) = (rels (cl_session (sy_client s)))(p := None)" "tables_ok (cl_session c)"
    and effects: "ef_written e = []" "ef_settled e = [(co_outcome (tr_completion tracked), outcome)]"
    and balance: "in_transit s p = (case outcome of
      Delivered _ \<Rightarrow> {# content (sy_submitted s ! co_outcome (tr_completion tracked)) #} | _ \<Rightarrow> {#})"
  shows "system_inv (client_does c e s)"
proof (rule client_move [OF inv conn _ _ _ _ _ _ nothing_submitted, where p = p])
  have dist: "distinct (map fst (cl_outcomes (sy_client s)))"
    using inv by (simp add: system_inv_def stores_ok_def)
  then show "distinct (map fst (cl_outcomes c))"
    by (simp add: outcomes alist_distinct)
  show "map_of (cl_outcomes c) q = map_of (cl_outcomes (sy_client s)) q" if "q \<noteq> p" for q
    using that by (simp add: outcomes alist_maps)
  show "mset (map fst (ef_settled e)) + mset (flying (cl_outcomes c))
      = mset (flying (cl_outcomes (sy_client s))) + mset [length (sy_submitted s)..<length (sy_submitted s @ [])]"
    using flying_delete [OF dist tracked] by (simp add: effects outcomes)
  have gone: "vw_tracked (view (client_does c e s) p) = None"
    by (simp add: view_simps client_does_def outcomes alist_maps)
  have ok: "id_ok s p"
    using inv by (simp add: system_inv_def)
  have "broker_ok (sy_connected s) p (view (client_does c e s) p)"
  proof -
    have same: "vw_stored (view (client_does c e s) p) = vw_stored (view s p)"
        "vw_inflight (view (client_does c e s) p) = vw_inflight (view s p)"
      by (simp_all add: view_simps client_does_def)
    show ?thesis
      using ok by (simp add: broker_same [OF same] id_ok_def)
  qed
  with quiet gone show "id_ok (client_does c e s) p"
    by (simp add: id_ok_def quiet_def) (simp add: view_simps client_does_def tables effects at_append)
  have "in_transit (client_does c e s) p = {#}" "sy_submitted (client_does c e s) = sy_submitted s"
    by (simp_all add: in_transit_def gone) (simp add: client_does_def)
  then show "in_transit s p
      = mset (map (\<lambda>h. content (sy_submitted (client_does c e s) ! h)) (delivered_of (ef_settled e)))
        + in_transit (client_does c e s) p"
    by (simp add: balance effects split: PublishOutcome.split)
qed (use tables effects in simp_all)

text \<open>The client keeps the exchange of \<open>p\<close> open, in another stage.\<close>

lemma advance_move:
  assumes inv: "system_inv s" and conn: "sy_connected s"
    and tracked: "map_of (cl_outcomes (sy_client s)) p = Some tracked"
      "map_of (cl_outcomes c) p = Some tracked'" "tr_qos tracked' = tr_qos tracked"
      "co_outcome (tr_completion tracked') = co_outcome (tr_completion tracked)"
    and outcomes: "distinct (map fst (cl_outcomes c))" "flying (cl_outcomes c) = flying (cl_outcomes (sy_client s))"
      "\<And>q. q \<noteq> p \<Longrightarrow> map_of (cl_outcomes c) q = map_of (cl_outcomes (sy_client s)) q"
    and tables: "tables_ok (cl_session c)"
      "\<And>q. q \<noteq> p \<Longrightarrow> pubs (cl_session c) q = pubs (cl_session (sy_client s)) q"
      "\<And>q. q \<noteq> p \<Longrightarrow> rels (cl_session c) q = rels (cl_session (sy_client s)) q"
    and effects: "\<forall>packet \<in> set (ef_written e). packet_for packet = Some p" "ef_settled e = []"
    and exchange: "exchange_ok p (content (sy_submitted s ! co_outcome (tr_completion tracked)))
      (view (client_does c e s) p)"
    and stage: "vw_stored (view s p) \<noteq> None \<or> rels (cl_session c) p = rels (cl_session (sy_client s)) p"
  shows "system_inv (client_does c e s)"
proof (rule client_move [OF inv conn _ _ _ _ _ effects(1) nothing_submitted])
  have same: "vw_stored (view (client_does c e s) p) = vw_stored (view s p)"
      "vw_inflight (view (client_does c e s) p) = vw_inflight (view s p)"
      "sy_connected (client_does c e s) = sy_connected s" "sy_submitted (client_does c e s) = sy_submitted s"
      "vw_tracked (view (client_does c e s) p) = Some tracked'" "vw_tracked (view s p) = Some tracked"
    using tracked by (simp_all add: view_simps client_does_def)
  have "id_ok s p"
    using inv by (simp add: system_inv_def)
  then show "id_ok (client_does c e s) p"
    using exchange tracked by (simp add: id_ok_def broker_same [OF same(1,2)] same(3-))
  have "vw_rel (view (client_does c e s) p) = vw_rel (view s p) \<or> vw_stored (view s p) \<noteq> None"
    using stage by (auto simp: view_simps(3) client_does_def simp del: not_None_eq)
  then have "in_transit (client_does c e s) p = in_transit s p"
    using tracked(4) unfolding in_transit_def same by auto
  then show "in_transit s p
      = mset (map (\<lambda>h. content (sy_submitted (client_does c e s) ! h)) (delivered_of (ef_settled e)))
        + in_transit (client_does c e s) p"
    by (simp add: effects(2))
  show "mset (map fst (ef_settled e)) + mset (flying (cl_outcomes c))
      = mset (flying (cl_outcomes (sy_client s))) + mset [length (sy_submitted s)..<length (sy_submitted s @ [])]"
    using outcomes(2) by (simp add: effects(2))
qed (use outcomes tables in simp_all)

lemma client_receives_pubrec:
  assumes inv: "system_inv s" and conn: "sy_connected s" and pkt: "sy_to_client s = Packet.PubRec ack # rest"
    and step: "process_packet L env now wr (Packet.PubRec ack) (sy_client s) = (c, e, r)"
  shows "system_inv (client_does c e (s\<lparr>sy_to_client := rest\<rparr>))"
proof -
  define p where "p = ack_packet_id ack"
  define s1 where "s1 = s\<lparr>sy_to_client := rest\<rparr>"
  have "packet_for (Packet.PubRec ack) = Some p"
    by (simp add: p_def)
  from take_to_client [OF inv pkt this]
  have s1: "system_inv s1" "quiet s1 p" and backward: "vw_backward (view s p) = [Packet.PubRec ack]"
    by (simp_all add: s1_def)
  obtain tracked where tracked: "map_of (cl_outcomes (sy_client s)) p = Some tracked"
      "tr_qos tracked = QoS.ExactlyOnce"
      "exchange_ok p (content (sy_submitted s ! co_outcome (tr_completion tracked))) (view s p)"
    using exchange_at [OF inv, of p] backward by auto
  define m where "m = content (sy_submitted s ! co_outcome (tr_completion tracked))"
  from tracked(3) obtain order publish where pub: "pubs (cl_session (sy_client s)) p = Some (order, publish)"
      "carries p m publish" and unreleased: "rels (cl_session (sy_client s)) p = None"
    and stored: "\<not> ReasonCode_is_error (ack_reason_code ack) \<Longrightarrow>
      \<exists>msg. vw_stored (view s p) = Some msg \<and> holds_message p m msg"
    by cases (auto simp: backward m_def view_simps(2,3) simp del: not_None_eq)
  have client: "sy_client s1 = sy_client s" "sy_connected s1" "sy_submitted s1 = sy_submitted s"
      "view s1 p = (view s p)\<lparr>vw_backward := []\<rparr>"
    using s1(2) conn by (simp_all add: s1_def quiet_def view_def)
  have tables: "tables_ok (cl_session (sy_client s))" "distinct (map fst (cl_outcomes (sy_client s)))"
    using inv by (simp_all add: system_inv_def stores_ok_def)
  consider "(c, e) = (sy_client s, no_effects)"
    | "ReasonCode_is_error (ack_reason_code ack)" "(c, e) = release_outbound_quota now p
           (with_outcomes ((sy_client s)\<lparr>cl_session := snd (SessionState_remove_unacked_publish now
              p (cl_session (sy_client s)))\<rparr>)
             (OutcomeTracker_refused (cl_outcomes (sy_client s)) p QoS.ExactlyOnce (ack_reason_code ack)))"
    | "\<not> ReasonCode_is_error (ack_reason_code ack)" "(c, e, r) = handle_pubrec_outgoing now wr ack (sy_client s)"
    using process_pubrec [OF step, of order publish] pub by (auto simp: p_def carries_def plain_qos2_def)
  then have "system_inv (client_does c e s1)"
  proof cases
    case 1
    with s1 client(1) show ?thesis
      by (metis nothing_done prod.inject)
  next
    case 2
    obtain outcome where refused: "OutcomeTracker_refused (cl_outcomes (sy_client s)) p QoS.ExactlyOnce (ack_reason_code ack)
        = (AList.delete p (cl_outcomes (sy_client s)), [(co_outcome (tr_completion tracked), outcome)])"
        "\<And>d. outcome \<noteq> Delivered d"
      using tracked
      by (auto simp: OutcomeTracker_refused_def OutcomeTracker_take_matching_def OutcomeTracker_take_def
          Completion_rejected_def Completion_settle_def split: if_splits)
    have c: "cl_outcomes c = AList.delete p (cl_outcomes (sy_client s))"
        "cl_session c = SessionState_complete_outbound now p
           (snd (SessionState_remove_unacked_publish now p (cl_session (sy_client s))))"
        "ef_written e = []" "ef_settled e = [(co_outcome (tr_completion tracked), outcome)]"
      using 2(2) by (simp_all add: release_outbound_quota_def with_outcomes_def refused no_effects_def)
    show ?thesis
    proof (rule settle_move [OF s1(1) client(2) s1(2), where tracked = tracked and outcome = outcome])
      show "in_transit s1 p = (case outcome of
          Delivered _ \<Rightarrow> {# content (sy_submitted s1 ! co_outcome (tr_completion tracked)) #} | _ \<Rightarrow> {#})"
        using unreleased refused(2) by (auto simp: in_transit_def view_simps client split: option.split PublishOutcome.split)
    qed (use c tables tracked in \<open>simp_all add: client session_simps\<close>)
  next
    case 3
    from 3(1) stored obtain msg where msg: "vw_stored (view s p) = Some msg" "holds_message p m msg"
      by blast
    have c: "cl_outcomes c = cl_outcomes (sy_client s)" "ef_settled e = []"
        "pubs (cl_session c) = (pubs (cl_session (sy_client s)))(p := None)"
        "rels (cl_session c) p \<noteq> None" "tables_ok (cl_session c)"
        "\<And>q. q \<noteq> p \<Longrightarrow> rels (cl_session c) q = rels (cl_session (sy_client s)) q"
        "ef_written e = [] \<or> ef_written e = [Packet.PubRel (AckPacket_new p)]"
      using 3(2) tables pub(1)
      by (auto simp: handle_pubrec_outgoing_def Let_def session_simps no_effects_def p_def split: sum.splits)
    show ?thesis
    proof (rule advance_move [OF s1(1) client(2), where p = p and tracked = tracked and tracked' = tracked])
      have "exchange_ok p m (view (client_does c e s1) p)"
      proof (rule exchange_ok.releasing)
        show "set (vw_forward (view (client_does c e s1) p)) \<subseteq> {TRel}"
            "length (vw_forward (view (client_does c e s1) p)) + length (vw_backward (view (client_does c e s1) p)) \<le> 1"
            "\<forall>packet \<in> set (vw_backward (view (client_does c e s1) p)).
               (\<exists>ack. packet = Packet.PubComp ack) \<and> vw_stored (view (client_does c e s1) p) = None"
          using s1(2) c(7) by (auto simp: quiet_def view_simps client_does_def at_append at_def AckPacket_new_def)
      qed (use c msg in \<open>auto simp: view_simps client_does_def s1_def\<close>)
      then show "exchange_ok p (content (sy_submitted s1 ! co_outcome (tr_completion tracked))) (view (client_does c e s1) p)"
        by (simp add: m_def client)
    qed (use c tables tracked msg in \<open>auto simp: client AckPacket_new_def\<close>)
  qed
  then show ?thesis
    by (simp add: s1_def)
qed

lemma client_receives_pubcomp:
  assumes inv: "system_inv s" and conn: "sy_connected s" and pkt: "sy_to_client s = Packet.PubComp ack # rest"
    and step: "process_packet L env now wr (Packet.PubComp ack) (sy_client s) = (c, e, r)"
  shows "system_inv (client_does c e (s\<lparr>sy_to_client := rest\<rparr>))"
proof -
  define p where "p = ack_packet_id ack"
  define s1 where "s1 = s\<lparr>sy_to_client := rest\<rparr>"
  have "packet_for (Packet.PubComp ack) = Some p"
    by (simp add: p_def)
  from take_to_client [OF inv pkt this]
  have s1: "system_inv s1" "quiet s1 p" and backward: "vw_backward (view s p) = [Packet.PubComp ack]"
    by (simp_all add: s1_def)
  obtain tracked where tracked: "map_of (cl_outcomes (sy_client s)) p = Some tracked"
      "tr_qos tracked = QoS.ExactlyOnce"
      "exchange_ok p (content (sy_submitted s ! co_outcome (tr_completion tracked))) (view s p)"
    using exchange_at [OF inv, of p] backward by auto
  from tracked(3) have stage: "pubs (cl_session (sy_client s)) p = None
      \<and> rels (cl_session (sy_client s)) p \<noteq> None \<and> vw_stored (view s p) = None"
    by cases (auto simp: backward view_simps(2,3) simp del: not_None_eq)
  have client: "sy_client s1 = sy_client s" "sy_connected s1" "sy_submitted s1 = sy_submitted s"
      "view s1 p = (view s p)\<lparr>vw_backward := []\<rparr>"
    using s1(2) conn by (simp_all add: s1_def quiet_def view_def)
  consider "(c, e) = (sy_client s, no_effects)"
    | "(c, e) = release_outbound_quota now p
         (with_outcomes (sy_client s) (OutcomeTracker_acknowledged (cl_outcomes (sy_client s)) p QoS.ExactlyOnce))"
    using process_pubcomp [OF step] stage by (auto simp: p_def)
  then have "system_inv (client_does c e s1)"
  proof cases
    case 1
    with s1 client(1) show ?thesis
      by (metis nothing_done prod.inject)
  next
    case 2
    let ?outcome = "Delivered (Delivery_of QoS.ExactlyOnce (Some p))"
    have c: "cl_outcomes c = AList.delete p (cl_outcomes (sy_client s))"
        "cl_session c = SessionState_complete_outbound now p (cl_session (sy_client s))"
        "ef_written e = []" "ef_settled e = [(co_outcome (tr_completion tracked), ?outcome)]"
      using 2 tracked
      by (simp_all add: release_outbound_quota_def with_outcomes_def no_effects_def OutcomeTracker_acknowledged_def
          OutcomeTracker_take_matching_def OutcomeTracker_take_def Completion_delivered_def Completion_settle_def)
    have "tables_ok (cl_session (sy_client s))"
      using inv by (simp add: system_inv_def stores_ok_def)
    with c stage tracked show ?thesis
      by (intro settle_move [OF s1(1) client(2) s1(2), where tracked = tracked and outcome = ?outcome])
        (simp_all add: client session_simps in_transit_def view_simps(1,3))
  qed
  then show ?thesis
    by (simp add: s1_def)
qed

subsection \<open>The client submits a publish\<close>

lemma next_available_free: "next_available_loop n in_use cell = (Some p, cell') \<Longrightarrow> \<not> in_use p"
  by (induction n in_use cell rule: next_available_loop.induct) (auto split: prod.splits if_splits)

lemma transmit_plain:
  assumes "plain_qos2 publish" "pub_packet_id publish = Some p" "map_of (cl_outcomes c) p = None"
    and "transmit_publish now wr handle publish c = (c', e, r)" "tables_ok (cl_session c)"
  shows "pubs (cl_session c') = (pubs (cl_session c))(p \<mapsto> (ss_outbound_send_order (cl_session c), publish))"
    "rels (cl_session c') = rels (cl_session c)" "tables_ok (cl_session c')"
    "cl_outcomes c' = cl_outcomes c @ [(p, \<lparr>tr_qos = QoS.ExactlyOnce, tr_completion = Completion_new handle\<rparr>)]"
    "ef_settled e = []" "ef_written e = [] \<or> ef_written e = [Packet.Publish publish]"
proof -
  have no_alias: "PublishPacket_topic_alias publish = None" and qos: "pub_qos publish = QoS.ExactlyOnce"
    using assms(1) by (simp_all add: plain_qos2_def PublishPacket_topic_alias_def Properties_get_topic_alias_def)
  then have plain: "with_aliased_topic publish d = Inr publish" "record_outbound_topic_alias publish d = d" for d
    by (simp_all add: with_aliased_topic_def record_outbound_topic_alias_def)
  define s' where "s' = snd (SessionState_next_send_order (SessionState_touch now (cl_session c)))
    \<lparr>ss_unacked_publishes := AList.update p (ss_outbound_send_order (cl_session c), publish)
      (ss_unacked_publishes (cl_session c))\<rparr>"
  have store: "SessionState_store_unacked_publish now publish (cl_session c) = Inr s'"
    using assms(2) by (simp add: SessionState_store_unacked_publish_def SessionState_next_send_order_def
        SessionState_touch_def s'_def)
  note session = store_unacked_publish_tables [OF store assms(5,2)]
  define c1 where "c1 = c\<lparr>cl_session := s',
    cl_outcomes := cl_outcomes c @ [(p, \<lparr>tr_qos = QoS.ExactlyOnce, tr_completion = Completion_new handle\<rparr>)],
    cl_outbound_ids := IdReservation_drop (cl_outbound_ids c) p\<rparr>"
  have "c' = c1 \<and> ef_settled e = [] \<and> (ef_written e = [] \<or> ef_written e = [Packet.Publish publish])"
    using assms(2-4)
    by (simp add: transmit_publish_def qos plain store res_bind_def OutcomeTracker_track_def alist_update_fresh
        Let_def no_effects_def flip: c1_def split: sum.splits) auto
  then show "pubs (cl_session c') = (pubs (cl_session c))(p \<mapsto> (ss_outbound_send_order (cl_session c), publish))"
    "rels (cl_session c') = rels (cl_session c)" "tables_ok (cl_session c')"
    "cl_outcomes c' = cl_outcomes c @ [(p, \<lparr>tr_qos = QoS.ExactlyOnce, tr_completion = Completion_new handle\<rparr>)]"
    "ef_settled e = []" "ef_written e = [] \<or> ef_written e = [Packet.Publish publish]"
    using session by (simp_all add: c1_def)
qed

lemma submit_inv:
  assumes inv: "system_inv s" and conn: "sy_connected s" and plain: "plain_qos2 publish"
    and id: "SessionState_allocate_packet_id in_use_elsewhere cell (cl_session (sy_client s)) = (Some p, cell')"
    and publish': "publish' = publish\<lparr>pub_packet_id := Some p\<rparr>"
    and step: "transmit_publish now wr (length (sy_submitted s)) publish' (sy_client s) = (c, e, r)"
  shows "system_inv ((client_does c e s)\<lparr>sy_submitted := sy_submitted s @ [publish']\<rparr>)" (is "system_inv ?s'")
proof (rule client_move [OF inv conn, where p = p and new = "[publish']" and c = c and e = e])
  have tables: "tables_ok (cl_session (sy_client s))" "distinct (map fst (cl_outcomes (sy_client s)))"
    using inv by (simp_all add: system_inv_def stores_ok_def)
  have free: "pubs (cl_session (sy_client s)) p = None" "rels (cl_session (sy_client s)) p = None"
    using id next_available_free
    unfolding SessionState_allocate_packet_id_def PacketIdGenerator_next_available_def by blast+
  have ok: "id_ok s p"
    using inv by (simp add: system_inv_def)
  have untracked: "map_of (cl_outcomes (sy_client s)) p = None"
  proof (rule ccontr)
    assume "map_of (cl_outcomes (sy_client s)) p \<noteq> None"
    with ok obtain m where "exchange_ok p m (view s p)"
      by (auto simp: id_ok_def view_simps(1))
    then show False
      using free by cases (simp_all add: view_simps)
  qed
  have plain': "carries p (content publish') publish'"
    using plain by (simp add: publish' carries_def plain_qos2_def)
  then have "plain_qos2 publish'" "pub_packet_id publish' = Some p"
    by (simp_all add: carries_def)
  note c = transmit_plain [OF this untracked step tables(1)]
  have quiet: "at p (sy_to_broker s) = []" "replay_at p (sy_replay s) = []" "at p (sy_to_client s) = []"
    using ok untracked by (simp_all add: id_ok_def view_simps)
  show "tables_ok (cl_session c)" "distinct (map fst (cl_outcomes c))"
    using c tables untracked by (simp_all add: map_of_eq_None_iff)
  show "\<forall>packet \<in> set (ef_written e). packet_for packet = Some p"
    using c(6) plain' by (auto simp: carries_def)
  show "mset (map fst (ef_settled e)) + mset (flying (cl_outcomes c))
      = mset (flying (cl_outcomes (sy_client s)))
        + mset [length (sy_submitted s)..<length (sy_submitted s @ [publish'])]"
    by (simp add: c Completion_new_def)
  have v: "vw_tracked (view ?s' p) = Some \<lparr>tr_qos = QoS.ExactlyOnce, tr_completion = Completion_new (length (sy_submitted s))\<rparr>"
      "vw_pub (view ?s' p) = Some (ss_outbound_send_order (cl_session (sy_client s)), publish')"
      "\<not> vw_rel (view ?s' p)" "vw_backward (view ?s' p) = []"
      "vw_forward (view ?s' p) = [] \<or> vw_forward (view ?s' p) = [TPub publish']"
      "vw_stored (view ?s' p) = vw_stored (view s p)" "vw_inflight (view ?s' p) = vw_inflight (view s p)"
      "sy_connected ?s' = sy_connected s" "sy_submitted ?s' = sy_submitted s @ [publish']"
    using quiet free untracked c plain' by (auto simp: view_simps client_does_def at_append at_def map_add_def carries_def)
  have "exchange_ok p (content publish') (view ?s' p)"
    using v plain' by (intro exchange_ok.publishing [OF v(2)]) auto
  then show "id_ok ?s' p"
    using ok by (simp add: id_ok_def broker_same [OF v(6,7)] v(1,8,9) Completion_new_def)
  show "in_transit s p = mset (map (\<lambda>h. content (sy_submitted ?s' ! h)) (delivered_of (ef_settled e))) + in_transit ?s' p"
    using v untracked by (simp add: in_transit_def c(5) view_simps(1))
  show "map_of (cl_outcomes c) q = map_of (cl_outcomes (sy_client s)) q"
      "pubs (cl_session c) q = pubs (cl_session (sy_client s)) q"
      "rels (cl_session c) q = rels (cl_session (sy_client s)) q" if "q \<noteq> p" for q
    using that by (simp_all add: c map_add_def split: option.split)
qed simp

subsection \<open>The client replays its session\<close>

lemma resend_carries: "carries p m publish \<Longrightarrow> carries p m ((without_topic_alias publish)\<lparr>pub_dup := True\<rparr>)"
  by (simp add: carries_def plain_qos2_def without_topic_alias_def content_def Properties_remove_topic_alias_def
      Properties_get_topic_alias_def Properties_get_message_expiry_interval_def Properties_get_def)

lemma replay_cases:
  assumes "replay_item L now wr policy slot is_current (OutboundReplay.Publish publish) c = (c', e, goes_on)"
    and "pub_packet_id publish = Some p" "pub_qos publish = QoS.ExactlyOnce"
  obtains
    (stopped) "c' = c" "e = no_effects"
  | (abandoned) "cl_outcomes c' = AList.delete p (cl_outcomes c)"
      "cl_session c' = snd (SessionState_remove_unacked_publish now p (cl_session c))"
      "ef_written e = []" "ef_settled e = (case map_of (cl_outcomes c) p of
         Some tracked \<Rightarrow> [Completion_indeterminate (tr_completion tracked) ReplayNotConforming] | None \<Rightarrow> [])"
  | (resent) "c' = c\<lparr>cl_outcomes := OutcomeTracker_mark_resent (cl_outcomes c) p\<rparr>" "ef_settled e = []"
      "ef_written e = [] \<or> ef_written e = [Packet.Publish ((without_topic_alias publish)\<lparr>pub_dup := True\<rparr>)]"
  using assms
  by (auto simp: replay_item_def abandon_replay_def OutcomeTracker_take_def without_topic_alias_def Let_def
      no_effects_def split: sum.splits if_splits option.splits)

lemma mark_resent_facts:
  assumes "map_of t p = Some tracked" "distinct (map fst t)"
  shows "map_of (OutcomeTracker_mark_resent t p) =
      (map_of t)(p \<mapsto> tracked\<lparr>tr_completion := Completion_mark_resent (tr_completion tracked)\<rparr>)"
    "distinct (map fst (OutcomeTracker_mark_resent t p))" "flying (OutcomeTracker_mark_resent t p) = flying t"
  using assms
  by (simp_all add: OutcomeTracker_mark_resent_def Completion_mark_resent_def alist_maps alist_distinct alist_update_map)

lemma replay_publish_inv:
  assumes inv: "system_inv s" and conn: "sy_connected s" and item: "sy_replay s = OutboundReplay.Publish publish # items"
    and step: "replay_item L now wr policy slot is_current (OutboundReplay.Publish publish) (sy_client s) = (c, e, goes_on)"
  shows "system_inv (client_does c e (s\<lparr>sy_replay := items\<rparr>))"
proof -
  define p where "p = the (pub_packet_id publish)"
  define s1 where "s1 = s\<lparr>sy_replay := items\<rparr>"
  have "replay_id (OutboundReplay.Publish publish) = p"
    by (simp add: p_def)
  from take_replay [OF inv item this]
  have s1: "system_inv s1" "quiet s1 p" and forward: "vw_forward (view s p) = [TPub publish]"
    by (simp_all add: s1_def)
  obtain tracked where tracked: "map_of (cl_outcomes (sy_client s)) p = Some tracked"
      "tr_qos tracked = QoS.ExactlyOnce"
      "exchange_ok p (content (sy_submitted s ! co_outcome (tr_completion tracked))) (view s p)"
    using exchange_at [OF inv, of p] forward by auto
  define m where "m = content (sy_submitted s ! co_outcome (tr_completion tracked))"
  from tracked(3) obtain order stored where pub: "pubs (cl_session (sy_client s)) p = Some (order, stored)"
      "carries p m stored" "carries p m publish" "rels (cl_session (sy_client s)) p = None"
    by cases (auto simp: forward m_def view_simps(2,3) simp del: not_None_eq)
  have client: "sy_client s1 = sy_client s" "sy_connected s1" "sy_submitted s1 = sy_submitted s"
    using conn by (simp_all add: s1_def)
  have tables: "tables_ok (cl_session (sy_client s))" "distinct (map fst (cl_outcomes (sy_client s)))"
    using inv by (simp_all add: system_inv_def stores_ok_def)
  have "pub_packet_id publish = Some p" "pub_qos publish = QoS.ExactlyOnce"
    using pub(3) by (simp_all add: carries_def plain_qos2_def)
  from step this have "system_inv (client_does c e s1)"
  proof (cases rule: replay_cases)
    case stopped
    with s1 client(1) show ?thesis
      by (metis nothing_done)
  next
    case abandoned
    have "in_transit s1 p = {#}"
      using pub(4) by (simp add: in_transit_def view_simps client split: option.split)
    then show ?thesis
      using abandoned tables tracked pub
      by (intro settle_move [OF s1(1) client(2) s1(2), where tracked = tracked
            and outcome = "Indeterminate ReplayNotConforming"])
        (auto simp: client session_simps Completion_indeterminate_def Completion_settle_def)
  next
    case resent
    let ?resend = "(without_topic_alias publish)\<lparr>pub_dup := True\<rparr>"
    let ?v = "view (client_does c e s1) p"
    have "carries p m ?resend"
      using pub(3) by (rule resend_carries)
    moreover have "vw_pub ?v = Some (order, stored)" "\<not> vw_rel ?v" "vw_backward ?v = []"
        "vw_forward ?v = [] \<or> vw_forward ?v = [TPub ?resend]"
      using s1(2) resent pub calculation
      by (auto simp: quiet_def view_simps client_does_def client at_append at_def carries_def)
    ultimately have "exchange_ok p m ?v"
      using pub(2) by (intro exchange_ok.publishing [where publish = stored]) auto
    then show ?thesis
      using resent tables tracked pub \<open>carries p m ?resend\<close>
      by (intro advance_move [OF s1(1) client(2), where p = p and tracked = tracked
            and tracked' = "tracked\<lparr>tr_completion := Completion_mark_resent (tr_completion tracked)\<rparr>"])
        (auto simp: client m_def mark_resent_facts Completion_mark_resent_def carries_def)
  qed
  then show ?thesis
    by (simp add: s1_def)
qed

lemma replay_pubrel_inv:
  assumes inv: "system_inv s" and conn: "sy_connected s" and item: "sy_replay s = OutboundReplay.PubRel p # items"
    and step: "replay_item L now wr policy slot is_current (OutboundReplay.PubRel p) (sy_client s) = (c, e, goes_on)"
  shows "system_inv (client_does c e (s\<lparr>sy_replay := items\<rparr>))"
proof -
  define s1 where "s1 = s\<lparr>sy_replay := items\<rparr>"
  from take_replay [OF inv item replay_id.simps(1)]
  have s1: "system_inv s1" "quiet s1 p" and forward: "vw_forward (view s p) = [TRel]"
    by (simp_all add: s1_def)
  obtain tracked where tracked: "map_of (cl_outcomes (sy_client s)) p = Some tracked"
      "exchange_ok p (content (sy_submitted s ! co_outcome (tr_completion tracked))) (view s p)"
    using exchange_at [OF inv, of p] forward by auto
  define m where "m = content (sy_submitted s ! co_outcome (tr_completion tracked))"
  from tracked(2) have stage: "vw_pub (view s p) = None" "vw_rel (view s p)"
      "\<forall>msg. vw_stored (view s p) = Some msg \<longrightarrow> holds_message p m msg"
    by (auto elim!: exchange_ok.cases simp: forward m_def)
  have c: "c = sy_client s1" "e = no_effects \<or> e = no_effects\<lparr>ef_written := [Packet.PubRel (AckPacket_new p)]\<rparr>"
    using step by (auto simp: replay_item_def s1_def split: sum.splits)
  have tables: "tables_ok (cl_session (sy_client s))" "distinct (map fst (cl_outcomes (sy_client s)))"
    using inv by (simp_all add: system_inv_def stores_ok_def)
  let ?v = "view (client_does c e s1) p"
  have "vw_pub ?v = None" "vw_rel ?v" "vw_stored ?v = vw_stored (view s p)" "vw_backward ?v = []"
      "vw_forward ?v = [] \<or> vw_forward ?v = [TRel]"
    using s1(2) stage c
    by (auto simp: quiet_def view_simps client_does_def s1_def at_append at_def no_effects_def AckPacket_new_def)
  then have "exchange_ok p m ?v"
    using stage(3) by (intro exchange_ok.releasing) auto
  then have "system_inv (client_does c e s1)"
    using c tables tracked conn
    by (intro advance_move [OF s1(1), where p = p and tracked = tracked and tracked' = tracked])
      (auto simp: s1_def m_def no_effects_def AckPacket_new_def)
  then show ?thesis
    by (simp add: s1_def)
qed

lemma replay_inv:
  assumes inv: "system_inv s" and conn: "sy_connected s" and item: "sy_replay s = item # items"
    and step: "replay_item L now wr policy slot is_current item (sy_client s) = (c, e, goes_on)"
  shows "system_inv ((client_does c e s)\<lparr>sy_replay := (if goes_on then items else [])\<rparr>)"
proof -
  have taken: "system_inv (client_does c e (s\<lparr>sy_replay := items\<rparr>))"
    using replay_publish_inv [OF inv conn] replay_pubrel_inv [OF inv conn] item step by (cases item) auto
  have "(client_does c e s)\<lparr>sy_replay := items\<rparr> = client_does c e (s\<lparr>sy_replay := items\<rparr>)"
      "(client_does c e s)\<lparr>sy_replay := []\<rparr> = (client_does c e (s\<lparr>sy_replay := items\<rparr>))\<lparr>sy_replay := []\<rparr>"
    by (simp_all add: client_does_def)
  with taken drop_replay_inv [OF taken] show ?thesis
    by simp
qed

subsection \<open>The broker receives a publish\<close>

lemma inject_keeps:
  assumes "i \<noteq> PropertyId.UserProperty"
  shows "Properties_get (Properties_inject_client_id (Properties_inject_sender props user) cid) i = Properties_get props i"
  using assms
  by (simp add: Properties_inject_client_id_def Properties_inject_sender_def Properties_remove_user_property_by_key_def
      Properties_add_user_property_def Properties_push_def Properties_get_def Let_def split: option.splits)

lemma respond_pubrec:
  assumes "respond L wr routed h (Packet.PubRec ack) = (h', written, routed', r)"
  shows "h' = h" "routed' = routed"
    "written = [] \<or> (\<exists>ack'. written = [Packet.PubRec ack'] \<and> ack_packet_id ack' = ack_packet_id ack
       \<and> ack_reason_code ack' = ack_reason_code ack)"
  using assms write_to_client_ack [of "Packet.PubRec ack" ack L wr h]
  by (auto simp: respond_def split: sum.splits)

lemma refuse_plain:
  assumes "refuse_publish L wr h publish code reason = (h', written, routed, r)"
    and "carries p m publish" "ReasonCode_is_error code"
  shows "h' = h" "routed = []"
    "written = [] \<or> (\<exists>ack. written = [Packet.PubRec ack] \<and> ack_packet_id ack = p
       \<and> ReasonCode_is_error (ack_reason_code ack))"
proof -
  have "respond L wr [] h (Packet.PubRec (refusal h p code reason)) = (h', written, routed, r)"
    using assms(1,2) by (simp add: refuse_publish_def carries_def plain_qos2_def)
  from respond_pubrec [OF this] assms(3) show "h' = h" "routed = []"
    "written = [] \<or> (\<exists>ack. written = [Packet.PubRec ack] \<and> ack_packet_id ack = p
       \<and> ReasonCode_is_error (ack_reason_code ack))"
    by (auto simp: refusal_def AckPacket_new_def Let_def split: if_splits)
qed

text \<open>What the broker can do with a QoS 2 publish.\<close>

inductive publish_handled ::
  "u16 \<Rightarrow> message \<Rightarrow> nat \<Rightarrow> ClientHandler \<Rightarrow> broker_handled \<Rightarrow> bool" for p m now h where
  closed: "publish_handled p m now h (h, written, [], Inl e)"
| refused: "written = [] \<or> (\<exists>ack. written = [Packet.PubRec ack] \<and> ack_packet_id ack = p
      \<and> ReasonCode_is_error (ack_reason_code ack))
    \<Longrightarrow> publish_handled p m now h (h, written, [], r)"
| accepted: "carries p m publish \<Longrightarrow> written = [] \<or> (\<exists>ack. written = [Packet.PubRec ack]
      \<and> ack_packet_id ack = p \<and> \<not> ReasonCode_is_error (ack_reason_code ack))
    \<Longrightarrow> h1 = persist_inbound now publish h
    \<Longrightarrow> publish_handled p m now h
          (h1\<lparr>ch_inflight_publishes := AList.update p (Pending publish) (ch_inflight_publishes h1)\<rparr>, written, [], r)"

lemma refused_handled:
  assumes "carries p m publish" "ReasonCode_is_error code"
  shows "publish_handled p m now h (refuse_publish L wr h publish code reason)"
proof -
  obtain h' written routed r where res: "refuse_publish L wr h publish code reason = (h', written, routed, r)"
    by (cases "refuse_publish L wr h publish code reason")
  note refuse_plain [OF res assms]
  then show ?thesis
    unfolding res by (simp add: publish_handled.refused)
qed

lemma routed_handled:
  assumes "carries p m publish"
  shows "publish_handled p m now h (route_publish_by_qos L now wr h publish)"
proof -
  define h1 where "h1 = persist_inbound now publish h"
  define h2 where "h2 = h1\<lparr>ch_inflight_publishes := AList.update p (Pending publish) (ch_inflight_publishes h1)\<rparr>"
  have "route_publish_by_qos L now wr h publish = respond L wr [] h2 (Packet.PubRec (AckPacket_new p))"
    using assms by (simp add: route_publish_by_qos_def carries_def plain_qos2_def Let_def h1_def h2_def)
  moreover obtain h' written routed r
    where res: "respond L wr [] h2 (Packet.PubRec (AckPacket_new p)) = (h', written, routed, r)"
    by (cases "respond L wr [] h2 (Packet.PubRec (AckPacket_new p))")
  moreover have "\<not> ReasonCode_is_error (ack_reason_code (AckPacket_new p))" "ack_packet_id (AckPacket_new p) = p"
    by (simp_all add: AckPacket_new_def ReasonCode_is_error_def enum_simps)
  ultimately show ?thesis
    using respond_pubrec [OF res] publish_handled.accepted [OF assms _ h1_def, of written r]
    by (auto simp: h2_def)
qed

lemma publish_is_handled:
  assumes "pe_on_client_publish env = (\<lambda>_. PublishAction.Continue)" and plain: "carries p m publish"
  shows "publish_handled p m now h (handle_publish L env now wr publish h)"
proof -
  let ?publish = "publish\<lparr>pub_properties := Properties_inject_client_id
    (Properties_inject_sender (pub_properties publish) (ch_user_id h)) (Some (ch_client_id h))\<rparr>"
  have injected: "carries p m ?publish"
    using plain inject_keeps
    by (simp add: carries_def plain_qos2_def content_def Properties_get_topic_alias_def
        Properties_get_message_expiry_interval_def)
  have codes: "ReasonCode_is_error ReasonCode.NotAuthorized" "ReasonCode_is_error ReasonCode.QoSNotSupported"
      "ReasonCode_is_error ReasonCode.QuotaExceeded"
    by (simp_all add: ReasonCode_is_error_def enum_simps)
  have resolve: "resolve_topic_alias h publish = Inl MqttError.ProtocolError
      \<or> resolve_topic_alias h publish = Inr (h, publish)"
    using plain by (simp add: resolve_topic_alias_def carries_def plain_qos2_def)
  have checked: "publish_handled p m now h (send_not_authorized_response L wr h publish)"
      "publish_handled p m now h (send_qos_not_supported_response L wr h publish)"
      "publish_handled p m now h (send_quota_exceeded_response L wr h publish reason)"
      "publish_handled p m now h (send_rate_limit_response L wr h ?publish)" for reason
    using refused_handled [OF plain] refused_handled [OF injected] codes plain
    by (simp_all add: send_not_authorized_response_def send_rate_limit_response_def
        send_qos_not_supported_response_def send_quota_exceeded_response_def carries_def)
  show ?thesis
  proof (cases "check_receive_maximum L wr h publish")
    case None
    with resolve checked routed_handled [OF injected] publish_handled.closed [of p m now h] show ?thesis
      by (elim disjE; cases "validate_publish_properties publish")
        (simp_all add: handle_publish_def assms(1) Let_def split: option.split)
  next
    case (Some closing)
    then show ?thesis
      by (cases closing) (simp add: handle_publish_def publish_handled.closed)
  qed
qed

text \<open>The broker answers a publish of identifier \<open>p\<close>, whatever it did with the message.\<close>

lemma answer_move:
  assumes inv: "system_inv s" and conn: "sy_connected s" and quiet: "quiet s p"
    and tracked: "map_of (cl_outcomes (sy_client s)) p = Some tracked" "tr_qos tracked = QoS.ExactlyOnce"
      "co_outcome (tr_completion tracked) < length (sy_submitted s)"
    and m: "m = content (sy_submitted s ! co_outcome (tr_completion tracked))"
    and pub: "pubs (cl_session (sy_client s)) p = Some (order, stored)" "carries p m stored"
      "rels (cl_session (sy_client s)) p = None"
    and storage: "ch_storage h = Some entries" "distinct (map fst entries)"
    and entries: "inbound_entries entries"
    and frame: "\<And>q. q \<noteq> p \<Longrightarrow> map_of (ch_inflight_publishes h) q = map_of (ch_inflight_publishes (sy_broker s)) q"
      "\<And>q. q \<noteq> p \<Longrightarrow> map_of entries (q, Inbound) = map_of (store_of (sy_broker s)) (q, Inbound)"
    and ok: "broker_ok True p (view (broker_does h written [] s) p)"
    and written: "written = [] \<or> (\<exists>ack. written = [Packet.PubRec ack] \<and> ack_packet_id ack = p
      \<and> (\<not> ReasonCode_is_error (ack_reason_code ack)
            \<longrightarrow> (\<exists>msg. map_of entries (p, Inbound) = Some msg \<and> holds_message p m msg)))"
  shows "system_inv (broker_does h written [] s)"
proof (rule broker_move [OF inv conn storage entries frame])
  let ?s' = "broker_does h written [] s"
  let ?v = "view ?s' p"
  have same: "vw_tracked ?v = Some tracked" "vw_pub ?v = Some (order, stored)" "\<not> vw_rel ?v"
      "sy_submitted ?s' = sy_submitted s" "sy_connected ?s'" "vw_stored ?v = map_of entries (p, Inbound)"
      "vw_forward ?v = []" "vw_backward ?v = at p written"
    using tracked pub conn quiet storage
    by (simp_all add: view_simps broker_does_def quiet_def at_append store_of_def)
  have "exchange_ok p m ?v"
    using pub(2) same written by (intro exchange_ok.publishing [where publish = stored]) (auto simp: at_def)
  then show "id_ok ?s' p"
    using ok tracked by (simp add: id_ok_def same m)
  show "mset (map content []) + in_transit s p = in_transit ?s' p"
    using same pub by (simp add: in_transit_def view_simps(3) split: option.split)
  show "\<forall>packet \<in> set written. packet_for packet = Some p
      \<and> (\<exists>ack. packet = Packet.PubRec ack \<or> packet = Packet.PubComp ack)"
    using written by auto
qed

lemma stored_entries:
  assumes "system_inv s"
  obtains entries where "ch_storage (sy_broker s) = Some entries" "distinct (map fst entries)"
    "inbound_entries entries"
proof -
  have stores: "stores_ok s"
    using assms by (simp add: system_inv_def)
  then obtain entries where entries: "ch_storage (sy_broker s) = Some entries"
    by (auto simp: stores_ok_def)
  then have same: "store_of (sy_broker s) = entries"
    by (simp add: store_of_def)
  show thesis
    using stores unfolding stores_ok_def same by (intro that [OF entries]) blast+
qed

lemma persist_facts:
  assumes "ch_storage h = Some entries" "distinct (map fst entries)" "carries p m publish"
    and "inbound_entries entries"
  obtains entries' msg where "ch_storage (persist_inbound now publish h) = Some entries'"
    "distinct (map fst entries')"
    "map_of entries' = (map_of entries)((p, Inbound) \<mapsto> msg)" "holds_message p m msg"
    "Message (im_topic msg) (im_payload msg) = m"
    "inbound_entries entries'"
    "ch_inflight_publishes (persist_inbound now publish h) = ch_inflight_publishes h"
proof -
  define msg where "msg = InflightMessage_from_publish now publish (ch_client_id h) Inbound AwaitingPubrel"
  have msg: "im_packet_id msg = p" "im_direction msg = Inbound" "im_expires_at_cache msg = None"
      "Message (im_topic msg) (im_payload msg) = m"
    using assms(3)
    by (simp_all add: msg_def InflightMessage_from_publish_def Let_def carries_def plain_qos2_def content_def)
  let ?ok = "\<lambda>((q, d), msg). d = Inbound \<and> im_packet_id msg = q \<and> im_direction msg = Inbound
      \<and> im_expires_at_cache msg = None"
  have "list_all ?ok (AList.update (p, Inbound) msg entries)"
    using assms(4) msg by (intro list_all_alist_update) (auto simp: list_all_iff)
  then show thesis
    using assms(1,2) msg
    by (intro that [of "AList.update (p, Inbound) msg entries" msg])
      (simp_all add: persist_inbound_def store_inflight_message_def alist_maps alist_distinct holds_message_def
        list_all_iff flip: msg_def)
qed

lemma broker_receives_publish_inv:
  assumes inv: "system_inv s" and conn: "sy_connected s" and pkt: "sy_to_broker s = Packet.Publish publish # rest"
    and env: "pe_on_client_publish env = (\<lambda>_. PublishAction.Continue)"
    and step: "handle_publish L env now wr publish (sy_broker s) = (h, written, routed, r)"
  shows "system_inv (end_unless_ok r (broker_does h written routed (s\<lparr>sy_to_broker := rest\<rparr>)))"
proof -
  define s1 where "s1 = s\<lparr>sy_to_broker := rest\<rparr>"
  have "packet_for (Packet.Publish publish) \<noteq> None"
    using inv pkt unfolding system_inv_def stores_ok_def by (metis list.set_intros(1))
  then obtain p where p: "packet_for (Packet.Publish publish) = Some p"
    by blast
  from take_to_broker [OF inv pkt p]
  have s1: "system_inv s1" "quiet s1 p" and forward: "vw_forward (view s p) = [TPub publish]"
    by (simp_all add: s1_def)
  obtain tracked where tracked: "map_of (cl_outcomes (sy_client s)) p = Some tracked"
      "tr_qos tracked = QoS.ExactlyOnce" "co_outcome (tr_completion tracked) < length (sy_submitted s)"
      "exchange_ok p (content (sy_submitted s ! co_outcome (tr_completion tracked))) (view s p)"
    using exchange_at [OF inv, of p] forward by auto
  define m where "m = content (sy_submitted s ! co_outcome (tr_completion tracked))"
  from tracked(4) obtain order stored where pub: "pubs (cl_session (sy_client s)) p = Some (order, stored)"
      "carries p m stored" "carries p m publish" "rels (cl_session (sy_client s)) p = None"
    by cases (auto simp: forward m_def view_simps(2,3) simp del: not_None_eq)
  obtain entries where stores: "ch_storage (sy_broker s) = Some entries" "distinct (map fst entries)"
      "inbound_entries entries"
    by (rule stored_entries [OF inv])
  have client: "sy_client s1 = sy_client s" "sy_broker s1 = sy_broker s" "sy_connected s1"
      "sy_submitted s1 = sy_submitted s"
    using conn by (simp_all add: s1_def)
  note answer = answer_move [OF s1(1) client(3) s1(2), unfolded client, OF tracked(1-3) m_def pub(1,2,4)]
  have "publish_handled p m now (sy_broker s) (h, written, routed, r)"
    unfolding step [symmetric] by (rule publish_is_handled [OF env pub(3)])
  then have "system_inv (end_unless_ok r (broker_does h written routed s1))"
  proof cases
    case (closed e)
    have "lose_connection (broker_does (sy_broker s1) written [] s1) = lose_connection s1"
      by (cases s1) (simp add: lose_connection_def broker_does_def)
    with closed lose_connection_inv [OF s1(1)] show ?thesis
      by (simp add: end_unless_ok_def client)
  next
    case refused
    have "broker_ok True p (view s1 p)"
      using s1(1) client(3) by (simp add: system_inv_def id_ok_def)
    moreover have "broker_ok True p (view (broker_does h written [] s1) p) = broker_ok True p (view s1 p)"
      by (rule broker_same) (simp_all add: view_simps broker_does_def refused client)
    ultimately have "system_inv (broker_does h written [] s1)"
      using refused stores by (intro answer [of h entries]) (auto simp: store_of_def)
    with refused show ?thesis
      by (simp add: end_unless_ok_inv)
  next
    case (accepted publish1 h1)
    obtain entries' msg where stored': "ch_storage h1 = Some entries'" "distinct (map fst entries')"
        "map_of entries' = (map_of entries)((p, Inbound) \<mapsto> msg)" "holds_message p m msg"
        "Message (im_topic msg) (im_payload msg) = m"
        "inbound_entries entries'"
        "ch_inflight_publishes h1 = ch_inflight_publishes (sy_broker s)"
      by (rule persist_facts [OF stores(1,2) accepted(3) stores(3), of now, folded accepted(5)])
    have "vw_stored (view (broker_does h written [] s1) p) = Some msg"
        "vw_inflight (view (broker_does h written [] s1) p) = Some (Pending publish1)"
      by (simp_all add: view_simps broker_does_def accepted(1) store_of_def stored' alist_maps)
    then have "broker_ok True p (view (broker_does h written [] s1) p)"
      using accepted(3) stored'(5) by (simp add: broker_ok_def carries_def)
    then have "system_inv (broker_does h written [] s1)"
      using accepted(4) stored'
      by (intro answer [of h entries']) (auto simp: accepted(1) store_of_def stores(1) alist_maps)
    with accepted(2) show ?thesis
      by (simp add: end_unless_ok_inv)
  qed
  then show ?thesis
    by (simp add: s1_def)
qed

subsection \<open>The broker receives a release\<close>

lemma respond_pubcomp:
  assumes "respond L wr routed h (Packet.PubComp ack) = (h', written, routed', r)"
  shows "h' = h" "routed' = routed"
    "written = [] \<or> (\<exists>ack'. written = [Packet.PubComp ack'] \<and> ack_packet_id ack' = ack_packet_id ack)"
  using assms write_to_client_ack [of "Packet.PubComp ack" ack L wr h]
  by (auto simp: respond_def split: sum.splits)

text \<open>The broker releases identifier \<open>p\<close>: it routes what it had stored and forgets it.\<close>

lemma release_move:
  assumes inv: "system_inv s" and conn: "sy_connected s" and quiet: "quiet s p"
    and tracked: "map_of (cl_outcomes (sy_client s)) p = Some tracked" "tr_qos tracked = QoS.ExactlyOnce"
      "co_outcome (tr_completion tracked) < length (sy_submitted s)"
    and m: "m = content (sy_submitted s ! co_outcome (tr_completion tracked))"
    and stage: "pubs (cl_session (sy_client s)) p = None" "rels (cl_session (sy_client s)) p \<noteq> None"
    and storage: "ch_storage (sy_broker s) = Some entries" "ch_storage h = Some (AList.delete (p, Inbound) entries)"
    and inflight: "map_of (ch_inflight_publishes h) = (map_of (ch_inflight_publishes (sy_broker s)))(p := None)"
    and routed: "map content routed = (case map_of entries (p, Inbound) of None \<Rightarrow> [] | Some _ \<Rightarrow> [m])"
    and written: "written = [] \<or> (\<exists>ack. written = [Packet.PubComp ack] \<and> ack_packet_id ack = p)"
  shows "system_inv (broker_does h written routed s)"
proof (rule broker_move [OF inv conn storage(2)])
  let ?s' = "broker_does h written routed s"
  let ?v = "view ?s' p"
  have "distinct (map fst entries)" and ok: "inbound_entries entries"
    using stored_entries [OF inv] storage(1) by auto
  then show "distinct (map fst (AList.delete (p, Inbound) entries))"
    by (simp add: alist_distinct)
  show "inbound_entries (AList.delete (p, Inbound) entries)"
    using ok by (auto simp: AList.delete_eq)
  show "map_of (ch_inflight_publishes h) q = map_of (ch_inflight_publishes (sy_broker s)) q"
      "map_of (AList.delete (p, Inbound) entries) (q, Inbound) = map_of (store_of (sy_broker s)) (q, Inbound)"
    if "q \<noteq> p" for q
    using that by (simp_all add: inflight alist_maps store_of_def storage(1))
  have same: "vw_tracked ?v = Some tracked" "vw_pub ?v = None" "vw_rel ?v" "vw_inflight ?v = None"
      "sy_submitted ?s' = sy_submitted s" "sy_connected ?s'" "vw_stored ?v = None"
      "vw_forward ?v = []" "vw_backward ?v = at p written"
    using tracked stage conn quiet storage
    by (simp_all add: view_simps broker_does_def quiet_def at_append store_of_def inflight alist_maps)
  have "exchange_ok p m ?v"
    using same written by (intro exchange_ok.releasing) (auto simp: at_def)
  then show "id_ok ?s' p"
    using tracked by (simp add: id_ok_def broker_ok_def same m)
  have "vw_tracked (view s p) = Some tracked" "vw_rel (view s p)" "vw_stored (view s p) = map_of entries (p, Inbound)"
    using tracked stage by (simp_all add: view_simps store_of_def storage(1))
  then show "mset (map content routed) + in_transit s p = in_transit ?s' p"
    unfolding routed by (simp add: in_transit_def same m split: option.split)
  show "\<forall>packet \<in> set written. packet_for packet = Some p
      \<and> (\<exists>ack. packet = Packet.PubRec ack \<or> packet = Packet.PubComp ack)"
    using written by auto
qed

lemma broker_receives_pubrel_inv:
  assumes inv: "system_inv s" and conn: "sy_connected s" and pkt: "sy_to_broker s = Packet.PubRel pubrel # rest"
    and step: "broker_handle_pubrel L wr pubrel (sy_broker s) = (h, written, routed, r)"
  shows "system_inv (broker_does h written routed (s\<lparr>sy_to_broker := rest\<rparr>))"
proof -
  define p where "p = ack_packet_id pubrel"
  define s1 where "s1 = s\<lparr>sy_to_broker := rest\<rparr>"
  have "packet_for (Packet.PubRel pubrel) = Some p"
    by (simp add: p_def)
  from take_to_broker [OF inv pkt this]
  have s1: "system_inv s1" "quiet s1 p" and forward: "vw_forward (view s p) = [TRel]"
    by (simp_all add: s1_def)
  obtain tracked where tracked: "map_of (cl_outcomes (sy_client s)) p = Some tracked"
      "tr_qos tracked = QoS.ExactlyOnce" "co_outcome (tr_completion tracked) < length (sy_submitted s)"
      "exchange_ok p (content (sy_submitted s ! co_outcome (tr_completion tracked))) (view s p)"
    using exchange_at [OF inv, of p] forward by auto
  define m where "m = content (sy_submitted s ! co_outcome (tr_completion tracked))"
  from tracked(4) have stage: "pubs (cl_session (sy_client s)) p = None \<and> rels (cl_session (sy_client s)) p \<noteq> None
      \<and> (\<forall>msg. vw_stored (view s p) = Some msg \<longrightarrow> holds_message p m msg)"
    by cases (auto simp: forward m_def view_simps(2,3) simp del: not_None_eq)
  obtain entries where entries: "ch_storage (sy_broker s) = Some entries"
    by (rule stored_entries [OF inv])
  have stored: "vw_stored (view s p) = map_of entries (p, Inbound)"
    by (simp add: view_simps store_of_def entries)
  have broker: "broker_ok True p (view s p)"
    using inv conn by (simp add: system_inv_def id_ok_def)
  have client: "sy_client s1 = sy_client s" "sy_broker s1 = sy_broker s" "sy_connected s1"
      "sy_submitted s1 = sy_submitted s"
    using conn by (simp_all add: s1_def)
  note release = release_move [OF s1(1) client(3) s1(2), unfolded client, OF tracked(1-3) m_def _ _ entries]
  have "system_inv (broker_does h written routed s1)"
  proof (cases "map_of entries (p, Inbound)")
    case None
    then have none: "map_of (ch_inflight_publishes (sy_broker s)) p = None"
      using broker by (simp add: broker_ok_def stored view_simps(6))
    then have "respond L wr [] (sy_broker s) (Packet.PubComp (AckPacket_new_with_reason p ReasonCode.PacketIdentifierNotFound))
        = (h, written, routed, r)"
      using step by (simp add: broker_handle_pubrel_def Let_def p_def)
    from respond_pubcomp [OF this] have h: "h = sy_broker s" "routed = []"
        "written = [] \<or> (\<exists>ack. written = [Packet.PubComp ack] \<and> ack_packet_id ack = p)"
      by (simp_all add: AckPacket_new_with_reason_def)
    with None none stage entries show ?thesis
      by (intro release) (auto simp: alist_delete_none fun_upd_idem)
  next
    case (Some msg)
    with broker obtain publish where publish: "map_of (ch_inflight_publishes (sy_broker s)) p = Some (Pending publish)"
        "content publish = Message (im_topic msg) (im_payload msg)"
      by (auto simp: broker_ok_def stored view_simps(6))
    have "holds_message p m msg"
      using stage Some by (simp add: stored)
    then have content: "content publish = m"
      using publish(2) by (simp add: holds_message_def)
    define h1 where "h1 = (sy_broker s)\<lparr>ch_inflight_publishes := AList.delete p (ch_inflight_publishes (sy_broker s)),
      ch_storage := map_option (remove_inflight_message p Inbound) (ch_storage (sy_broker s))\<rparr>"
    have "respond L wr [publish] h1 (Packet.PubComp (AckPacket_new_with_reason p ReasonCode.Success)) = (h, written, routed, r)"
      using step publish(1) by (simp add: broker_handle_pubrel_def Let_def p_def h1_def)
    from respond_pubcomp [OF this] have h: "h = h1" "routed = [publish]"
        "written = [] \<or> (\<exists>ack. written = [Packet.PubComp ack] \<and> ack_packet_id ack = p)"
      by (simp_all add: AckPacket_new_with_reason_def)
    with Some stage content show ?thesis
      by (intro release) (auto simp: h1_def entries remove_inflight_message_def alist_maps)
  qed
  then show ?thesis
    by (simp add: s1_def)
qed


subsection \<open>Reachable states\<close>

lemma system_init_inv:
  assumes "fresh_client c"
  shows "system_inv (system_init c h)"
proof -
  have "view (system_init c h) p = \<lparr>vw_tracked = None, vw_pub = None, vw_rel = False, vw_forward = [],
      vw_backward = [], vw_inflight = None, vw_stored = None\<rparr>" for p
    using assms by (simp add: view_def system_init_def fresh_client_def at_def replay_at_def store_of_def)
  then have "\<forall>p. id_ok (system_init c h) p" "\<forall>p. in_transit (system_init c h) p = {#}"
    by (simp_all add: id_ok_def broker_ok_def in_transit_def)
  with assms show ?thesis
    by (simp add: system_inv_def accounts_ok_def delivered_handles_def)
      (simp add: stores_ok_def system_init_def fresh_client_def tables_ok_def store_of_def)
qed

lemma step_inv:
  assumes "qos2_step L s s'" "system_inv s"
  shows "system_inv s'"
  using assms
proof (cases rule: qos2_step.cases)
  case (client_receives packet rest env now wr c e r)
  from assms(2) client_receives(3) obtain ack where "packet = Packet.PubRec ack \<or> packet = Packet.PubComp ack"
    unfolding system_inv_def stores_ok_def by (metis list.set_intros(1))
  then have "system_inv (client_does c e (s\<lparr>sy_to_client := rest\<rparr>))"
    using client_receives_pubrec client_receives_pubcomp assms(2) client_receives(2-4) by (elim disjE) blast+
  with client_receives(1) show ?thesis
    by (simp add: end_unless_ok_inv)
next
  case (replay item items now wr policy slot is_current c e goes_on)
  then show ?thesis
    using replay_inv [OF assms(2) replay(2-4)] by simp
qed (auto intro: submit_inv broker_receives_publish_inv broker_receives_pubrel_inv end_unless_ok_inv replay_inv
    lose_connection_inv resume_session_inv)

lemma reachable_inv: "reachable L s \<Longrightarrow> system_inv s"
  by (induction rule: reachable.induct) (auto intro: system_init_inv step_inv)

lemma sum_mset_mono:
  fixes f g :: "'a \<Rightarrow> 'b multiset"
  assumes "finite A" "\<And>x. x \<in> A \<Longrightarrow> f x \<subseteq># g x"
  shows "sum f A \<subseteq># sum g A"
  using assms by (induction A) (simp_all add: subset_mset.add_mono)

lemma sum_alist:
  assumes "distinct (map fst t)"
  shows "(\<Sum>p \<in> (UNIV :: 'a :: finite set). case map_of t p of None \<Rightarrow> {#} | Some v \<Rightarrow> {# f v #})
    = mset (map (f \<circ> snd) t)"
  using assms
proof (induction t)
  case (Cons e t)
  obtain q v where e: "e = (q, v)"
    by (cases e)
  let ?g = "\<lambda>t p. case map_of t p of None \<Rightarrow> {#} | Some v \<Rightarrow> {# f v #}"
  have "map_of t q = None"
    using Cons.prems e by (simp add: map_of_eq_None_iff)
  then have "?g (e # t) p = (if p = q then {# f v #} else {#}) + ?g t p" for p
    by (simp add: e)
  then have "(\<Sum>p \<in> UNIV. ?g (e # t) p) = (\<Sum>p \<in> UNIV. if p = q then {# f v #} else {#}) + (\<Sum>p \<in> UNIV. ?g t p)"
    by (simp only: sum.distrib)
  then show ?case
    using Cons e by simp
qed simp

lemma in_transit_flying:
  assumes "distinct (map fst (cl_outcomes (sy_client s)))"
  shows "(\<Sum>p \<in> UNIV. in_transit s p)
    \<subseteq># mset (map (\<lambda>h. content (sy_submitted s ! h)) (flying (cl_outcomes (sy_client s))))"
proof -
  let ?f = "\<lambda>tracked. content (sy_submitted s ! co_outcome (tr_completion tracked))"
  have "(\<Sum>p \<in> UNIV. in_transit s p)
      \<subseteq># (\<Sum>p \<in> UNIV. case map_of (cl_outcomes (sy_client s)) p of None \<Rightarrow> {#} | Some v \<Rightarrow> {# ?f v #})"
    by (rule sum_mset_mono) (simp_all add: in_transit_def view_simps(1) split: option.split)
  then show ?thesis
    by (simp add: sum_alist [OF assms] comp_def)
qed

lemma contents_of_handles: "map (\<lambda>h. content (xs ! h)) [0..<length xs] = map content xs"
  by (rule nth_equalityI) simp_all



end
