(* ===== verification/Broker_Router.thy ===== *)
theory Broker_Router
  imports Broker_Publish
begin

text \<open>
  The broker's message router (\<open>broker/router.rs\<close>): the subscription tables, the selection of the
  subscriptions that receive a message, shared subscription groups, the delivery plans and the
  retained messages (\<open>broker/storage/mod.rs\<close>). A hash map is an association list with distinct keys,
  in any order. The hash of a payload (\<open>DefaultHasher\<close>, whose algorithm is unspecified) and the clock
  are arguments; what a plan's channels and queues do with a message is outside this theory.
\<close>

subsection \<open>Subscriptions\<close>

record Subscription =
  rs_client_id :: string
  rs_qos :: QoS
  rs_subscription_id :: "u32 option"
  rs_share_group :: "string option"
  rs_no_local :: bool
  rs_retain_as_published :: bool
  rs_retain_handling :: u8
  rs_protocol_version :: ProtocolVersion
  rs_change_only :: bool
  rs_flow_id :: "u64 option"

record SubscriptionRequest =
  sr_client_id :: string
  sr_topic_filter :: string
  sr_qos :: QoS
  sr_subscription_id :: "u32 option"
  sr_no_local :: bool
  sr_retain_as_published :: bool
  sr_retain_handling :: u8
  sr_protocol_version :: ProtocolVersion
  sr_change_only :: bool
  sr_flow_id :: "u64 option"

type_synonym identity = "string \<times> string option \<times> u64 option"

definition Subscription_identity :: "Subscription \<Rightarrow> identity" where
  "Subscription_identity s = (rs_client_id s, rs_share_group s, rs_flow_id s)"

type_synonym subs_map = "(string \<times> Subscription list) list"

record OutboundRateState =
  or_count :: u32
  or_window_start :: nat

record RetainedMessage =
  rm_topic :: string
  rm_payload :: bytes
  rm_qos :: QoS
  rm_retain :: bool
  rm_expires_at :: "nat option"
  rm_props :: V5PublishProps

record ClientInfo =
  ci_generation :: u64
  ci_behind :: bool

record MessageRouter =
  mr_exact_subscriptions :: subs_map
  mr_wildcard_subscriptions :: subs_map
  mr_retained_messages :: "(string \<times> RetainedMessage) list"
  mr_clients :: "(string \<times> ClientInfo) list"
  mr_storage :: "(string \<times> RetainedMessage) list option"
  mr_share_group_counters :: "(string \<times> string) \<rightharpoonup> u64"
  mr_change_only_states :: "string \<rightharpoonup> (string \<times> u64) list"
  mr_echo_suppression_key :: "string option"
  mr_outbound_rates :: "string \<rightharpoonup> OutboundRateState"
  mr_max_outbound_rate :: u32
  mr_max_retained_messages :: nat
  mr_max_retained_message_size :: nat

datatype Subscribed = New | Updated | Fenced

datatype Unsubscribed = Removed | Absent | Fenced

definition has_wildcards :: "string \<Rightarrow> bool" where
  "has_wildcards topic_filter \<longleftrightarrow>
     str_contains topic_filter (CHR ''+'') \<or> str_contains topic_filter (CHR ''#'')"

definition generation_is_current :: "u64 option \<Rightarrow> string \<Rightarrow> MessageRouter \<Rightarrow> bool" where
  "generation_is_current generation client_id r =
     (case generation of
        None \<Rightarrow> True
      | Some generation \<Rightarrow>
          (case map_of (mr_clients r) client_id of
             Some info \<Rightarrow> ci_generation info = generation | None \<Rightarrow> False))"

text \<open>The table that holds the subscriptions of a filter, and its replacement.\<close>

definition table_of :: "string \<Rightarrow> MessageRouter \<Rightarrow> subs_map" where
  "table_of flt r = (if has_wildcards flt then mr_wildcard_subscriptions r else mr_exact_subscriptions r)"

definition with_table :: "string \<Rightarrow> subs_map \<Rightarrow> MessageRouter \<Rightarrow> MessageRouter" where
  "with_table flt t r =
     (if has_wildcards flt then r\<lparr>mr_wildcard_subscriptions := t\<rparr> else r\<lparr>mr_exact_subscriptions := t\<rparr>)"

definition or_default :: "'a list option \<Rightarrow> 'a list" where
  "or_default v = (case v of Some xs \<Rightarrow> xs | None \<Rightarrow> [])"

definition position :: "('a \<Rightarrow> bool) \<Rightarrow> 'a list \<Rightarrow> nat option" where
  "position P xs =
     (let n = length (takeWhile (Not \<circ> P) xs) in if n < length xs then Some n else None)"

definition put_subscription :: "Subscription \<Rightarrow> Subscription list \<Rightarrow> Subscription list \<times> Subscribed" where
  "put_subscription subscription subs =
     (case position (\<lambda>s. Subscription_identity s = Subscription_identity subscription) subs of
        Some pos \<Rightarrow> (subs[pos := subscription], Updated)
      | None \<Rightarrow> (subs @ [subscription], New))"

definition subscribe_as ::
  "u64 option \<Rightarrow> SubscriptionRequest \<Rightarrow> MessageRouter \<Rightarrow> (MessageRouter \<times> Subscribed) result" where
  "subscribe_as generation request r =
     (if sr_retain_handling request > 2 then Inl MqttError.ProtocolError
      else
        case parse_shared_subscription (sr_topic_filter request) of
          (actual_filter, share_group) \<Rightarrow>
            let subscription = \<lparr>rs_client_id = sr_client_id request, rs_qos = sr_qos request,
                  rs_subscription_id = sr_subscription_id request, rs_share_group = share_group,
                  rs_no_local = sr_no_local request,
                  rs_retain_as_published = sr_retain_as_published request,
                  rs_retain_handling = sr_retain_handling request,
                  rs_protocol_version = sr_protocol_version request,
                  rs_change_only = sr_change_only request, rs_flow_id = sr_flow_id request\<rparr>;
                subs_map = table_of actual_filter r
            in if \<not> generation_is_current generation (sr_client_id request) r
               then Inr (r, Subscribed.Fenced)
               else
                 case put_subscription subscription (or_default (map_of subs_map actual_filter)) of
                   (subs, outcome) \<Rightarrow>
                     let r = with_table actual_filter (AList.update actual_filter subs subs_map) r;
                         counters = mr_share_group_counters r
                     in Inr ((case share_group of
                                Some grp \<Rightarrow>
                                  if counters (grp, actual_filter) = None
                                  then r\<lparr>mr_share_group_counters :=
                                         counters((grp, actual_filter) \<mapsto> 0)\<rparr>
                                  else r
                              | None \<Rightarrow> r), outcome))"

definition unsubscribe_as ::
  "u64 option \<Rightarrow> string \<Rightarrow> string \<Rightarrow> u64 option \<Rightarrow> MessageRouter \<Rightarrow> MessageRouter \<times> Unsubscribed" where
  "unsubscribe_as generation client_id topic_filter flow_id r =
     (case parse_shared_subscription topic_filter of
        (actual_filter, share_group) \<Rightarrow>
          let subs_map = table_of actual_filter r in
          if \<not> generation_is_current generation client_id r then (r, Unsubscribed.Fenced)
          else
            case map_of subs_map actual_filter of
              Some subs \<Rightarrow>
                let kept = filter (\<lambda>sub. Subscription_identity sub \<noteq> (client_id, share_group, flow_id)) subs
                in (with_table actual_filter
                      (if kept = [] then AList.delete actual_filter subs_map
                       else AList.update actual_filter kept subs_map) r,
                    if length subs \<noteq> length kept then Removed else Absent)
            | None \<Rightarrow> (r, Absent))"

text \<open>Keeping the subscriptions that satisfy a predicate, and the filters that are left with any.\<close>

definition retain_routes :: "(string \<Rightarrow> Subscription \<Rightarrow> bool) \<Rightarrow> subs_map \<Rightarrow> subs_map" where
  "retain_routes P m =
     filter (\<lambda>(_, subs). subs \<noteq> []) (map (\<lambda>(flt, subs). (flt, filter (P flt) subs)) m)"

definition retain_subscriptions :: "(Subscription \<Rightarrow> bool) \<Rightarrow> subs_map \<Rightarrow> subs_map" where
  "retain_subscriptions P = retain_routes (\<lambda>_. P)"

definition unsubscribe_by_flow ::
  "u64 option \<Rightarrow> string \<Rightarrow> u64 \<Rightarrow> MessageRouter \<Rightarrow> MessageRouter \<times> string list" where
  "unsubscribe_by_flow generation client_id flow_id r =
     (if \<not> generation_is_current generation client_id r then (r, [])
      else
        let keep = (\<lambda>sub. \<not> (rs_client_id sub = client_id \<and> rs_flow_id sub = Some flow_id));
            removed = (\<lambda>m. map fst (filter (\<lambda>(_, subs). \<not> list_all keep subs) m))
        in (r\<lparr>mr_exact_subscriptions := retain_subscriptions keep (mr_exact_subscriptions r),
              mr_wildcard_subscriptions := retain_subscriptions keep (mr_wildcard_subscriptions r)\<rparr>,
            removed (mr_exact_subscriptions r) @ removed (mr_wildcard_subscriptions r)))"

definition strip_client :: "string \<Rightarrow> subs_map \<Rightarrow> subs_map" where
  "strip_client client_id = retain_subscriptions (\<lambda>sub. rs_client_id sub \<noteq> client_id)"

definition remove_client_subscriptions :: "string \<Rightarrow> MessageRouter \<Rightarrow> MessageRouter" where
  "remove_client_subscriptions client_id r =
     r\<lparr>mr_exact_subscriptions := strip_client client_id (mr_exact_subscriptions r),
       mr_wildcard_subscriptions := strip_client client_id (mr_wildcard_subscriptions r)\<rparr>"

definition disconnect_client :: "string \<Rightarrow> MessageRouter \<Rightarrow> MessageRouter" where
  "disconnect_client client_id r =
     r\<lparr>mr_clients := AList.delete client_id (mr_clients r),
       mr_outbound_rates := (mr_outbound_rates r)(client_id := None)\<rparr>"

definition unregister_client :: "string \<Rightarrow> MessageRouter \<Rightarrow> MessageRouter" where
  "unregister_client client_id r =
     remove_client_subscriptions client_id (disconnect_client client_id r)"

subsection \<open>Selecting subscriptions\<close>

type_synonym ShareGroups = "((string \<times> string) \<times> Subscription list) list"

definition add_matching ::
  "string \<Rightarrow> Subscription \<Rightarrow> ShareGroups \<times> Subscription list \<Rightarrow> ShareGroups \<times> Subscription list" where
  "add_matching topic_filter sub acc =
     (case acc of (share_groups, regular_subs) \<Rightarrow>
        (case rs_share_group sub of
           Some grp \<Rightarrow>
             (AList.update (grp, topic_filter)
                (or_default (map_of share_groups (grp, topic_filter)) @ [sub]) share_groups,
              regular_subs)
         | None \<Rightarrow> (share_groups, regular_subs @ [sub])))"

definition collect_matching_subscriptions ::
  "subs_map \<Rightarrow> subs_map \<Rightarrow> string \<Rightarrow> ShareGroups \<times> Subscription list" where
  "collect_matching_subscriptions exact wildcard topic_name =
     fold (\<lambda>(topic_filter, subs) acc.
             if topic_matches_filter topic_name topic_filter
             then fold (add_matching topic_filter) subs acc else acc) wildcard
       (case map_of exact topic_name of
          Some subs \<Rightarrow> fold (add_matching topic_name) subs ([], [])
        | None \<Rightarrow> ([], []))"

subsection \<open>Delivery plans\<close>

datatype DeliveryPlan =
    Online (plan_client: string) (plan_message: PublishPacket) (plan_flow: "u64 option")
  | Behind (plan_client: string) (plan_message: PublishPacket) (plan_flow: "u64 option")

definition OutboundRateState_check_and_increment ::
  "nat \<Rightarrow> u32 \<Rightarrow> OutboundRateState \<Rightarrow> bool \<times> OutboundRateState" where
  "OutboundRateState_check_and_increment now max_rate st =
     (if max_rate = 0 then (True, st)
      else if now - or_window_start st \<ge> 10 ^ 9 then (True, \<lparr>or_count = 1, or_window_start = now\<rparr>)
      else if or_count st \<ge> max_rate then (False, st)
      else (True, st\<lparr>or_count := or_count st + 1\<rparr>))"

definition CHANGE_ONLY_MAX_TOPICS :: nat where
  "CHANGE_ONLY_MAX_TOPICS = 10000"

definition ChangeOnlyState_should_deliver ::
  "(bytes \<Rightarrow> u64) \<Rightarrow> (string \<times> u64) list \<Rightarrow> string \<Rightarrow> bytes \<Rightarrow> bool" where
  "ChangeOnlyState_should_deliver compute_hash st topic payload \<longleftrightarrow>
     map_of st topic \<noteq> Some (compute_hash payload)"

definition ChangeOnlyState_update_hash ::
  "(bytes \<Rightarrow> u64) \<Rightarrow> string \<Rightarrow> bytes \<Rightarrow> (string \<times> u64) list \<Rightarrow> (string \<times> u64) list" where
  "ChangeOnlyState_update_hash compute_hash topic payload st =
     AList.update topic (compute_hash payload)
       (if length st \<ge> CHANGE_ONLY_MAX_TOPICS \<and> map_of st topic = None
        then (case st of (key, _) # _ \<Rightarrow> AList.delete key st | [] \<Rightarrow> st) else st)"

fun effective_qos :: "QoS \<Rightarrow> QoS \<Rightarrow> QoS" where
  "effective_qos QoS.AtMostOnce _ = QoS.AtMostOnce"
| "effective_qos _ QoS.AtMostOnce = QoS.AtMostOnce"
| "effective_qos QoS.ExactlyOnce QoS.ExactlyOnce = QoS.ExactlyOnce"
| "effective_qos _ _ = QoS.AtLeastOnce"

definition prepare_message :: "PublishPacket \<Rightarrow> Subscription \<Rightarrow> QoS \<Rightarrow> PublishPacket" where
  "prepare_message publish sub qos =
     publish\<lparr>pub_packet_id := None, pub_qos := qos, pub_dup := False,
       pub_protocol_version := ProtocolVersion_as_u8 (rs_protocol_version sub),
       pub_retain := (pub_retain publish \<and> rs_retain_as_published sub),
       pub_properties := set_opt Properties_set_subscription_identifier (rs_subscription_id sub)
         (pub_properties publish)\<rparr>"

definition plan_queued :: "Subscription \<Rightarrow> PublishPacket \<Rightarrow> QoS \<Rightarrow> MessageRouter \<Rightarrow> DeliveryPlan option" where
  "plan_queued sub publish qos r =
     (if qos = QoS.AtMostOnce then None
      else if mr_storage r = None then None
      else Some (Behind (rs_client_id sub) (prepare_message publish sub qos) (rs_flow_id sub)))"

definition check_outbound_rate :: "nat \<Rightarrow> string \<Rightarrow> MessageRouter \<Rightarrow> bool \<times> MessageRouter" where
  "check_outbound_rate now client_id r =
     (if mr_max_outbound_rate r = 0 then (True, r)
      else case mr_outbound_rates r client_id of
        None \<Rightarrow> (True, r)
      | Some st \<Rightarrow>
          (case OutboundRateState_check_and_increment now (mr_max_outbound_rate r) st of
             (ok, st) \<Rightarrow> (ok, r\<lparr>mr_outbound_rates := (mr_outbound_rates r)(client_id \<mapsto> st)\<rparr>)))"

definition plan_delivery ::
  "(bytes \<Rightarrow> u64) \<Rightarrow> nat \<Rightarrow> PublishPacket \<Rightarrow> string option \<Rightarrow> Subscription \<Rightarrow> MessageRouter
     \<Rightarrow> DeliveryPlan option \<times> MessageRouter" where
  "plan_delivery compute_hash now publish publishing_client_id sub r =
     (if rs_no_local sub \<and> publishing_client_id = Some (rs_client_id sub) then (None, r)
      else if (case mr_echo_suppression_key r of
                 Some key \<Rightarrow> Properties_get_user_property_value (pub_properties publish) key
                   = Some (rs_client_id sub)
               | None \<Rightarrow> False) then (None, r)
      else if rs_change_only sub
        \<and> (case mr_change_only_states r (rs_client_id sub) of
             Some st \<Rightarrow> \<not> ChangeOnlyState_should_deliver compute_hash st
               (pub_topic_name publish) (pub_payload publish)
           | None \<Rightarrow> False) then (None, r)
      else
        let qos = effective_qos (pub_qos publish) (rs_qos sub) in
        case check_outbound_rate now (rs_client_id sub) r of
          (ok, r) \<Rightarrow>
            if \<not> ok then (plan_queued sub publish qos r, r)
            else if map_of (mr_clients r) (rs_client_id sub) \<noteq> None then
              (Some (Online (rs_client_id sub) (prepare_message publish sub qos) (rs_flow_id sub)),
               if rs_change_only sub then
                 r\<lparr>mr_change_only_states := (mr_change_only_states r)(rs_client_id sub \<mapsto>
                    ChangeOnlyState_update_hash compute_hash (pub_topic_name publish) (pub_payload publish)
                      (or_default (mr_change_only_states r (rs_client_id sub))))\<rparr>
               else r)
            else (plan_queued sub publish qos r, r))"

definition choose_member :: "MessageRouter \<Rightarrow> nat \<Rightarrow> Subscription list \<Rightarrow> Subscription" where
  "choose_member r start online =
     (case find (\<lambda>sub. case map_of (mr_clients r) (rs_client_id sub) of
                        Some info \<Rightarrow> \<not> ci_behind info | None \<Rightarrow> False)
             (map (\<lambda>offset. online ! ((start + offset) mod length online)) [0..<length online]) of
        Some sub \<Rightarrow> sub
      | None \<Rightarrow> online ! start)"

definition plan_share_group ::
  "(bytes \<Rightarrow> u64) \<Rightarrow> nat \<Rightarrow> PublishPacket \<Rightarrow> string option \<Rightarrow> (string \<times> string) \<times> Subscription list
     \<Rightarrow> MessageRouter \<Rightarrow> DeliveryPlan option \<times> MessageRouter" where
  "plan_share_group compute_hash now publish publishing_client_id entry r =
     (case entry of (key, group_subs) \<Rightarrow>
        let online = filter (\<lambda>sub. map_of (mr_clients r) (rs_client_id sub) \<noteq> None) group_subs in
        if online \<noteq> [] then
          (case mr_share_group_counters r key of
             Some counter \<Rightarrow>
               plan_delivery compute_hash now publish publishing_client_id
                 (choose_member r (unat counter mod length online) online)
                 (r\<lparr>mr_share_group_counters := (mr_share_group_counters r)(key \<mapsto> counter + 1)\<rparr>)
           | None \<Rightarrow> (None, r))
        else
          (case group_subs of
             sub # _ \<Rightarrow> (plan_queued sub publish (effective_qos (pub_qos publish) (rs_qos sub)) r, r)
           | [] \<Rightarrow> (None, r)))"

fun plan_all ::
  "('a \<Rightarrow> MessageRouter \<Rightarrow> DeliveryPlan option \<times> MessageRouter) \<Rightarrow> 'a list \<Rightarrow> MessageRouter
     \<Rightarrow> DeliveryPlan list \<times> MessageRouter" where
  "plan_all plan [] r = ([], r)"
| "plan_all plan (x # xs) r =
     (case plan x r of (p, r) \<Rightarrow>
        (case plan_all plan xs r of (ps, r) \<Rightarrow> ((case p of Some p \<Rightarrow> [p] | None \<Rightarrow> []) @ ps, r)))"

subsection \<open>Retained messages\<close>

definition RetainedMessage_new :: "nat \<Rightarrow> PublishPacket \<Rightarrow> RetainedMessage" where
  "RetainedMessage_new now packet =
     \<lparr>rm_topic = pub_topic_name packet, rm_payload = pub_payload packet, rm_qos = pub_qos packet,
      rm_retain = pub_retain packet,
      rm_expires_at = map_option (\<lambda>interval. now + unat interval * 10 ^ 9)
        (Properties_get_message_expiry_interval (pub_properties packet)),
      rm_props = V5PublishProps_from_packet packet\<rparr>"

definition RetainedMessage_remaining_expiry_interval :: "nat \<Rightarrow> RetainedMessage \<Rightarrow> u32 option" where
  "RetainedMessage_remaining_expiry_interval now msg =
     Option.bind (rm_expires_at msg) (\<lambda>expiry.
       if now \<le> expiry then
         (let s = (expiry - now) div 10 ^ 9 in
          Some (if s < 2 ^ 32 then word_of_nat s else 0xFFFFFFFF))
       else None)"

definition RetainedMessage_is_expired :: "nat \<Rightarrow> RetainedMessage \<Rightarrow> bool" where
  "RetainedMessage_is_expired now msg =
     (case rm_expires_at msg of Some expiry \<Rightarrow> now > expiry | None \<Rightarrow> False)"

definition RetainedMessage_to_publish_packet :: "nat \<Rightarrow> RetainedMessage \<Rightarrow> PublishPacket" where
  "RetainedMessage_to_publish_packet now msg =
     (let packet = PublishPacket_with_retain
            (PublishPacket_new (rm_topic msg) (rm_payload msg) (rm_qos msg)) (rm_retain msg)
      in apply_v5_props (rm_props msg)
           (packet\<lparr>pub_properties :=
              set_opt Properties_set_message_expiry_interval
                (RetainedMessage_remaining_expiry_interval now msg) (pub_properties packet)\<rparr>))"

definition retained_store_full :: "string \<Rightarrow> MessageRouter \<Rightarrow> bool" where
  "retained_store_full topic r \<longleftrightarrow>
     mr_max_retained_messages r > 0 \<and> map_of (mr_retained_messages r) topic = None
     \<and> length (mr_retained_messages r) \<ge> mr_max_retained_messages r"

definition handle_retain_storage :: "nat \<Rightarrow> PublishPacket \<Rightarrow> bool \<Rightarrow> MessageRouter \<Rightarrow> MessageRouter" where
  "handle_retain_storage now publish retained_limits_apply r =
     (let topic = pub_topic_name publish in
      if pub_payload publish = [] then
        r\<lparr>mr_retained_messages := AList.delete topic (mr_retained_messages r),
          mr_storage := map_option (AList.delete topic) (mr_storage r)\<rparr>
      else
        let msg = RetainedMessage_new now publish;
            too_large = (mr_max_retained_message_size r > 0
              \<and> length (pub_payload publish) > mr_max_retained_message_size r)
        in if retained_limits_apply \<and> (too_large \<or> retained_store_full topic r) then r
           else r\<lparr>mr_retained_messages := AList.update topic msg (mr_retained_messages r),
                  mr_storage := map_option (AList.update topic msg) (mr_storage r)\<rparr>)"

definition get_retained_messages :: "nat \<Rightarrow> string \<Rightarrow> MessageRouter \<Rightarrow> PublishPacket list" where
  "get_retained_messages now topic_filter r =
     map (\<lambda>(_, msg). RetainedMessage_to_publish_packet now msg)
       (filter (\<lambda>(topic, msg). topic_matches_filter topic topic_filter \<and> \<not> RetainedMessage_is_expired now msg)
         (mr_retained_messages r))"

subsection \<open>Routing\<close>

text \<open>The plans, in the order they are executed.\<close>

definition route_message_internal ::
  "(bytes \<Rightarrow> u64) \<Rightarrow> nat \<Rightarrow> PublishPacket \<Rightarrow> string option \<Rightarrow> bool \<Rightarrow> (string \<Rightarrow> bool) option
     \<Rightarrow> MessageRouter \<Rightarrow> DeliveryPlan list \<times> MessageRouter" where
  "route_message_internal compute_hash now publish publishing_client_id retained_limits_apply selected_groups r =
     (let r = (if pub_retain publish then handle_retain_storage now publish retained_limits_apply r else r) in
      case collect_matching_subscriptions (mr_exact_subscriptions r) (mr_wildcard_subscriptions r)
             (pub_topic_name publish) of
        (share_groups, regular_subs) \<Rightarrow>
          let share_groups = (case selected_groups of
                Some selected \<Rightarrow> filter (\<lambda>((grp, _), _). selected grp) share_groups
              | None \<Rightarrow> share_groups)
          in case plan_all (plan_share_group compute_hash now publish publishing_client_id) share_groups r of
               (plans, r) \<Rightarrow>
                 (case plan_all (plan_delivery compute_hash now publish publishing_client_id) regular_subs r of
                    (regular_plans, r) \<Rightarrow> (plans @ regular_plans, r)))"


subsection \<open>What the tables hold\<close>

text \<open>
  The subscriptions as one map from filters and identities, and those of them that a topic selects
  outside share groups or in a given one. \<open>serves r T\<close> relates a router to the map
  its calls amount to, whatever else happens in between.
\<close>

type_synonym sub_table = "string \<times> identity \<rightharpoonup> Subscription"

definition subscription_of :: "SubscriptionRequest \<Rightarrow> string option \<Rightarrow> Subscription" where
  "subscription_of request share_group =
     \<lparr>rs_client_id = sr_client_id request, rs_qos = sr_qos request,
      rs_subscription_id = sr_subscription_id request, rs_share_group = share_group,
      rs_no_local = sr_no_local request, rs_retain_as_published = sr_retain_as_published request,
      rs_retain_handling = sr_retain_handling request,
      rs_protocol_version = sr_protocol_version request,
      rs_change_only = sr_change_only request, rs_flow_id = sr_flow_id request\<rparr>"

definition keep_only :: "(Subscription \<Rightarrow> bool) \<Rightarrow> sub_table \<Rightarrow> sub_table" where
  "keep_only P T k = (case T k of Some s \<Rightarrow> if P s then Some s else None | None \<Rightarrow> None)"

definition selected_by :: "sub_table \<Rightarrow> string \<Rightarrow> string option \<Rightarrow> (string \<times> identity) set" where
  "selected_by T topic share =
     {k \<in> dom T. topic_matches_filter topic (fst k) \<and> rs_share_group (the (T k)) = share}"

inductive serves :: "MessageRouter \<Rightarrow> sub_table \<Rightarrow> bool" where
  start: "mr_exact_subscriptions r = [] \<Longrightarrow> mr_wildcard_subscriptions r = [] \<Longrightarrow> serves r Map.empty"
| subscribed: "serves r T \<Longrightarrow> subscribe_as generation request r = Inr (r', outcome)
    \<Longrightarrow> parse_shared_subscription (sr_topic_filter request) = (flt, share)
    \<Longrightarrow> T' = (if outcome = Subscribed.Fenced then T
              else T((flt, (sr_client_id request, share, sr_flow_id request)) \<mapsto> subscription_of request share))
    \<Longrightarrow> serves r' T'"
| unsubscribed: "serves r T \<Longrightarrow> unsubscribe_as generation client_id topic_filter flow_id r = (r', outcome)
    \<Longrightarrow> parse_shared_subscription topic_filter = (flt, share)
    \<Longrightarrow> T' = (if outcome = Unsubscribed.Fenced then T else T((flt, (client_id, share, flow_id)) := None))
    \<Longrightarrow> serves r' T'"
| flow_closed: "serves r T \<Longrightarrow> unsubscribe_by_flow generation client_id flow_id r = (r', removed)
    \<Longrightarrow> T' = (if generation_is_current generation client_id r
              then keep_only (\<lambda>s. \<not> (rs_client_id s = client_id \<and> rs_flow_id s = Some flow_id)) T else T)
    \<Longrightarrow> serves r' T'"
| unregistered: "serves r T
    \<Longrightarrow> serves (unregister_client client_id r) (keep_only (\<lambda>s. rs_client_id s \<noteq> client_id) T)"
| disconnected: "serves r T \<Longrightarrow> serves (disconnect_client client_id r) T"
| connected: "serves r T \<Longrightarrow> serves (r\<lparr>mr_clients := clients, mr_outbound_rates := rates\<rparr>) T"
| routed: "serves r T
    \<Longrightarrow> route_message_internal compute_hash now publish publisher limits selected r = (plans, r')
    \<Longrightarrow> serves r' T"

subsection \<open>The tables\<close>

definition flat :: "subs_map \<Rightarrow> ((string \<times> identity) \<times> Subscription) list" where
  "flat m = concat (map (\<lambda>(flt, subs). map (\<lambda>s. ((flt, Subscription_identity s), s)) subs) m)"

definition table_ok :: "(string \<Rightarrow> bool) \<Rightarrow> subs_map \<Rightarrow> bool" where
  "table_ok P m \<longleftrightarrow> distinct (map fst m)
     \<and> list_all (\<lambda>(flt, subs). P flt \<and> subs \<noteq> [] \<and> distinct (map Subscription_identity subs)) m"

definition router_ok :: "MessageRouter \<Rightarrow> bool" where
  "router_ok r \<longleftrightarrow> table_ok (Not \<circ> has_wildcards) (mr_exact_subscriptions r)
     \<and> table_ok has_wildcards (mr_wildcard_subscriptions r)"

definition lookup :: "subs_map \<Rightarrow> sub_table" where
  "lookup m k = Option.bind (map_of m (fst k)) (find (\<lambda>s. Subscription_identity s = snd k))"

definition held :: "MessageRouter \<Rightarrow> sub_table" where
  "held r k = lookup (table_of (fst k) r) k"

lemma find_SomeD: "find P xs = Some x \<Longrightarrow> P x"
  by (induction xs) (auto split: if_splits)

lemma map_of_flat:
  assumes "distinct (map fst m)"
  shows "map_of (flat m) = lookup m"
proof
  fix k :: "string \<times> identity"
  obtain f i where k: "k = (f, i)"
    by (cases k)
  have one: "map_of (map (\<lambda>s. ((flt, Subscription_identity s), s)) subs) (f, i)
      = (if flt = f then find (\<lambda>s. Subscription_identity s = i) subs else None)" for flt subs
    by (induction subs) auto
  show "map_of (flat m) k = lookup m k"
    using assms unfolding k
  proof (induction m)
    case (Cons e m)
    obtain flt subs where e: "e = (flt, subs)"
      by (cases e)
    have "map_of m f = None" if "flt = f"
      using Cons.prems that e by (simp add: map_of_eq_None_iff)
    with Cons e show ?case
      by (auto simp: flat_def lookup_def one map_add_def split: option.split)
  qed (simp add: flat_def lookup_def)
qed

lemma distinct_flat:
  assumes "table_ok P m"
  shows "distinct (map fst (flat m))"
proof -
  have keys: "map fst (flat m) = concat (map (\<lambda>(flt, subs). map (\<lambda>s. (flt, Subscription_identity s)) subs) m)"
    by (simp add: flat_def map_concat comp_def case_prod_unfold)
  show ?thesis
    using assms unfolding keys
  proof (induction m)
    case (Cons e m)
    obtain flt subs where e: "e = (flt, subs)"
      by (cases e)
    have "distinct (map (\<lambda>s. (flt, Subscription_identity s)) subs)"
      using Cons.prems e by (simp add: table_ok_def distinct_map inj_on_def)
    moreover have "flt \<notin> fst ` set m"
      using Cons.prems e by (simp add: table_ok_def)
    ultimately show ?case
      using Cons e by (auto simp: table_ok_def image_iff case_prod_unfold)
  qed simp
qed

lemma put_subscription_simps:
  "put_subscription s [] = ([s], New)"
  "put_subscription s (x # xs) =
     (if Subscription_identity x = Subscription_identity s then (s # xs, Updated)
      else (x # fst (put_subscription s xs), snd (put_subscription s xs)))"
  by (simp_all add: put_subscription_def position_def Let_def split: option.split)

lemma put_subscription_facts:
  assumes "distinct (map Subscription_identity subs)"
  shows "fst (put_subscription s subs) \<noteq> []"
    "distinct (map Subscription_identity (fst (put_subscription s subs)))"
    "find (\<lambda>x. Subscription_identity x = i) (fst (put_subscription s subs))
      = (if i = Subscription_identity s then Some s else find (\<lambda>x. Subscription_identity x = i) subs)"
    "set (map Subscription_identity (fst (put_subscription s subs)))
      = insert (Subscription_identity s) (set (map Subscription_identity subs))"
    "snd (put_subscription s subs) \<noteq> Subscribed.Fenced"
  using assms by (induction subs) (auto simp: put_subscription_simps)

lemma table_ok_entry:
  assumes "table_ok P m" "map_of m f = Some subs"
  shows "P f" "subs \<noteq> []" "distinct (map Subscription_identity subs)"
  using assms map_of_SomeD [OF assms(2)] by (auto simp: table_ok_def list_all_iff)

lemma table_ok_update:
  assumes "table_ok P m" "P f" "subs \<noteq> []" "distinct (map Subscription_identity subs)"
  shows "table_ok P (AList.update f subs m)"
  using assms by (simp add: table_ok_def alist_distinct list_all_alist_update)

lemma table_ok_delete: "table_ok P m \<Longrightarrow> table_ok P (AList.delete f m)"
  by (simp add: table_ok_def alist_distinct list_all_alist_delete)

lemma lookup_update:
  "lookup (AList.update f subs m) (f', i) =
     (if f' = f then find (\<lambda>s. Subscription_identity s = i) subs else lookup m (f', i))"
  by (simp add: lookup_def alist_maps)

lemma lookup_delete: "lookup (AList.delete f m) (f', i) = (if f' = f then None else lookup m (f', i))"
  by (simp add: lookup_def alist_maps)

lemma find_filter_identity:
  assumes "distinct (map Subscription_identity subs)"
  shows "find (\<lambda>s. Subscription_identity s = i) (filter P subs) =
    (case find (\<lambda>s. Subscription_identity s = i) subs of Some s \<Rightarrow> if P s then Some s else None | None \<Rightarrow> None)"
  using assms
proof (induction subs)
  case (Cons x subs)
  have "find (\<lambda>s. Subscription_identity s = i) subs = None" if "Subscription_identity x = i"
    using Cons.prems that by (auto simp: find_None_iff image_iff)
  with Cons show ?case
    by auto
qed simp

lemma map_of_retain:
  assumes "distinct (map fst m)"
  shows "map_of (retain_routes P m) f =
    (case map_of m f of
       Some subs \<Rightarrow> if filter (P f) subs = [] then None else Some (filter (P f) subs) | None \<Rightarrow> None)"
  using assms
proof (induction m)
  case (Cons e m)
  obtain flt subs where e: "e = (flt, subs)"
    by (cases e)
  have "map_of m f = None" if "flt = f"
    using Cons.prems that e by (simp add: map_of_eq_None_iff)
  with Cons e show ?case
    by (auto simp: retain_routes_def)
qed (simp add: retain_routes_def)

lemma retain_facts:
  assumes "table_ok P m"
  shows "table_ok P (retain_routes Q m)" "lookup (retain_routes Q m) k = keep_only (Q (fst k)) (lookup m) k"
proof -
  have "distinct (map fst (retain_routes Q m))"
    using assms by (simp add: table_ok_def retain_routes_def comp_def case_prod_unfold distinct_map_filter)
  moreover have "P f \<and> subs \<noteq> [] \<and> distinct (map Subscription_identity subs)"
    if entry: "(f, subs) \<in> set (retain_routes Q m)" for f subs
  proof -
    from entry obtain all where "(f, all) \<in> set m" "subs = filter (Q f) all" "subs \<noteq> []"
      by (auto simp: retain_routes_def)
    moreover from this assms have "P f" "distinct (map Subscription_identity all)"
      by (auto simp: table_ok_def list_all_iff)
    ultimately show ?thesis
      by (simp add: distinct_map_filter)
  qed
  ultimately show "table_ok P (retain_routes Q m)"
    by (auto simp: table_ok_def list_all_iff)
  have "distinct (map fst m)"
    using assms by (simp add: table_ok_def)
  note retain = map_of_retain [OF this, of Q]
  show "lookup (retain_routes Q m) k = keep_only (Q (fst k)) (lookup m) k"
  proof (cases "map_of m (fst k)")
    case (Some subs)
    have "find (\<lambda>s. Subscription_identity s = snd k) (filter (Q (fst k)) subs) = keep_only (Q (fst k)) (lookup m) k"
      using Some find_filter_identity [OF table_ok_entry(3) [OF assms Some]] by (simp add: lookup_def keep_only_def)
    with Some show ?thesis
      by (cases "filter (Q (fst k)) subs = []") (simp_all add: lookup_def retain)
  qed (simp add: lookup_def keep_only_def retain)
qed

lemma table_of_cong: "has_wildcards f' = has_wildcards f \<Longrightarrow> table_of f' r = table_of f r"
  by (simp add: table_of_def)

lemma with_table_ok:
  assumes "router_ok r" "table_ok (\<lambda>f'. has_wildcards f' = has_wildcards f) t"
  shows "router_ok (with_table f t r)"
  using assms by (cases "has_wildcards f") (simp_all add: router_ok_def with_table_def comp_def)

lemma held_with_table:
  "held (with_table f t r) (f', i) = (if has_wildcards f' = has_wildcards f then lookup t (f', i) else held r (f', i))"
  by (simp add: with_table_def held_def table_of_def)

lemma held_at: "held r (f, i) = find (\<lambda>s. Subscription_identity s = i) (or_default (map_of (table_of f r) f))"
  by (simp add: held_def lookup_def or_default_def split: option.split)

lemma held_update:
  "held (with_table f (AList.update f subs (table_of f r)) r) (f', i) =
     (if f' = f then find (\<lambda>s. Subscription_identity s = i) subs else held r (f', i))"
  using table_of_cong [of f' f r] by (simp add: held_with_table lookup_update held_def [of r])

lemma held_delete:
  "held (with_table f (AList.delete f (table_of f r)) r) (f', i) = (if f' = f then None else held r (f', i))"
  using table_of_cong [of f' f r] by (simp add: held_with_table lookup_delete held_def [of r])

lemma table_of_ok: "router_ok r \<Longrightarrow> table_ok (\<lambda>f'. has_wildcards f' = has_wildcards f) (table_of f r)"
  by (auto simp: router_ok_def table_of_def comp_def)

lemma held_same_tables:
  assumes "mr_exact_subscriptions r' = mr_exact_subscriptions r" "mr_wildcard_subscriptions r' = mr_wildcard_subscriptions r"
  shows "held r' = held r" "router_ok r' = router_ok r"
proof -
  show "held r' = held r"
    using assms by (intro ext) (simp add: held_def table_of_def)
  show "router_ok r' = router_ok r"
    using assms by (simp add: router_ok_def)
qed

lemma subscribe_facts:
  assumes "router_ok r" "subscribe_as generation request r = Inr (r', outcome)"
    and "parse_shared_subscription (sr_topic_filter request) = (flt, share)"
  shows "router_ok r' \<and> held r' = (if outcome = Subscribed.Fenced then held r
      else (held r)((flt, (sr_client_id request, share, sr_flow_id request)) \<mapsto> subscription_of request share))"
proof (cases "generation_is_current generation (sr_client_id request) r")
  case True
  let ?s = "subscription_of request share"
  let ?old = "or_default (map_of (table_of flt r) flt)"
  let ?t = "AList.update flt (fst (put_subscription ?s ?old)) (table_of flt r)"
  have ident: "Subscription_identity ?s = (sr_client_id request, share, sr_flow_id request)"
    by (simp add: Subscription_identity_def subscription_of_def)
  note tab = table_of_ok [OF assms(1), of flt]
  have old: "distinct (map Subscription_identity ?old)"
    using table_ok_entry(3) [OF tab] by (auto simp: or_default_def split: option.split)
  note put = put_subscription_facts [OF old, where s = ?s]
  have ok: "table_ok (\<lambda>f'. has_wildcards f' = has_wildcards flt) ?t"
    using tab put by (intro table_ok_update) simp_all
  have r': "mr_exact_subscriptions r' = mr_exact_subscriptions (with_table flt ?t r)"
      "mr_wildcard_subscriptions r' = mr_wildcard_subscriptions (with_table flt ?t r)"
      "outcome = snd (put_subscription ?s ?old)"
    using assms(2,3) True
    by (auto simp: subscribe_as_def subscription_of_def Let_def split: if_splits prod.splits option.splits)
  have "held r' k = ((held r)((flt, Subscription_identity ?s) \<mapsto> ?s)) k" for k
    by (cases k) (simp add: held_same_tables(1) [OF r'(1,2)] held_update put(3) held_at [of r])
  then have "held r' = (held r)((flt, Subscription_identity ?s) \<mapsto> ?s)"
    by (intro ext)
  then show ?thesis
    using with_table_ok [OF assms(1) ok] held_same_tables(2) [OF r'(1,2)] put(5) r'(3) by (simp add: ident)
next
  case False
  then have "r' = r" "outcome = Subscribed.Fenced"
    using assms(2,3) by (auto simp: subscribe_as_def Let_def split: if_splits)
  then show ?thesis
    using assms(1) by simp
qed

lemma unsubscribe_facts:
  assumes "router_ok r" "unsubscribe_as generation client_id topic_filter flow_id r = (r', outcome)"
    and "parse_shared_subscription topic_filter = (flt, share)"
  shows "router_ok r' \<and> held r' = (if outcome = Unsubscribed.Fenced then held r
      else (held r)((flt, (client_id, share, flow_id)) := None))"
proof (cases "generation_is_current generation client_id r")
  case current: True
  let ?i = "(client_id, share, flow_id)"
  note tab = table_of_ok [OF assms(1), of flt]
  show ?thesis
  proof (cases "map_of (table_of flt r) flt")
    case None
    then have "held r (flt, ?i) = None" "r' = r" "outcome = Absent"
      using assms(2,3) current by (simp_all add: held_def lookup_def unsubscribe_as_def Let_def)
    with assms(1) show ?thesis
      by (simp add: fun_upd_idem)
  next
    case (Some subs)
    define kept where "kept = filter (\<lambda>sub. Subscription_identity sub \<noteq> ?i) subs"
    let ?t = "if kept = [] then AList.delete flt (table_of flt r) else AList.update flt kept (table_of flt r)"
    have "r' = with_table flt ?t r \<and> outcome = (if length subs \<noteq> length kept then Removed else Absent)"
      using assms(2,3) current Some unfolding kept_def by (simp add: unsubscribe_as_def Let_def)
    then have r': "r' = with_table flt ?t r" "outcome \<noteq> Unsubscribed.Fenced"
      by (simp_all split: if_split)
    note subs = table_ok_entry(3) [OF tab Some]
    have "table_ok (\<lambda>f'. has_wildcards f' = has_wildcards flt) ?t"
      using tab subs by (auto simp: kept_def table_ok_delete distinct_map_filter intro!: table_ok_update)
    note ok = with_table_ok [OF assms(1) this]
    have find_kept: "find (\<lambda>s. Subscription_identity s = i) kept =
        (if i = ?i then None else find (\<lambda>s. Subscription_identity s = i) subs)" for i
      unfolding kept_def find_filter_identity [OF subs]
      by (auto split: option.split dest: find_SomeD)
    have "held r' k = ((held r)((flt, ?i) := None)) k" for k
      using Some find_kept [of "snd k"]
      by (cases k; cases "kept = []") (auto simp: r' held_update held_delete held_at [of r] or_default_def split: if_splits)
    then have "held r' = (held r)((flt, ?i) := None)"
      by (intro ext)
    then show ?thesis
      using ok r' by simp
  qed
next
  case False
  then have "r' = r" "outcome = Unsubscribed.Fenced"
    using assms(2,3) by (simp_all add: unsubscribe_as_def Let_def)
  then show ?thesis
    using assms(1) by simp
qed

lemma held_retain_routes:
  assumes "router_ok r"
    and "mr_exact_subscriptions r' = retain_routes P (mr_exact_subscriptions r)"
    and "mr_wildcard_subscriptions r' = retain_routes P (mr_wildcard_subscriptions r)"
  shows "router_ok r'" "held r' k = keep_only (P (fst k)) (held r) k"
proof -
  note exact = retain_facts [of "Not \<circ> has_wildcards" "mr_exact_subscriptions r" P]
    and wild = retain_facts [of has_wildcards "mr_wildcard_subscriptions r" P]
  show "router_ok r'"
    using assms exact(1) wild(1) by (simp add: router_ok_def)
  show "held r' k = keep_only (P (fst k)) (held r) k"
    using assms exact(2) wild(2) by (simp add: held_def table_of_def router_ok_def keep_only_def)
qed

lemma held_retain:
  assumes "router_ok r"
    and "mr_exact_subscriptions r' = retain_subscriptions P (mr_exact_subscriptions r)"
    and "mr_wildcard_subscriptions r' = retain_subscriptions P (mr_wildcard_subscriptions r)"
  shows "router_ok r'" "held r' = keep_only P (held r)"
  using held_retain_routes [of r r' "\<lambda>_. P"] assms by (auto simp: retain_subscriptions_def)

text \<open>Planning a delivery leaves the subscriptions, the clients and the storage alone.\<close>

definition same_routes :: "MessageRouter \<Rightarrow> MessageRouter \<Rightarrow> bool" where
  "same_routes r r' \<longleftrightarrow>
     mr_exact_subscriptions r' = mr_exact_subscriptions r \<and> mr_wildcard_subscriptions r' = mr_wildcard_subscriptions r
     \<and> mr_clients r' = mr_clients r \<and> (mr_storage r' = None \<longleftrightarrow> mr_storage r = None)
     \<and> mr_echo_suppression_key r' = mr_echo_suppression_key r \<and> mr_max_outbound_rate r' = mr_max_outbound_rate r
     \<and> dom (mr_share_group_counters r') = dom (mr_share_group_counters r)"

lemma same_routes_refl: "same_routes r r"
  by (simp add: same_routes_def)

lemma same_routes_trans: "same_routes r r' \<Longrightarrow> same_routes r' r'' \<Longrightarrow> same_routes r r''"
  by (simp add: same_routes_def)

lemma check_outbound_rate_routes: "same_routes r (snd (check_outbound_rate now c r))"
  by (simp add: check_outbound_rate_def same_routes_def split: option.split prod.split)

lemma plan_delivery_routes: "same_routes r (snd (plan_delivery h now publish publisher sub r))"
  using check_outbound_rate_routes [of r now "rs_client_id sub"]
  by (cases "check_outbound_rate now (rs_client_id sub) r")
    (simp add: plan_delivery_def same_routes_def Let_def)

lemma plan_share_group_routes: "same_routes r (snd (plan_share_group h now publish publisher entry r))"
proof (cases entry)
  case (Pair key subs)
  let ?r = "\<lambda>n. r\<lparr>mr_share_group_counters := (mr_share_group_counters r)(key \<mapsto> n)\<rparr>"
  have "same_routes r (?r n)" if "mr_share_group_counters r key = Some c" for n c
    using that by (auto simp: same_routes_def)
  then have "same_routes r (snd (plan_delivery h now publish publisher sub (?r n)))"
    if "mr_share_group_counters r key = Some c" for sub n c
    using that plan_delivery_routes same_routes_trans by blast
  then show ?thesis
    by (simp add: Pair plan_share_group_def Let_def same_routes_refl split: option.split list.split)
qed

lemma plan_all_routes:
  assumes "\<And>x r. same_routes r (snd (plan x r))"
  shows "same_routes r (snd (plan_all plan xs r))"
proof (induction xs arbitrary: r)
  case (Cons x xs)
  have "same_routes r (snd (plan_all plan xs (snd (plan x r))))"
    using assms Cons same_routes_trans by blast
  then show ?case
    by (cases "plan x r"; cases "plan_all plan xs (snd (plan x r))") simp
qed (simp add: same_routes_refl)

lemma handle_retain_storage_routes: "same_routes r (handle_retain_storage now publish limits r)"
  by (simp add: handle_retain_storage_def same_routes_def Let_def)

lemma route_message_split:
  assumes r1_def: "r1 = (if pub_retain publish then handle_retain_storage now publish limits r else r)"
    and matched_def: "matched = collect_matching_subscriptions (mr_exact_subscriptions r) (mr_wildcard_subscriptions r)
    (pub_topic_name publish)"
    and groups_def: "groups = (case selected of Some sel \<Rightarrow> filter (\<lambda>((grp, _), _). sel grp) (fst matched) | None \<Rightarrow> fst matched)"
    and route: "route_message_internal h now publish publisher limits selected r = (plans, r')"
  obtains shared r2 regular where
    "plan_all (plan_share_group h now publish publisher) groups r1 = (shared, r2)"
    "plan_all (plan_delivery h now publish publisher) (snd matched) r2 = (regular, r')"
    "plans = shared @ regular" "same_routes r r1" "same_routes r r2" "same_routes r r'"
proof -
  have r1: "same_routes r r1"
    by (simp add: r1_def handle_retain_storage_routes same_routes_refl)
  then have matched': "collect_matching_subscriptions (mr_exact_subscriptions r1) (mr_wildcard_subscriptions r1)
      (pub_topic_name publish) = (fst matched, snd matched)"
    by (simp add: matched_def same_routes_def)
  obtain shared r2 where shared: "plan_all (plan_share_group h now publish publisher) groups r1 = (shared, r2)"
    by (cases "plan_all (plan_share_group h now publish publisher) groups r1")
  obtain regular r3 where regular: "plan_all (plan_delivery h now publish publisher) (snd matched) r2 = (regular, r3)"
    by (cases "plan_all (plan_delivery h now publish publisher) (snd matched) r2")
  have "plans = shared @ regular \<and> r' = r3"
    using route matched' shared regular
    unfolding route_message_internal_def Let_def r1_def [symmetric] groups_def
    by (cases matched; cases selected) simp_all
  moreover have "same_routes r1 r2" "same_routes r2 r3"
    using plan_all_routes [of "plan_share_group h now publish publisher" r1 groups] shared
      plan_all_routes [of "plan_delivery h now publish publisher" r2 "snd matched"] regular
    by (simp_all add: plan_share_group_routes plan_delivery_routes)
  ultimately show thesis
    using that [OF shared, of regular] regular r1 same_routes_trans by blast
qed

lemma serves_held:
  assumes "serves r T"
  shows "router_ok r \<and> held r = T"
  using assms
proof (induction rule: serves.induct)
  case (start r)
  then show ?case
    by (simp add: router_ok_def table_ok_def fun_eq_iff held_def table_of_def lookup_def)
next
  case (subscribed r T generation request r' outcome flt share T')
  then show ?case
    using subscribe_facts by blast
next
  case (unsubscribed r T generation client_id topic_filter flow_id r' outcome flt share T')
  then show ?case
    using unsubscribe_facts by blast
next
  case (flow_closed r T generation client_id flow_id r' removed T')
  let ?keep = "\<lambda>s. \<not> (rs_client_id s = client_id \<and> rs_flow_id s = Some flow_id)"
  show ?case
  proof (cases "generation_is_current generation client_id r")
    case True
    then have "mr_exact_subscriptions r' = retain_subscriptions ?keep (mr_exact_subscriptions r)"
        "mr_wildcard_subscriptions r' = retain_subscriptions ?keep (mr_wildcard_subscriptions r)"
      using flow_closed.hyps(2) by (auto simp: unsubscribe_by_flow_def Let_def)
    then show ?thesis
      using held_retain [of r r' ?keep] flow_closed True by simp
  next
    case False
    then show ?thesis
      using flow_closed by (simp add: unsubscribe_by_flow_def)
  qed
next
  case (unregistered r T client_id)
  let ?r' = "unregister_client client_id r"
  have "mr_exact_subscriptions ?r' = retain_subscriptions (\<lambda>s. rs_client_id s \<noteq> client_id) (mr_exact_subscriptions r)"
      "mr_wildcard_subscriptions ?r' = retain_subscriptions (\<lambda>s. rs_client_id s \<noteq> client_id) (mr_wildcard_subscriptions r)"
    by (simp_all add: unregister_client_def remove_client_subscriptions_def disconnect_client_def strip_client_def)
  then show ?case
    using held_retain [of r ?r'] unregistered by simp
next
  case (disconnected r T client_id)
  then show ?case
    using held_same_tables [of "disconnect_client client_id r" r] by (simp add: disconnect_client_def)
next
  case (connected r T)
  then show ?case
    by (simp add: held_same_tables [of "r\<lparr>mr_clients := _, mr_outbound_rates := _\<rparr>" r])
next
  case (routed r T compute_hash now publish publisher limits selected plans r')
  from routed.hyps(2) have "same_routes r r'"
    by (rule route_message_split [OF refl refl refl])
  then show ?case
    using held_same_tables [of r' r] routed by (simp add: same_routes_def)
qed

end
