(* ===== verification/Router_Delivery.thy ===== *)
theory Router_Delivery
  imports Broker_Router "HOL-Library.Sublist"
begin

text \<open>
  What the router of \<open>Broker_Router\<close> delivers: the subscriptions a topic selects are those of the map
  that the subscribe and unsubscribe calls amount to, every plan serves one of them, a share group
  gets one plan, and a group whose members all keep up is served in turn.
\<close>

subsection \<open>Specification\<close>

text \<open>The entries of a table that a topic selects.\<close>

definition matching_entries :: "string \<Rightarrow> subs_map \<Rightarrow> subs_map" where
  "matching_entries topic m = filter (\<lambda>e. topic_matches_filter topic (fst e)) m"

text \<open>What a plan delivers, what a subscription is due, and the plan it gets when nothing holds a message back.\<close>

definition delivery :: "DeliveryPlan \<Rightarrow> string \<times> PublishPacket \<times> u64 option" where
  "delivery p = (plan_client p, plan_message p, plan_flow p)"

definition due :: "PublishPacket \<Rightarrow> Subscription \<Rightarrow> string \<times> PublishPacket \<times> u64 option" where
  "due publish s =
     (rs_client_id s, prepare_message publish s (effective_qos (pub_qos publish) (rs_qos s)), rs_flow_id s)"

definition own_message :: "string option \<Rightarrow> Subscription \<Rightarrow> bool" where
  "own_message publisher s \<longleftrightarrow> rs_no_local s \<and> publisher = Some (rs_client_id s)"

definition unhindered :: "MessageRouter \<Rightarrow> PublishPacket \<Rightarrow> string option \<Rightarrow> Subscription \<Rightarrow> DeliveryPlan option" where
  "unhindered r publish publisher s =
     (case due publish s of (c, msg, flow) \<Rightarrow>
        if own_message publisher s then None
        else if map_of (mr_clients r) c \<noteq> None then Some (Online c msg flow)
        else if pub_qos msg = QoS.AtMostOnce \<or> mr_storage r = None then None
        else Some (Behind c msg flow))"

text \<open>A plan serves a pair of share group and filter when it delivers to one of its members. A call may
  restrict the groups.\<close>

definition group_chosen :: "(string \<Rightarrow> bool) option \<Rightarrow> string \<Rightarrow> bool" where
  "group_chosen chosen grp = (case chosen of Some sel \<Rightarrow> sel grp | None \<Rightarrow> True)"

definition serves_group ::
  "sub_table \<Rightarrow> PublishPacket \<Rightarrow> (string \<Rightarrow> bool) option \<Rightarrow> string \<times> string \<Rightarrow> DeliveryPlan \<Rightarrow> bool" where
  "serves_group T publish chosen g p \<longleftrightarrow> group_chosen chosen (fst g)
     \<and> (\<exists>k \<in> selected_by T (pub_topic_name publish) (Some (fst g)).
          fst k = snd g \<and> delivery p = due publish (the (T k)))"

text \<open>A router with a plain and a shared subscription, both for connected clients.\<close>

definition ex_request :: "string \<Rightarrow> string \<Rightarrow> SubscriptionRequest" where
  "ex_request c flt = \<lparr>sr_client_id = c, sr_topic_filter = flt, sr_qos = QoS.AtLeastOnce, sr_subscription_id = None,
     sr_no_local = False, sr_retain_as_published = False, sr_retain_handling = 0,
     sr_protocol_version = ProtocolVersion.V5, sr_change_only = False, sr_flow_id = None\<rparr>"

definition subscribe_all :: "SubscriptionRequest list \<Rightarrow> MessageRouter \<Rightarrow> MessageRouter" where
  "subscribe_all requests r =
     fold (\<lambda>q r. case subscribe_as None q r of Inr (r', _) \<Rightarrow> r' | Inl _ \<Rightarrow> r) requests r"

definition requested :: "SubscriptionRequest list \<Rightarrow> sub_table \<Rightarrow> sub_table" where
  "requested requests T =
     fold (\<lambda>q T. if sr_retain_handling q > 2 then T
                else case parse_shared_subscription (sr_topic_filter q) of (flt, share) \<Rightarrow>
                  T((flt, (sr_client_id q, share, sr_flow_id q)) \<mapsto> subscription_of q share)) requests T"

definition ex_requests :: "SubscriptionRequest list" where
  "ex_requests = [ex_request ''A'' ''a/+'', ex_request ''B'' ''$share/g/a/b'']"

definition ex_router :: MessageRouter where
  "ex_router = subscribe_all ex_requests
     \<lparr>mr_exact_subscriptions = [], mr_wildcard_subscriptions = [], mr_retained_messages = [],
      mr_clients = map (\<lambda>c. (c, \<lparr>ci_generation = 1, ci_behind = False\<rparr>)) [''A'', ''B''],
      mr_storage = None, mr_share_group_counters = Map.empty, mr_change_only_states = Map.empty,
      mr_echo_suppression_key = None, mr_outbound_rates = Map.empty, mr_max_outbound_rate = 0,
      mr_max_retained_messages = 0, mr_max_retained_message_size = 0\<rparr>"

definition ex_message :: PublishPacket where
  "ex_message = PublishPacket_new ''a/b'' [1] QoS.ExactlyOnce"

subsection \<open>The subscriptions selected for a message\<close>

lemma plain_filter_matches:
  assumes "\<not> has_wildcards flt"
  shows "topic_matches_filter topic flt \<longleftrightarrow> topic = flt"
proof -
  have free: "CHR ''+'' \<notin> set flt" "CHR ''#'' \<notin> set flt"
    using assms by (simp_all add: has_wildcards_def str_contains_def)
  have loop: "topic_matches_loop ts fs \<longleftrightarrow> ts = fs" if "''+'' \<notin> set fs" "''#'' \<notin> set fs" for ts fs
    using that by (induction ts fs rule: topic_matches_loop.induct) auto
  have "''+'' \<notin> set (split_on (CHR ''/'') flt)" "''#'' \<notin> set (split_on (CHR ''/'') flt)"
    using free set_split_on [of "CHR ''+''" "CHR ''/''" flt] set_split_on [of "CHR ''#''" "CHR ''/''" flt]
    by fastforce+
  moreover have "\<not> starts_with flt ''#''" "\<not> starts_with flt ''+''" "flt \<noteq> ''#''"
    using free by (cases flt; auto simp: starts_with_1)+
  ultimately show ?thesis
    by (simp add: topic_matches_filter_def loop split_on_inject)
qed

lemma add_matching_simps:
  "fst (add_matching flt sub acc) = (case rs_share_group sub of
     Some grp \<Rightarrow> AList.update (grp, flt) (or_default (map_of (fst acc) (grp, flt)) @ [sub]) (fst acc)
   | None \<Rightarrow> fst acc)"
  "snd (add_matching flt sub acc) = snd acc @ (if rs_share_group sub = None then [sub] else [])"
  by (cases acc; simp add: add_matching_def split: option.split)+

lemma fold_add_matching:
  "snd (fold (add_matching flt) subs acc) = snd acc @ filter (\<lambda>s. rs_share_group s = None) subs"
  "or_default (map_of (fst (fold (add_matching flt) subs acc)) (grp, f)) =
     or_default (map_of (fst acc) (grp, f)) @ (if f = flt then filter (\<lambda>s. rs_share_group s = Some grp) subs else [])"
  "distinct (map fst (fst acc)) \<Longrightarrow> distinct (map fst (fst (fold (add_matching flt) subs acc)))"
proof (induction subs arbitrary: acc)
  case (Cons s subs)
  {
    case 1
    show ?case
      by (simp add: Cons.IH(1) add_matching_simps)
  next
    case 2
    show ?case
      by (simp add: Cons.IH(2) add_matching_simps alist_maps split: option.split)
        (simp add: or_default_def)
  next
    case 3
    then show ?case
      by (auto simp: add_matching_simps alist_distinct intro!: Cons.IH(3) split: option.split)
  }
qed simp_all

lemma fold_entries:
  fixes acc :: "ShareGroups \<times> Subscription list"
  defines "add \<equiv> (\<lambda>(flt, subs). fold (add_matching flt) subs)"
  shows "snd (fold add m acc) = snd acc @ map snd (filter (\<lambda>e. rs_share_group (snd e) = None) (flat m))"
    "or_default (map_of (fst (fold add m acc)) (grp, f)) = or_default (map_of (fst acc) (grp, f))
       @ map snd (filter (\<lambda>e. fst (fst e) = f \<and> rs_share_group (snd e) = Some grp) (flat m))"
    "distinct (map fst (fst acc)) \<Longrightarrow> distinct (map fst (fst (fold add m acc)))"
proof (induction m arbitrary: acc)
  case (Cons e m)
  obtain flt subs where e: "e = (flt, subs)"
    by (cases e)
  have part: "map snd (filter (\<lambda>e. P (snd e)) (map (\<lambda>s. ((flt, Subscription_identity s), s)) subs)) = filter P subs" for P
    by (induction subs) auto
  have part': "map snd (filter (\<lambda>e. fst (fst e) = f \<and> P (snd e)) (map (\<lambda>s. ((flt, Subscription_identity s), s)) subs))
      = (if f = flt then filter P subs else [])" for P
    by (induction subs) auto
  {
    case 1
    show ?case
      using Cons.IH(1) [of "add e acc"] by (simp add: add_def e fold_add_matching flat_def
          part [of "\<lambda>s. rs_share_group s = None"])
  next
    case 2
    show ?case
      using Cons.IH(2) [of "add e acc"] by (simp add: add_def e fold_add_matching flat_def
          part' [of "\<lambda>s. rs_share_group s = Some grp"])
  next
    case 3
    then show ?case
      using Cons.IH(3) [of "add e acc"] by (simp add: add_def e fold_add_matching)
  }
qed (simp_all add: flat_def)

lemma collect_entries:
  assumes "router_ok r"
  shows "collect_matching_subscriptions (mr_exact_subscriptions r) (mr_wildcard_subscriptions r) topic =
    fold (\<lambda>(flt, subs). fold (add_matching flt) subs)
      (matching_entries topic (mr_exact_subscriptions r @ mr_wildcard_subscriptions r)) ([], [])"
proof -
  let ?exact = "mr_exact_subscriptions r" and ?wild = "mr_wildcard_subscriptions r"
  let ?add = "\<lambda>(flt, subs). fold (add_matching flt) subs"
  have "topic_matches_filter topic (fst e) \<longleftrightarrow> fst e = topic" if "e \<in> set ?exact" for e
    using assms that plain_filter_matches [of "fst e"] by (auto simp: router_ok_def table_ok_def list_all_iff)
  then have "matching_entries topic ?exact = filter (\<lambda>e. fst e = topic) ?exact"
    unfolding matching_entries_def by (intro filter_cong) auto
  also have "\<dots> = (case map_of ?exact topic of None \<Rightarrow> [] | Some subs \<Rightarrow> [(topic, subs)])"
    using assms by (intro alist_filter_key) (simp add: router_ok_def table_ok_def)
  finally have exact: "fold ?add (matching_entries topic ?exact) ([], []) =
      (case map_of ?exact topic of Some subs \<Rightarrow> fold (add_matching topic) subs ([], []) | None \<Rightarrow> ([], []))"
    by (simp split: option.split)
  have "fold ?add (matching_entries topic m) acc = fold (\<lambda>(flt, subs) acc.
      if topic_matches_filter topic flt then fold (add_matching flt) subs acc else acc) m acc" for m acc
    by (induction m arbitrary: acc) (auto simp: matching_entries_def)
  then show ?thesis
    by (simp add: collect_matching_subscriptions_def exact [symmetric] matching_entries_def)
qed

lemma mset_map_snd_filter:
  assumes "distinct (map fst L)"
  shows "mset (map snd (filter Q L)) =
    image_mset (\<lambda>k. the (map_of L k)) (mset_set {k \<in> dom (map_of L). Q (k, the (map_of L k))})"
proof -
  let ?K = "map fst (filter Q L)"
  have entry: "the (map_of L (fst e)) = snd e" if "e \<in> set L" for e
    using assms that by (cases e) (simp add: map_of_is_SomeI)
  have "distinct ?K"
    using assms by (simp add: distinct_map_filter)
  moreover have "set ?K = {k \<in> dom (map_of L). Q (k, the (map_of L k))}"
    using entry by (force simp: dom_map_of_conv_image_fst)
  ultimately have "mset ?K = mset_set {k \<in> dom (map_of L). Q (k, the (map_of L k))}"
    using mset_set_set by metis
  moreover have "map snd (filter Q L) = map (\<lambda>k. the (map_of L k)) ?K"
    using entry by simp
  ultimately show ?thesis
    by (metis mset_map)
qed

lemma flat_held:
  assumes "router_ok r"
  defines "m \<equiv> mr_exact_subscriptions r @ mr_wildcard_subscriptions r"
  shows "map_of (flat m) = held r" "distinct (map fst (flat m))"
proof -
  have ok: "table_ok (Not \<circ> has_wildcards) (mr_exact_subscriptions r)" "table_ok has_wildcards (mr_wildcard_subscriptions r)"
    using assms by (simp_all add: router_ok_def)
  then have both: "table_ok (\<lambda>_. True) m"
    by (fastforce simp: table_ok_def m_def list_all_iff)
  then show "distinct (map fst (flat m))"
    by (rule distinct_flat)
  have "lookup m k = held r k" for k
    using table_ok_entry(1) [OF ok(1), of "fst k"] table_ok_entry(1) [OF ok(2), of "fst k"]
    by (cases "map_of (mr_exact_subscriptions r) (fst k)"; cases "map_of (mr_wildcard_subscriptions r) (fst k)")
      (auto simp: lookup_def held_def table_of_def m_def map_add_def)
  then show "map_of (flat m) = held r"
    using both map_of_flat [of m] by (auto simp: table_ok_def)
qed

lemma flat_matching: "flat (matching_entries topic m) = filter (\<lambda>e. topic_matches_filter topic (fst (fst e))) (flat m)"
proof -
  have "filter (\<lambda>e. topic_matches_filter topic (fst (fst e))) (map (\<lambda>s. ((flt, Subscription_identity s), s)) subs) =
      (if topic_matches_filter topic flt then map (\<lambda>s. ((flt, Subscription_identity s), s)) subs else [])" for flt subs
    by (induction subs) auto
  then show ?thesis
    by (induction m) (auto simp: flat_def matching_entries_def)
qed

lemma collect_selected:
  assumes "router_ok r"
    and "collect_matching_subscriptions (mr_exact_subscriptions r) (mr_wildcard_subscriptions r) topic = (groups, regular)"
  shows "mset regular = image_mset (the \<circ> held r) (mset_set (selected_by (held r) topic None))"
    "mset (or_default (map_of groups (grp, flt))) =
       image_mset (the \<circ> held r) (mset_set {k \<in> selected_by (held r) topic (Some grp). fst k = flt})"
    "distinct (map fst groups)" "finite (dom (held r))"
proof -
  let ?m = "mr_exact_subscriptions r @ mr_wildcard_subscriptions r"
  let ?select = "\<lambda>Q. filter (\<lambda>e. topic_matches_filter topic (fst (fst e)) \<and> Q e) (flat ?m)"
  note held = flat_held [OF assms(1)]
  note sel = mset_map_snd_filter [OF held(2), unfolded held(1)]
  note pair = collect_entries [OF assms(1), of topic, unfolded assms(2), symmetric]
  have "regular = map snd (?select (\<lambda>e. rs_share_group (snd e) = None))"
    using fold_entries(1) [of "matching_entries topic ?m" "([], [])"] pair by (simp add: flat_matching conj_commute)
  then have "mset regular = mset (map snd (?select (\<lambda>e. rs_share_group (snd e) = None)))"
    by simp
  also have "\<dots> = image_mset (the \<circ> held r) (mset_set (selected_by (held r) topic None))"
    unfolding sel by (simp add: selected_by_def comp_def)
  finally show "mset regular = image_mset (the \<circ> held r) (mset_set (selected_by (held r) topic None))" .
  have "or_default (map_of groups (grp, flt)) =
      map snd (?select (\<lambda>e. fst (fst e) = flt \<and> rs_share_group (snd e) = Some grp))"
    using fold_entries(2) [of "matching_entries topic ?m" "([], [])" grp flt] pair
    by (simp add: flat_matching or_default_def conj_ac)
  then have "mset (or_default (map_of groups (grp, flt))) =
      mset (map snd (?select (\<lambda>e. fst (fst e) = flt \<and> rs_share_group (snd e) = Some grp)))"
    by simp
  also have "\<dots> = image_mset (the \<circ> held r) (mset_set {k \<in> selected_by (held r) topic (Some grp). fst k = flt})"
    unfolding sel by (simp add: selected_by_def comp_def conj_ac)
  finally show "mset (or_default (map_of groups (grp, flt))) = \<dots>" .
  show "distinct (map fst groups)"
    using fold_entries(3) [of "([], [])" "matching_entries topic ?m"] pair by simp
  show "finite (dom (held r))"
    using finite_dom_map_of [of "flat ?m"] held(1) by simp
qed

subsection \<open>Plans\<close>

lemma effective_qos_min: "QoS_to_u8 (effective_qos a b) = min (QoS_to_u8 a) (QoS_to_u8 b)"
  by (cases a; cases b; simp add: min_def word_le_nat_alt)

lemma plan_queued_due:
  assumes "plan_queued s publish (effective_qos (pub_qos publish) (rs_qos s)) r = Some p"
  shows "delivery p = due publish s"
  using assms by (auto simp: plan_queued_def delivery_def due_def split: if_splits)

lemma plan_delivery_due:
  assumes "fst (plan_delivery h now publish publisher s r) = Some p"
  shows "delivery p = due publish s" "\<not> own_message publisher s"
proof -
  obtain ok r' where rate: "check_outbound_rate now (rs_client_id s) r = (ok, r')"
    by (cases "check_outbound_rate now (rs_client_id s) r")
  show "\<not> own_message publisher s"
    using assms by (auto simp: plan_delivery_def own_message_def)
  have "plan_queued s publish (effective_qos (pub_qos publish) (rs_qos s)) r' = Some p
      \<or> p = Online (rs_client_id s) (prepare_message publish s (effective_qos (pub_qos publish) (rs_qos s))) (rs_flow_id s)"
    using assms by (simp add: plan_delivery_def rate Let_def del: not_None_eq split: if_splits)
  then show "delivery p = due publish s"
    using plan_queued_due by (auto simp: delivery_def due_def)
qed

lemma plan_delivery_unhindered:
  assumes "mr_max_outbound_rate r = 0" "mr_echo_suppression_key r = None" "\<not> rs_change_only s"
  shows "plan_delivery h now publish publisher s r = (unhindered r publish publisher s, r)"
  using assms
  by (simp add: plan_delivery_def unhindered_def own_message_def check_outbound_rate_def plan_queued_def due_def
      prepare_message_def Let_def del: not_None_eq)

lemma unhindered_cong: "same_routes r r' \<Longrightarrow> unhindered r' = unhindered r"
  by (intro ext) (simp add: unhindered_def same_routes_def case_prod_unfold)

lemma unhindered_due:
  assumes "unhindered r publish publisher s = Some p"
  shows "delivery p = due publish s"
  using assms by (auto simp: unhindered_def delivery_def due_def split: if_splits)

lemma choose_member_in:
  assumes "online \<noteq> []" "start < length online"
  shows "choose_member r start online \<in> set online"
proof -
  have "set (map (\<lambda>offset. online ! ((start + offset) mod length online)) [0..<length online]) \<subseteq> set online"
    using assms by (auto intro!: nth_mem mod_less_divisor)
  then show ?thesis
    using assms unfolding choose_member_def by (auto simp: find_Some_iff split: option.split)
qed

lemma plan_share_group_due:
  assumes "fst (plan_share_group h now publish publisher (key, subs) r) = Some p"
  shows "\<exists>s \<in> set subs. delivery p = due publish s"
proof (cases "filter (\<lambda>s. map_of (mr_clients r) (rs_client_id s) \<noteq> None) subs = []")
  case True
  then show ?thesis
    using assms plan_queued_due
    by (cases subs) (auto simp: plan_share_group_def Let_def simp del: not_None_eq)
next
  case False
  let ?online = "filter (\<lambda>s. map_of (mr_clients r) (rs_client_id s) \<noteq> None) subs"
  obtain c where c: "mr_share_group_counters r key = Some c"
    using assms False by (auto simp: plan_share_group_def Let_def simp del: not_None_eq split: option.splits)
  let ?s = "choose_member r (unat c mod length ?online) ?online"
  have "?s \<in> set subs"
    using choose_member_in [of ?online "unat c mod length ?online" r] False by auto
  moreover have "delivery p = due publish ?s"
    using assms False c plan_delivery_due(1)
    by (auto simp: plan_share_group_def Let_def simp del: not_None_eq)
  ultimately show ?thesis
    by blast
qed

lemma plan_all_subseq:
  assumes "\<And>x r p. x \<in> set xs \<Longrightarrow> fst (plan x r) = Some p \<Longrightarrow> P x p"
  shows "\<exists>ys. subseq ys xs \<and> list_all2 P ys (fst (plan_all plan xs r))"
  using assms
proof (induction xs arbitrary: r)
  case (Cons x xs)
  obtain p r1 where p: "plan x r = (p, r1)"
    by (cases "plan x r")
  obtain ys where ys: "subseq ys xs" "list_all2 P ys (fst (plan_all plan xs r1))"
    using Cons by (meson list.set_intros(2))
  show ?case
  proof (cases p)
    case None
    then show ?thesis
      using p ys by (auto simp: case_prod_unfold intro!: exI [of _ ys] list_emb_Cons)
  next
    case (Some q)
    then have "P x q"
      using Cons.prems [of x r q] p by simp
    with Some p ys show ?thesis
      by (auto simp: case_prod_unfold intro!: exI [of _ "x # ys"])
  qed
qed simp

lemma plan_all_exact:
  assumes "Q r" "\<And>x r. x \<in> set xs \<Longrightarrow> Q r \<Longrightarrow> fst (plan x r) = f x \<and> Q (snd (plan x r))"
  shows "fst (plan_all plan xs r) = List.map_filter f xs"
  using assms
proof (induction xs arbitrary: r)
  case (Cons x xs)
  then have "fst (plan x r) = f x" "Q (snd (plan x r))"
    by simp_all
  moreover from this Cons have "fst (plan_all plan xs (snd (plan x r))) = List.map_filter f xs"
    by simp
  ultimately show ?case
    by (simp add: case_prod_unfold List.map_filter_simps split: option.split)
qed (simp add: List.map_filter_simps)

lemma plan_all_member:
  assumes "x \<in> set xs" "Q r" "\<And>x r. Q r \<Longrightarrow> Q (snd (plan x r))"
    and "\<And>r. Q r \<Longrightarrow> \<exists>p. fst (plan x r) = Some p \<and> P p"
  shows "\<exists>p \<in> set (fst (plan_all plan xs r)). P p"
  using assms(1,2)
proof (induction xs arbitrary: r)
  case (Cons y xs)
  show ?case
  proof (cases "x = y")
    case True
    then show ?thesis
      using assms(4) [OF Cons.prems(2)] by (auto simp: case_prod_unfold)
  next
    case False
    then obtain p where "p \<in> set (fst (plan_all plan xs (snd (plan y r))))" "P p"
      using Cons.IH [of "snd (plan y r)"] Cons.prems assms(3) by auto
    then show ?thesis
      by (auto simp: case_prod_unfold)
  qed
qed simp

lemma subseq_mset: "subseq xs ys \<Longrightarrow> mset xs \<subseteq># mset ys"
  by (induction rule: list_emb.induct) (auto intro: subset_mset.order_trans)

lemma mset_map_filter:
  "mset (List.map_filter f xs) = image_mset (the \<circ> f) {#x \<in># mset xs. f x \<noteq> None#}"
  by (induction xs) (auto simp: List.map_filter_simps split: option.split)

lemma serves_counters:
  assumes "serves r T" "T (flt, i) = Some s" "rs_share_group s = Some grp"
  shows "mr_share_group_counters r (grp, flt) \<noteq> None"
  using assms
proof (induction arbitrary: flt i s grp rule: serves.induct)
  case (subscribed r T generation request r' outcome f share T')
  have grow: "mr_share_group_counters r k \<noteq> None \<Longrightarrow> mr_share_group_counters r' k \<noteq> None" for k
    using subscribed.hyps(2,3)
    by (auto simp: subscribe_as_def Let_def with_table_def split: if_splits option.splits prod.splits)
  have fresh: "mr_share_group_counters r' (grp, f) \<noteq> None" if "share = Some grp" "outcome \<noteq> Subscribed.Fenced"
    using subscribed.hyps(2,3) that
    by (auto simp: subscribe_as_def Let_def with_table_def split: if_splits option.splits prod.splits)
  show ?case
  proof (cases "T (flt, i) = Some s")
    case True
    then show ?thesis
      using subscribed grow by blast
  next
    case False
    then have "flt = f" "s = subscription_of request share" "outcome \<noteq> Subscribed.Fenced"
      using subscribed.prems(1) subscribed.hyps(4) by (auto split: if_splits)
    then show ?thesis
      using fresh subscribed.prems(2) by (simp add: subscription_of_def)
  qed
next
  case (unsubscribed r T generation client_id topic_filter flow_id r' outcome f share T')
  then have "T (flt, i) = Some s"
    by (auto split: if_splits)
  then have "mr_share_group_counters r (grp, flt) \<noteq> None"
    using unsubscribed by blast
  moreover have "mr_share_group_counters r' = mr_share_group_counters r"
    using unsubscribed.hyps(2,3)
    by (auto simp: unsubscribe_as_def Let_def with_table_def split: if_splits option.splits)
  ultimately show ?case
    by simp
next
  case (flow_closed r T generation client_id flow_id r' removed T')
  then have "T (flt, i) = Some s"
    by (auto simp: keep_only_def split: if_splits option.splits)
  then have "mr_share_group_counters r (grp, flt) \<noteq> None"
    using flow_closed by blast
  moreover have "mr_share_group_counters r' = mr_share_group_counters r"
    using flow_closed.hyps(2) by (auto simp: unsubscribe_by_flow_def Let_def split: if_splits)
  ultimately show ?case
    by simp
next
  case (unregistered r T client_id)
  then have "T (flt, i) = Some s"
    by (auto simp: keep_only_def split: if_splits option.splits)
  then show ?case
    using unregistered
    by (simp add: unregister_client_def remove_client_subscriptions_def disconnect_client_def)
next
  case (disconnected r T client_id)
  then show ?case
    by (simp add: disconnect_client_def)
next
  case (routed r T compute_hash now publish publisher limits selected plans r')
  from routed.hyps(2) have "same_routes r r'"
    by (rule route_message_split [OF refl refl refl])
  moreover have "(grp, flt) \<in> dom (mr_share_group_counters r)"
    using routed by blast
  ultimately show ?case
    by (auto simp: same_routes_def)
qed simp_all

lemma regular_plans:
  assumes "fst (plan_all (plan_delivery h now publish publisher) subs r) = plans"
  shows "image_mset delivery (mset plans) \<subseteq># image_mset (due publish) {#s \<in># mset subs. \<not> own_message publisher s#}"
proof -
  let ?P = "\<lambda>s p. delivery p = due publish s \<and> \<not> own_message publisher s"
  obtain ys where ys: "subseq ys subs" "list_all2 ?P ys plans"
    using plan_all_subseq [of subs "plan_delivery h now publish publisher" ?P r] plan_delivery_due assms by blast
  have "map delivery plans = map (due publish) ys"
    using ys(2) by (induction rule: list_all2_induct) auto
  then have "image_mset delivery (mset plans) = image_mset (due publish) (mset ys)"
    by (metis mset_map)
  moreover have "mset ys = filter_mset (\<lambda>s. \<not> own_message publisher s) (mset ys)"
    using ys(2) by (induction rule: list_all2_induct) auto
  then have "mset ys \<subseteq># {#s \<in># mset subs. \<not> own_message publisher s#}"
    using multiset_filter_mono [OF subseq_mset [OF ys(1)]] by metis
  ultimately show ?thesis
    by (simp add: image_mset_subseteq_mono)
qed

lemma group_members:
  assumes "router_ok r" "((grp, flt), subs) \<in> set groups"
    and "collect_matching_subscriptions (mr_exact_subscriptions r) (mr_wildcard_subscriptions r) topic = (groups, regular)"
  shows "set subs = (the \<circ> held r) ` {k \<in> selected_by (held r) topic (Some grp). fst k = flt}"
proof -
  note sel = collect_selected [OF assms(1,3)]
  have "or_default (map_of groups (grp, flt)) = subs"
    using assms(2) sel(3) by (simp add: or_default_def map_of_is_SomeI)
  then have "set_mset (mset subs) =
      set_mset (image_mset (the \<circ> held r) (mset_set {k \<in> selected_by (held r) topic (Some grp). fst k = flt}))"
    using sel(2) [of grp flt] by simp
  moreover have "finite {k \<in> selected_by (held r) topic (Some grp). fst k = flt}"
    using sel(4) by (rule rev_finite_subset) (auto simp: selected_by_def)
  ultimately show ?thesis
    by simp
qed

lemma group_exists:
  assumes "router_ok r" "k \<in> selected_by (held r) topic (Some grp)"
    and "collect_matching_subscriptions (mr_exact_subscriptions r) (mr_wildcard_subscriptions r) topic = (groups, regular)"
  obtains subs where "((grp, fst k), subs) \<in> set groups" "the (held r k) \<in> set subs"
proof -
  note sel = collect_selected [OF assms(1,3)]
  have "finite {k' \<in> selected_by (held r) topic (Some grp). fst k' = fst k}"
    using sel(4) by (rule rev_finite_subset) (auto simp: selected_by_def)
  then have "the (held r k) \<in># mset (or_default (map_of groups (grp, fst k)))"
    unfolding sel(2) using assms(2) by auto
  then obtain subs where "map_of groups (grp, fst k) = Some subs" "the (held r k) \<in> set subs"
    by (cases "map_of groups (grp, fst k)") (auto simp: or_default_def)
  then show thesis
    using that map_of_SomeD by fast
qed

lemma shared_plans:
  assumes "fst (plan_all (plan_share_group h now publish publisher) groups r) = plans" "distinct (map fst groups)"
  shows "\<exists>gs. distinct gs \<and> list_all2 (\<lambda>g p. \<exists>subs. (g, subs) \<in> set groups \<and> (\<exists>s \<in> set subs. delivery p = due publish s)) gs plans"
proof -
  let ?P = "\<lambda>e p. e \<in> set groups \<and> (\<exists>s \<in> set (snd e). delivery p = due publish s)"
  have "?P e p" if "e \<in> set groups" "fst (plan_share_group h now publish publisher e r) = Some p" for e p r
    using that plan_share_group_due [of h now publish publisher "fst e" "snd e" r p] by simp
  then obtain es where es: "subseq es groups" "list_all2 ?P es plans"
    using plan_all_subseq [of groups "plan_share_group h now publish publisher" ?P r] assms(1) by blast
  have "distinct (map fst es)"
    using subseq_map [OF es(1), of fst] assms(2) by (metis subseq_conv_nths distinct_nthsI)
  moreover have "list_all2 (\<lambda>g p. \<exists>subs. (g, subs) \<in> set groups \<and> (\<exists>s \<in> set subs. delivery p = due publish s))
      (map fst es) plans"
    unfolding list_all2_map1
  proof (rule list_all2_mono [OF es(2)])
    fix e p
    assume "?P e p"
    then show "\<exists>subs. (fst e, subs) \<in> set groups \<and> (\<exists>s \<in> set subs. delivery p = due publish s)"
      by (intro exI [of _ "snd e"]) simp
  qed
  ultimately show ?thesis
    by blast
qed

text \<open>
  The group keeps its turn order: with every member able to take messages, the next receiver is
  the counter's.
\<close>

lemma plan_share_group_online:
  assumes clear: "mr_max_outbound_rate r = 0" "mr_echo_suppression_key r = None"
    and members: "\<And>s. s \<in> set subs \<Longrightarrow> \<not> rs_change_only s \<and> \<not> own_message publisher s"
    and counter: "mr_share_group_counters r key = Some c"
    and online: "online = filter (\<lambda>s. map_of (mr_clients r) (rs_client_id s) \<noteq> None) subs" "online \<noteq> []"
  defines "s \<equiv> choose_member r (unat c mod length online) online"
  shows "plan_share_group h now publish publisher (key, subs) r =
      (unhindered r publish publisher s, r\<lparr>mr_share_group_counters := (mr_share_group_counters r)(key \<mapsto> c + 1)\<rparr>)"
    "s \<in> set online" "unhindered r publish publisher s =
       Some (Online (rs_client_id s) (fst (snd (due publish s))) (rs_flow_id s))"
proof -
  let ?r = "r\<lparr>mr_share_group_counters := (mr_share_group_counters r)(key \<mapsto> c + 1)\<rparr>"
  show in_online: "s \<in> set online"
    unfolding s_def using online(2) by (intro choose_member_in) simp_all
  then have s: "\<not> rs_change_only s" "\<not> own_message publisher s" "map_of (mr_clients r) (rs_client_id s) \<noteq> None"
    using members online(1) by auto
  have "plan_delivery h now publish publisher s ?r = (unhindered ?r publish publisher s, ?r)"
    using clear s by (intro plan_delivery_unhindered) simp_all
  moreover have "unhindered ?r publish publisher s = unhindered r publish publisher s"
    by (simp add: unhindered_def case_prod_unfold)
  ultimately show "plan_share_group h now publish publisher (key, subs) r = (unhindered r publish publisher s, ?r)"
    using online counter by (simp add: plan_share_group_def Let_def s_def del: not_None_eq)
  show "unhindered r publish publisher s =
      Some (Online (rs_client_id s) (fst (snd (due publish s))) (rs_flow_id s))"
    using s by (simp add: unhindered_def due_def)
qed

subsection \<open>Routing a message\<close>

lemma route_plans:
  assumes "serves r T" "route_message_internal h now publish publisher limits chosen r = (plans, r')"
  obtains groups subs kept r1 r2 where
    "router_ok r" "held r = T"
    "collect_matching_subscriptions (mr_exact_subscriptions r) (mr_wildcard_subscriptions r) (pub_topic_name publish) = (groups, subs)"
    "set kept = {e \<in> set groups. group_chosen chosen (fst (fst e))}" "distinct (map fst kept)"
    "same_routes r r1" "same_routes r r2"
    "plans = fst (plan_all (plan_share_group h now publish publisher) kept r1)
       @ fst (plan_all (plan_delivery h now publish publisher) subs r2)"
proof -
  have ok: "router_ok r" "held r = T"
    using serves_held [OF assms(1)] by simp_all
  obtain groups subs where collect: "collect_matching_subscriptions (mr_exact_subscriptions r)
      (mr_wildcard_subscriptions r) (pub_topic_name publish) = (groups, subs)"
    by (cases "collect_matching_subscriptions (mr_exact_subscriptions r) (mr_wildcard_subscriptions r) (pub_topic_name publish)")
  define kept where "kept = (case chosen of Some sel \<Rightarrow> filter (\<lambda>((grp, _), _). sel grp) groups | None \<Rightarrow> groups)"
  have kept: "set kept = {e \<in> set groups. group_chosen chosen (fst (fst e))}" "distinct (map fst kept)"
    using collect_selected(3) [OF ok(1) collect]
    by (auto simp: kept_def group_chosen_def distinct_map_filter split: option.split)
  have kept': "kept = (case chosen of Some sel \<Rightarrow> filter (\<lambda>((grp, _), _). sel grp) (fst (groups, subs))
      | None \<Rightarrow> fst (groups, subs))"
    by (simp add: kept_def split: option.split)
  show thesis
  proof (rule route_message_split [OF refl collect [symmetric] kept' assms(2)])
    fix shared r2 regular
    let ?r1 = "if pub_retain publish then handle_retain_storage now publish limits r else r"
    assume "plan_all (plan_share_group h now publish publisher) kept ?r1 = (shared, r2)"
      "plan_all (plan_delivery h now publish publisher) (snd (groups, subs)) r2 = (regular, r')"
      "plans = shared @ regular" "same_routes r ?r1" "same_routes r r2"
    then show thesis
      by (intro that [OF ok collect kept, of ?r1 r2]) simp_all
  qed
qed

lemma group_gets_plan:
  assumes "serves r T" "same_routes r r1"
    and collect: "collect_matching_subscriptions (mr_exact_subscriptions r) (mr_wildcard_subscriptions r)
      (pub_topic_name publish) = (groups, subs)" "((grp, flt), ss) \<in> set groups"
    and "group_chosen chosen grp"
    and clear: "mr_max_outbound_rate r = 0" "mr_echo_suppression_key r = None"
    and steady: "\<And>k s. T k = Some s \<Longrightarrow> \<not> rs_change_only s"
    and foreign: "\<And>k. k \<in> selected_by T (pub_topic_name publish) (Some grp) \<Longrightarrow> fst k = flt
      \<Longrightarrow> \<not> own_message publisher (the (T k))"
    and connected: "s \<in> set ss" "map_of (mr_clients r) (rs_client_id s) \<noteq> None"
  shows "\<exists>p. fst (plan_share_group h now publish publisher ((grp, flt), ss) r1) = Some p
    \<and> serves_group T publish chosen (grp, flt) p \<and> map_of (mr_clients r) (plan_client p) \<noteq> None \<and> is_Online p"
proof -
  have ok: "router_ok r" "held r = T"
    using serves_held [OF assms(1)] by simp_all
  have members: "set ss = (the \<circ> T) ` {k \<in> selected_by T (pub_topic_name publish) (Some grp). fst k = flt}"
    using group_members [OF ok(1) collect(2,1)] ok(2) by simp
  have fine: "\<not> rs_change_only x \<and> \<not> own_message publisher x" if "x \<in> set ss" for x
    using that foreign steady unfolding members by (fastforce simp: selected_by_def)
  from connected(1) obtain k where k: "T k = Some s" "rs_share_group s = Some grp" "fst k = flt"
    unfolding members by (auto simp: selected_by_def)
  then have "mr_share_group_counters r (grp, flt) \<noteq> None"
    using serves_counters [OF assms(1), of flt "snd k" s grp] by auto
  then obtain c where counter: "mr_share_group_counters r1 (grp, flt) = Some c"
    using assms(2) by (auto simp: same_routes_def dom_def)
  define online where "online = filter (\<lambda>s. map_of (mr_clients r1) (rs_client_id s) \<noteq> None) ss"
  have "online \<noteq> []"
    using connected assms(2) by (auto simp: online_def same_routes_def filter_empty_conv)
  moreover have "mr_max_outbound_rate r1 = 0" "mr_echo_suppression_key r1 = None" "mr_clients r1 = mr_clients r"
    using clear assms(2) by (simp_all add: same_routes_def)
  moreover define x where "x = choose_member r1 (unat c mod length online) online"
  ultimately have plan: "fst (plan_share_group h now publish publisher ((grp, flt), ss) r1) =
        Some (Online (rs_client_id x) (fst (snd (due publish x))) (rs_flow_id x))"
      "x \<in> set ss" "map_of (mr_clients r) (rs_client_id x) \<noteq> None"
    using plan_share_group_online [OF _ _ fine counter online_def] online_def by auto
  have "serves_group T publish chosen (grp, flt) (Online (rs_client_id x) (fst (snd (due publish x))) (rs_flow_id x))"
    using plan(2) assms(5) unfolding members serves_group_def
    by (auto simp: delivery_def due_def)
  with plan show ?thesis
    by simp
qed

lemma choose_member_start:
  assumes "start < length online" "map_of (mr_clients r) (rs_client_id (online ! start)) = Some info" "\<not> ci_behind info"
  shows "choose_member r start online = online ! start"
proof -
  have "0 < length online"
    using assms(1) by linarith
  then have "[0..<length online] = 0 # [1..<length online]"
    using upt_conv_Cons [of 0 "length online"] by (simp only: One_nat_def)
  then show ?thesis
    using assms by (simp add: choose_member_def)
qed

definition keeps_up :: "MessageRouter \<Rightarrow> string option \<Rightarrow> Subscription \<Rightarrow> bool" where
  "keeps_up r publisher s \<longleftrightarrow> \<not> rs_change_only s \<and> \<not> own_message publisher s
     \<and> (case map_of (mr_clients r) (rs_client_id s) of Some info \<Rightarrow> \<not> ci_behind info | None \<Rightarrow> False)"

lemma share_group_receivers:
  assumes "mr_max_outbound_rate r = 0" "mr_echo_suppression_key r = None" "subs \<noteq> []"
    and "\<forall>s \<in> set subs. keeps_up r publisher s"
    and "mr_share_group_counters r key = Some c" "unat c + length msgs < 2 ^ 64"
    and "res = plan_all (\<lambda>publish. plan_share_group h now publish publisher (key, subs)) msgs r"
  shows "map plan_client (fst res) = map (\<lambda>i. rs_client_id (subs ! ((unat c + i) mod length subs))) [0..<length msgs]
    \<and> list_all is_Online (fst res) \<and> mr_share_group_counters (snd res) key = Some (c + word_of_nat (length msgs))"
  using assms(1,2,4-6) unfolding assms(7)
proof (induction msgs arbitrary: r c)
  case (Cons publish msgs)
  let ?r = "r\<lparr>mr_share_group_counters := (mr_share_group_counters r)(key \<mapsto> c + 1)\<rparr>"
  let ?plan = "\<lambda>publish. plan_share_group h now publish publisher (key, subs)"
  let ?s = "subs ! (unat c mod length subs)"
  have online: "filter (\<lambda>s. map_of (mr_clients r) (rs_client_id s) \<noteq> None) subs = subs"
    using Cons.prems(3) by (auto simp: keeps_up_def filter_id_conv split: option.splits)
  have "?s \<in> set subs"
    using assms(3) by simp
  with Cons.prems(3) obtain info where "map_of (mr_clients r) (rs_client_id ?s) = Some info" "\<not> ci_behind info"
    by (fastforce simp: keeps_up_def split: option.splits)
  then have chosen: "choose_member r (unat c mod length subs) subs = ?s"
    using assms(3) by (intro choose_member_start) simp_all
  have "?plan publish r = (Some (Online (rs_client_id ?s) (fst (snd (due publish ?s))) (rs_flow_id ?s)), ?r)"
    using plan_share_group_online [OF Cons.prems(1,2) _ Cons.prems(4) online [symmetric] assms(3), where publisher = publisher]
      Cons.prems(3) chosen by (simp add: keeps_up_def)
  moreover have next_c: "unat (c + 1) = unat c + 1"
    using Cons.prems(5) by (simp add: unat_word_ariths)
  have "map plan_client (fst (plan_all ?plan msgs ?r)) =
        map (\<lambda>i. rs_client_id (subs ! ((unat (c + 1) + i) mod length subs))) [0..<length msgs]
      \<and> list_all is_Online (fst (plan_all ?plan msgs ?r))
      \<and> mr_share_group_counters (snd (plan_all ?plan msgs ?r)) key = Some (c + 1 + word_of_nat (length msgs))"
    using Cons.prems next_c by (intro Cons.IH) (simp_all add: keeps_up_def)
  moreover have "[0..<length (publish # msgs)] = 0 # map Suc [0..<length msgs]"
    by (simp add: upt_conv_Cons map_Suc_upt del: upt_Suc)
  ultimately show ?case
    by (simp add: case_prod_unfold next_c comp_def add.assoc del: upt_Suc)
qed simp

subsection \<open>The guarantees\<close>

lemma serves_requested: "serves r T \<Longrightarrow> serves (subscribe_all requests r) (requested requests T)"
proof (induction requests arbitrary: r T)
  case (Cons q requests)
  obtain flt share where parse: "parse_shared_subscription (sr_topic_filter q) = (flt, share)"
    by (cases "parse_shared_subscription (sr_topic_filter q)")
  have "serves (subscribe_all [q] r) (requested [q] T)"
  proof (cases "subscribe_as None q r")
    case (Inl e)
    then have "sr_retain_handling q > 2"
      by (auto simp: subscribe_as_def Let_def split: if_splits prod.splits)
    with Inl Cons.prems show ?thesis
      by (simp add: subscribe_all_def requested_def)
  next
    case (Inr res)
    obtain r' outcome where res: "res = (r', outcome)"
      by (cases res)
    have "outcome \<noteq> Subscribed.Fenced" "\<not> sr_retain_handling q > 2"
      using Inr unfolding res
      by (auto simp: subscribe_as_def Let_def generation_is_current_def put_subscription_def
          split: if_splits prod.splits option.splits)
    then show ?thesis
      using serves.subscribed [OF Cons.prems Inr [unfolded res] parse refl]
      by (simp add: subscribe_all_def requested_def Inr res parse)
  qed
  from Cons.IH [OF this] show ?case
    by (simp add: subscribe_all_def requested_def)
qed (simp add: subscribe_all_def requested_def)

lemma ex_serves: "serves ex_router (requested ex_requests Map.empty)"
  unfolding ex_router_def by (intro serves_requested serves.start) simp_all

lemma ex_router_settings:
  "mr_max_outbound_rate ex_router = 0" "mr_echo_suppression_key ex_router = None"
  "mr_share_group_counters ex_router (''g'', ''a/b'') = Some 0"
  by code_simp+

lemma ex_collect:
  "collect_matching_subscriptions (mr_exact_subscriptions ex_router) (mr_wildcard_subscriptions ex_router) ''a/b'' =
     ([((''g'', ''a/b''), [subscription_of (ex_request ''B'' ''$share/g/a/b'') (Some ''g'')])],
      [subscription_of (ex_request ''A'' ''a/+'') None])"
  by code_simp

text \<open>
  C4: the subscriptions selected for a topic are exactly those of the map the calls amount to whose
  filter matches, each once: the plain ones in one list, the shared ones in one list for every pair of
  group and filter. Splitting the tables into exact and wildcard filters, the identity test of
  \<open>subscribe_as\<close>, the fences and the removal of emptied entries lose and add nothing.
\<close>

theorem routing_exact:
  assumes "serves r T"
    and "collect_matching_subscriptions (mr_exact_subscriptions r) (mr_wildcard_subscriptions r) topic = (groups, regular)"
  shows "mset regular = image_mset (the \<circ> T) (mset_set (selected_by T topic None))
    \<and> distinct (map fst groups)
    \<and> (\<forall>grp flt. mset (or_default (map_of groups (grp, flt))) =
          image_mset (the \<circ> T) (mset_set {k \<in> selected_by T topic (Some grp). fst k = flt}))
    \<and> finite (dom T)"
  using serves_held [OF assms(1)] collect_selected [OF _ assms(2)] by blast

text \<open>Witness: topic \<open>a/b\<close> selects the plain subscription to \<open>a/+\<close> and the shared one to \<open>a/b\<close>.\<close>

theorem routing_exact_witness:
  "mset [subscription_of (ex_request ''A'' ''a/+'') None] =
     image_mset (the \<circ> requested ex_requests Map.empty)
       (mset_set (selected_by (requested ex_requests Map.empty) ''a/b'' None))
   \<and> mset [subscription_of (ex_request ''B'' ''$share/g/a/b'') (Some ''g'')] =
     image_mset (the \<circ> requested ex_requests Map.empty)
       (mset_set {k \<in> selected_by (requested ex_requests Map.empty) ''a/b'' (Some ''g''). fst k = ''a/b''})"
proof -
  note at = routing_exact [OF ex_serves ex_collect]
  from at have "mset (or_default (map_of [((''g'', ''a/b''), [subscription_of (ex_request ''B'' ''$share/g/a/b'') (Some ''g'')])]
        (''g'', ''a/b''))) = image_mset (the \<circ> requested ex_requests Map.empty)
       (mset_set {k \<in> selected_by (requested ex_requests Map.empty) ''a/b'' (Some ''g''). fst k = ''a/b''})"
    by blast
  with at show ?thesis
    by (simp add: or_default_def)
qed



text \<open>
  C6: nothing due is lost. With no rate limit, no echo suppression and no change-only subscription,
  every matching plain subscription gets its plan: none under No Local for its own client's messages,
  delivery when its client is connected, the queue when it is away and the quality of service and the
  storage allow it. Every selected share group with a connected member and no No Local member gets a
  plan for a connected member.
\<close>

theorem fan_out_complete:
  assumes "serves r T"
    and route: "route_message_internal h now publish publisher limits chosen r = (plans, r')"
    and clear: "mr_max_outbound_rate r = 0" "mr_echo_suppression_key r = None"
    and "\<forall>s \<in> ran T. \<not> rs_change_only s"
  shows "\<exists>shared regular. plans = shared @ regular
    \<and> mset regular = image_mset (the \<circ> unhindered r publish publisher)
        {#s \<in># image_mset (the \<circ> T) (mset_set (selected_by T (pub_topic_name publish) None)).
          unhindered r publish publisher s \<noteq> None#}
    \<and> (\<forall>grp flt. group_chosen chosen grp
        \<longrightarrow> (\<exists>k \<in> selected_by T (pub_topic_name publish) (Some grp). fst k = flt
              \<and> map_of (mr_clients r) (rs_client_id (the (T k))) \<noteq> None)
        \<longrightarrow> (\<forall>k \<in> selected_by T (pub_topic_name publish) (Some grp). fst k = flt
              \<longrightarrow> \<not> own_message publisher (the (T k)))
        \<longrightarrow> (\<exists>p \<in> set shared. serves_group T publish chosen (grp, flt) p
              \<and> map_of (mr_clients r) (plan_client p) \<noteq> None \<and> is_Online p))"
proof -
  have steady: "\<not> rs_change_only s" if "T k = Some s" for k s
    using that assms(5) by (auto intro: ranI)
  from assms(1,2) obtain groups subs kept r1 r2 where
    ok: "router_ok r" "held r = T"
    and collect: "collect_matching_subscriptions (mr_exact_subscriptions r) (mr_wildcard_subscriptions r)
      (pub_topic_name publish) = (groups, subs)"
    and kept: "set kept = {e \<in> set groups. group_chosen chosen (fst (fst e))}"
    and routes: "same_routes r r1" "same_routes r r2"
    and plans: "plans = fst (plan_all (plan_share_group h now publish publisher) kept r1)
       @ fst (plan_all (plan_delivery h now publish publisher) subs r2)"
    by (rule route_plans)
  let ?shared = "fst (plan_all (plan_share_group h now publish publisher) kept r1)"
  let ?due = "selected_by T (pub_topic_name publish)"
  note regular = collect_selected(1) [OF ok(1) collect, unfolded ok(2)]
  have "\<not> rs_change_only s" if "s \<in> set subs" for s
  proof -
    have "s \<in># image_mset (the \<circ> T) (mset_set (?due None))"
      using that regular by (metis set_mset_mset)
    then show ?thesis
      using steady by (cases "finite (?due None)") (auto simp: selected_by_def)
  qed
  then have "fst (plan_delivery h now publish publisher s r3) = unhindered r publish publisher s
      \<and> same_routes r (snd (plan_delivery h now publish publisher s r3))" if "s \<in> set subs" "same_routes r r3" for s r3
    using that clear plan_delivery_unhindered [of r3 s h now publish publisher] unhindered_cong [OF that(2)]
    by (simp add: same_routes_def)
  from plan_all_exact [where Q = "same_routes r" and xs = subs, OF routes(2) this]
  have "mset (fst (plan_all (plan_delivery h now publish publisher) subs r2)) =
      image_mset (the \<circ> unhindered r publish publisher)
        {#s \<in># image_mset (the \<circ> T) (mset_set (?due None)). unhindered r publish publisher s \<noteq> None#}"
    unfolding regular [symmetric] mset_map_filter [symmetric] by simp
  moreover have "\<exists>p \<in> set ?shared. serves_group T publish chosen (grp, flt) p
      \<and> map_of (mr_clients r) (plan_client p) \<noteq> None \<and> is_Online p"
    if grp: "group_chosen chosen grp"
      and online: "k \<in> ?due (Some grp)" "fst k = flt" "map_of (mr_clients r) (rs_client_id (the (T k))) \<noteq> None"
      and foreign: "\<forall>k \<in> ?due (Some grp). fst k = flt \<longrightarrow> \<not> own_message publisher (the (T k))" for grp flt k
  proof -
    obtain ss where ss: "((grp, flt), ss) \<in> set groups" "the (T k) \<in> set ss"
      using online(1,2) ok(2) by (auto intro: group_exists [OF ok(1) _ collect, of k grp])
    show ?thesis
    proof (rule plan_all_member [where Q = "same_routes r"])
      show "((grp, flt), ss) \<in> set kept"
        using kept ss grp by simp
      show "same_routes r (snd (plan_share_group h now publish publisher e r3))" if "same_routes r r3" for e r3
        using that plan_share_group_routes same_routes_trans by blast
      show "\<exists>p. fst (plan_share_group h now publish publisher ((grp, flt), ss) r3) = Some p
          \<and> serves_group T publish chosen (grp, flt) p \<and> map_of (mr_clients r) (plan_client p) \<noteq> None \<and> is_Online p"
        if "same_routes r r3" for r3
        by (rule group_gets_plan [OF assms(1) that collect ss(1) grp clear _ _ ss(2) online(3)])
          (use steady foreign in blast)+
    qed (rule routes)
  qed
  ultimately show ?thesis
    using plans by (intro exI [of _ ?shared] exI [of _ "fst (plan_all (plan_delivery h now publish publisher) subs r2)"] conjI)
      blast+
qed

text \<open>Witness: both parts at the example router.\<close>

theorem fan_out_complete_witness:
  "\<exists>shared regular. fst (route_message_internal (\<lambda>_. 0) 0 ex_message (Some ''A'') True None ex_router) = shared @ regular
    \<and> mset regular = image_mset (the \<circ> unhindered ex_router ex_message (Some ''A''))
        {#s \<in># image_mset (the \<circ> requested ex_requests Map.empty)
             (mset_set (selected_by (requested ex_requests Map.empty) (pub_topic_name ex_message) None)).
          unhindered ex_router ex_message (Some ''A'') s \<noteq> None#}"
proof -
  have "\<forall>s \<in> ran (requested ex_requests Map.empty). \<not> rs_change_only s"
    by (auto simp: requested_def ex_requests_def ex_request_def subscription_of_def ran_def
        split: if_splits prod.splits)
  from fan_out_complete [where h = "\<lambda>_. 0" and now = 0 and publish = ex_message and publisher = "Some ''A''"
      and limits = True and chosen = None, OF ex_serves prod.collapse [symmetric] ex_router_settings(1,2) this]
  show ?thesis
    by - (elim exE conjE, (intro exI conjI; assumption))
qed

text \<open>
  C18: a share group whose members are all connected, keep up and may take the message is served in
  turn: over as many messages as it has members, each member gets exactly one, sent directly, wherever
  the counter stands (until it passes \<open>2^64\<close>).
\<close>

theorem share_group_turns:
  assumes "mr_max_outbound_rate r = 0" "mr_echo_suppression_key r = None" "subs \<noteq> []"
    and "\<forall>s \<in> set subs. keeps_up r publisher s"
    and "mr_share_group_counters r key = Some c" "unat c + length msgs < 2 ^ 64" "length msgs = length subs"
    and "plan_all (\<lambda>publish. plan_share_group h now publish publisher (key, subs)) msgs r = (plans, r')"
  shows "mset (map plan_client plans) = mset (map rs_client_id subs) \<and> list_all is_Online plans
    \<and> mr_share_group_counters r' key = Some (c + word_of_nat (length subs))"
proof -
  have "map (\<lambda>i. subs ! ((unat c + i) mod length subs)) [0..<length subs] = rotate (unat c) subs"
    by (rule nth_equalityI) (simp_all add: nth_rotate)
  then have "map (\<lambda>i. rs_client_id (subs ! ((unat c + i) mod length subs))) [0..<length subs] = map rs_client_id (rotate (unat c) subs)"
    by (metis (no_types) map_map [unfolded comp_def])
  moreover have "mset (rotate n subs) = mset subs" for n
    by (metis append_take_drop_id mset_append rotate_drop_take union_commute)
  ultimately show ?thesis
    using share_group_receivers [OF assms(1-6) assms(8) [symmetric]] assms(7) by (simp add: mset_map del: mset_map [symmetric])
qed

text \<open>Witness: the example group has one member, which gets the message.\<close>

theorem share_group_turns_witness:
  "mset (map plan_client (fst (plan_all (\<lambda>publish. plan_share_group (\<lambda>_. 0) 0 publish None
      ((''g'', ''a/b''), [subscription_of (ex_request ''B'' ''$share/g/a/b'') (Some ''g'')])) [ex_message] ex_router))) = {#''B''#}"
proof -
  let ?s = "subscription_of (ex_request ''B'' ''$share/g/a/b'') (Some ''g'')"
  have "keeps_up ex_router None ?s"
    by code_simp
  then show ?thesis
    using share_group_turns [of ex_router "[?s]" None "(''g'', ''a/b'')" 0 "[ex_message]" "\<lambda>_. 0" 0,
        OF ex_router_settings(1,2) _ _ ex_router_settings(3) _ _ prod.collapse [symmetric]]
    by (simp add: subscription_of_def ex_request_def)
qed

end
