(* ===== verification/Text_Lines.thy ===== *)
theory Text_Lines
  imports Topic_Matching
begin

text \<open>
  Text files as the sources read them: \<open>str::lines\<close>, \<open>str::trim\<close>, \<open>str::split_whitespace\<close> and
  \<open>char::is_whitespace\<close> of the Rust standard library on UTF-8 octets. White space is the Unicode
  property \<open>White_Space\<close>, given by the encodings of its 25 characters; in valid UTF-8 such an encoding
  only occurs where the character does.
\<close>

definition white_space :: "string list" where
  "white_space =
     [[CHR 0x09], [CHR 0x0A], [CHR 0x0B], [CHR 0x0C], [CHR 0x0D], [CHR 0x20],
      [CHR 0xC2, CHR 0x85], [CHR 0xC2, CHR 0xA0], [CHR 0xE1, CHR 0x9A, CHR 0x80]]
     @ map (\<lambda>c. [CHR 0xE2, CHR 0x80, c])
         [CHR 0x80, CHR 0x81, CHR 0x82, CHR 0x83, CHR 0x84, CHR 0x85, CHR 0x86, CHR 0x87, CHR 0x88,
          CHR 0x89, CHR 0x8A, CHR 0xA8, CHR 0xA9, CHR 0xAF]
     @ [[CHR 0xE2, CHR 0x81, CHR 0x9F], [CHR 0xE3, CHR 0x80, CHR 0x80]]"

text \<open>The length of the white space character a string starts with, 0 if there is none.\<close>

definition ws_prefix :: "string \<Rightarrow> nat" where
  "ws_prefix s = (case find (starts_with s) white_space of Some e \<Rightarrow> length e | None \<Rightarrow> 0)"

fun contains_whitespace :: "string \<Rightarrow> bool" where
  "contains_whitespace [] = False"
| "contains_whitespace (c # s) = (ws_prefix (c # s) > 0 \<or> contains_whitespace s)"

function trim_start :: "string \<Rightarrow> string" where
  "trim_start s = (if ws_prefix s > 0 \<and> s \<noteq> [] then trim_start (drop (ws_prefix s) s) else s)"
  by pat_completeness auto
termination
  by (relation "measure length") auto

function trim_end :: "string \<Rightarrow> string" where
  "trim_end [] = []"
| "trim_end (c # s) =
     (let n = ws_prefix (c # s) in
      if n > 0 then (let r = trim_end (drop n (c # s)) in if r = [] then [] else take n (c # s) @ r)
      else c # trim_end s)"
  by pat_completeness auto
termination
  by (relation "measure length") auto

definition trim :: "string \<Rightarrow> string" where
  "trim s = trim_end (trim_start s)"

text \<open>\<open>split_whitespace\<close> with the token read so far; empty tokens are dropped.\<close>

function ws_tokens :: "string \<Rightarrow> string \<Rightarrow> string list" where
  "ws_tokens cur [] = (if cur = [] then [] else [cur])"
| "ws_tokens cur (c # s) =
     (let n = ws_prefix (c # s) in
      if n = 0 then ws_tokens (cur @ [c]) s
      else (if cur = [] then [] else [cur]) @ ws_tokens [] (drop n (c # s)))"
  by pat_completeness auto
termination
  by (relation "measure (length \<circ> snd)") auto

definition split_whitespace :: "string \<Rightarrow> string list" where
  "split_whitespace s = ws_tokens [] s"

definition strip_cr :: "string \<Rightarrow> string" where
  "strip_cr l = (if l \<noteq> [] \<and> last l = CHR 0x0D then butlast l else l)"

definition str_lines :: "string \<Rightarrow> string list" where
  "str_lines s =
     (let ps = split_on (CHR 0x0A) s in
      map strip_cr (butlast ps) @ (if last ps = [] then [] else [last ps]))"

declare trim_start.simps [simp del] trim_end.simps(2) [simp del] ws_tokens.simps(2) [simp del]

lemma scan_ws:
  assumes "ws_prefix s > 0"
  shows "trim_end s = (if trim_end (drop (ws_prefix s) s) = [] then [] else take (ws_prefix s) s @ trim_end (drop (ws_prefix s) s))"
    "ws_tokens cur s = (if cur = [] then [] else [cur]) @ ws_tokens [] (drop (ws_prefix s) s)"
  using assms by (cases s; simp add: ws_prefix_def trim_end.simps(2) ws_tokens.simps(2) Let_def)+

lemma scan_other:
  assumes "ws_prefix (c # s) = 0"
  shows "trim_end (c # s) = c # trim_end s" "ws_tokens cur (c # s) = ws_tokens (cur @ [c]) s"
  using assms by (simp_all add: trim_end.simps(2) ws_tokens.simps(2))

subsection \<open>White space\<close>

lemma white_space_facts:
  "\<forall>e \<in> set white_space. e \<noteq> [] \<and> list_all (\<lambda>c. (of_char c :: nat) \<ge> 128) (tl e)"
  "\<forall>e \<in> set white_space. \<forall>e' \<in> set white_space. starts_with e e' \<longrightarrow> e = e'"
  by (simp_all add: white_space_def starts_with_def)

lemma starts_with_both:
  assumes "starts_with s e" "starts_with s e'"
  shows "starts_with e e' \<or> starts_with e' e"
  using assms by (auto simp: starts_with_append append_eq_append_conv2)

lemma find_Some_facts: "find P xs = Some x \<Longrightarrow> P x \<and> x \<in> set xs"
  by (induction xs) (auto split: if_splits)

lemma ws_prefix_eq:
  assumes "e \<in> set white_space"
  shows "ws_prefix (e @ r) = length e"
proof -
  have "starts_with (e @ r) e"
    by (auto simp: starts_with_append)
  moreover have "e' = e" if "e' \<in> set white_space" "starts_with (e @ r) e'" for e'
    using that assms white_space_facts(2) starts_with_both [OF that(2) \<open>starts_with (e @ r) e\<close>] by blast
  ultimately have "find (starts_with (e @ r)) white_space = Some e"
    using assms find_Some_facts [of "starts_with (e @ r)" white_space]
    by (cases "find (starts_with (e @ r)) white_space") (auto simp: find_None_iff)
  then show ?thesis
    by (simp add: ws_prefix_def)
qed

lemma ws_prefix_pos:
  assumes "ws_prefix s > 0"
  obtains e r where "e \<in> set white_space" "s = e @ r" "ws_prefix s = length e"
proof (cases "find (starts_with s) white_space")
  case (Some e)
  then show thesis
    using that find_Some_facts [OF Some] by (auto simp: starts_with_append ws_prefix_def)
qed (use assms in \<open>simp add: ws_prefix_def\<close>)

lemma ws_prefix_Nil [simp]: "ws_prefix [] = 0"
proof (rule ccontr)
  assume "ws_prefix [] \<noteq> 0"
  then obtain e where "e \<in> set white_space" "e = []"
    by (auto elim!: ws_prefix_pos)
  then show False
    using white_space_facts(1) by blast
qed

lemma ws_prefix_le: "ws_prefix s \<le> length s"
  by (cases "ws_prefix s = 0") (auto elim!: ws_prefix_pos)

lemma ws_prefix_prefix:
  assumes "ws_prefix t > 0" "ws_prefix t \<le> length u"  "t = u @ v"
  shows "ws_prefix u = ws_prefix t"
proof -
  obtain e r where e: "e \<in> set white_space" "t = e @ r" "ws_prefix t = length e"
    using assms(1) by (rule ws_prefix_pos)
  then have "u = e @ drop (length e) u"
    using assms(2,3) by (metis append_eq_conv_conj append_take_drop_id take_append take_all_iff diff_is_0_eq take0 append_Nil2)
  then show ?thesis
    using ws_prefix_eq [OF e(1)] e(3) by metis
qed

lemma ws_prefix_ascii:
  assumes "u \<noteq> []" "(of_char c :: nat) < 128"
  shows "ws_prefix (u @ c # r) = ws_prefix u"
proof (cases "ws_prefix (u @ c # r) > 0")
  case True
  then obtain e s where e: "e \<in> set white_space" "u @ c # r = e @ s" "ws_prefix (u @ c # r) = length e"
    by (rule ws_prefix_pos)
  have "length e \<le> length u"
  proof (rule ccontr)
    assume "\<not> length e \<le> length u"
    then obtain w where "e = u @ c # w"
      using e(2) by (auto simp: append_eq_append_conv2 Cons_eq_append_conv)
    then have "c \<in> set (tl e)"
      using assms(1) by (cases u) auto
    then show False
      using white_space_facts(1) e(1) assms(2) by (fastforce simp: list_all_iff)
  qed
  then show ?thesis
    using ws_prefix_prefix [OF True, of u "c # r"] e(3) by simp
next
  case False
  have "ws_prefix u = 0"
  proof (rule ccontr)
    assume "ws_prefix u \<noteq> 0"
    then obtain e s where "e \<in> set white_space" "u = e @ s"
      by (auto elim!: ws_prefix_pos)
    then have "ws_prefix (u @ c # r) = length e"
      using ws_prefix_eq [of e "s @ c # r"] by simp
    with False \<open>e \<in> set white_space\<close> white_space_facts(1) show False
      by auto
  qed
  with False show ?thesis
    by simp
qed

lemma ws_prefix_space: "ws_prefix (CHR 0x20 # s) = 1" "ws_prefix (CHR 0x0D # s) = 1" "ws_prefix (CHR 0x0A # s) = 1"
  using ws_prefix_eq [of "[CHR 0x20]" s] ws_prefix_eq [of "[CHR 0x0D]" s] ws_prefix_eq [of "[CHR 0x0A]" s]
  by (simp_all add: white_space_def)

subsection \<open>Tokens\<close>

lemma ws_tokens_word:
  assumes "\<not> contains_whitespace w" "(of_char c :: nat) < 128"
  shows "ws_tokens cur (w @ c # r) = ws_tokens (cur @ w) (c # r)"
  using assms(1)
proof (induction w arbitrary: cur)
  case (Cons x w)
  have "ws_prefix (x # w @ c # r) = 0"
    using ws_prefix_ascii [of "x # w" c r] Cons.prems assms(2) by simp
  with Cons show ?case
    by (simp add: scan_other)
qed simp

lemma ws_tokens_end: "\<not> contains_whitespace w \<Longrightarrow> ws_tokens cur w = (if cur @ w = [] then [] else [cur @ w])"
  by (induction w arbitrary: cur) (auto simp: scan_other)

lemma split_whitespace_space:
  assumes "\<not> contains_whitespace w" "w \<noteq> []"
  shows "split_whitespace (w @ '' '' @ r) = w # split_whitespace r"
  using ws_tokens_word [OF assms(1), of "CHR 0x20" "[]" r] assms(2)
  by (simp add: split_whitespace_def ws_prefix_space scan_ws(2))

lemma split_whitespace_word: "\<not> contains_whitespace w \<Longrightarrow> w \<noteq> [] \<Longrightarrow> split_whitespace w = [w]"
  by (simp add: split_whitespace_def ws_tokens_end)

subsection \<open>Trimming\<close>

lemma trim_end_prefix: "\<exists>w. s = trim_end s @ w"
proof (induction s rule: trim_end.induct)
  case (2 c s)
  show ?case
  proof (cases "ws_prefix (c # s) > 0")
    case True
    then obtain w where "drop (ws_prefix (c # s)) (c # s) = trim_end (drop (ws_prefix (c # s)) (c # s)) @ w"
      using 2(1) by blast
    then have "c # s = take (ws_prefix (c # s)) (c # s) @ trim_end (drop (ws_prefix (c # s)) (c # s)) @ w"
      by (metis append_take_drop_id)
    with True show ?thesis
      using scan_ws(1) [OF True] by auto
  next
    case False
    then show ?thesis
      using 2(2) by (auto simp: scan_other)
  qed
qed simp

lemma ws_prefix_trim_end: "ws_prefix (c # s) = 0 \<Longrightarrow> ws_prefix (c # trim_end s) = 0"
proof (rule ccontr)
  assume none: "ws_prefix (c # s) = 0" "ws_prefix (c # trim_end s) \<noteq> 0"
  obtain w where w: "s = trim_end s @ w"
    using trim_end_prefix by blast
  from none(2) obtain e r where "e \<in> set white_space" "c # trim_end s = e @ r"
    by (auto elim!: ws_prefix_pos)
  then have "ws_prefix (c # s) = length e" "e \<noteq> []"
    using ws_prefix_eq [of e "r @ w"] w white_space_facts(1) by (metis append_Cons append_assoc, blast)
  with none(1) show False
    by simp
qed

lemma ws_prefix_take: "ws_prefix s > 0 \<Longrightarrow> ws_prefix (take (ws_prefix s) s @ r) = ws_prefix s"
  by (erule ws_prefix_pos) (simp add: ws_prefix_eq)

lemma trim_end_idem: "trim_end (trim_end s) = trim_end s"
proof (induction s rule: trim_end.induct)
  case (2 c s)
  let ?n = "ws_prefix (c # s)"
  show ?case
  proof (cases "?n > 0")
    case True
    let ?r = "trim_end (drop ?n (c # s))"
    have "trim_end (take ?n (c # s) @ ?r) = take ?n (c # s) @ ?r" if "?r \<noteq> []"
      using scan_ws(1) [of "take ?n (c # s) @ ?r"] ws_prefix_take [OF True] 2(1) True that ws_prefix_le [of "c # s"]
      by (simp add: Let_def)
    then show ?thesis
      using scan_ws(1) [OF True] by (simp add: Let_def)
  next
    case False
    then show ?thesis
      using 2(2) ws_prefix_trim_end [of c s] by (simp add: scan_other)
  qed
qed simp

lemma ws_tokens_trim_end: "ws_tokens cur (trim_end s) = ws_tokens cur s"
proof (induction s arbitrary: cur rule: trim_end.induct)
  case (2 c s)
  let ?n = "ws_prefix (c # s)"
  show ?case
  proof (cases "?n > 0")
    case True
    let ?r = "trim_end (drop ?n (c # s))"
    have "ws_tokens cur (take ?n (c # s) @ ?r) = ws_tokens cur (c # s)" if "?r \<noteq> []"
      using scan_ws(2) [of "take ?n (c # s) @ ?r"] scan_ws(2) [OF True] ws_prefix_take [OF True] 2(1) True
        ws_prefix_le [of "c # s"]
      by (simp add: Let_def)
    moreover have "ws_tokens cur [] = ws_tokens cur (c # s)" if "?r = []"
      using scan_ws(2) [OF True] 2(1) [OF refl True, of "[]"] that by simp
    ultimately show ?thesis
      using scan_ws(1) [OF True] by (simp add: Let_def)
  next
    case False
    then show ?thesis
      using 2(2) ws_prefix_trim_end [of c s] by (simp add: scan_other)
  qed
qed simp

lemma ws_tokens_trim_start: "ws_tokens [] (trim_start s) = ws_tokens [] s"
proof (induction s rule: trim_start.induct)
  case (1 s)
  then show ?case
    using scan_ws(2) [of s "[]"] by (cases "ws_prefix s > 0 \<and> s \<noteq> []") (auto simp: trim_start.simps [of s])
qed

lemma split_whitespace_trim: "split_whitespace (trim s) = split_whitespace s"
  by (simp add: split_whitespace_def trim_def ws_tokens_trim_end ws_tokens_trim_start)

lemma trim_start_clean: "ws_prefix (trim_start s) = 0"
proof (induction s rule: trim_start.induct)
  case (1 s)
  then show ?case
    by (cases "ws_prefix s > 0 \<and> s \<noteq> []") (auto simp: trim_start.simps [of s])
qed

lemma trim_idem: "trim (trim s) = trim s"
proof -
  have "ws_prefix (trim_end (trim_start s)) = 0"
  proof (cases "trim_start s")
    case (Cons c t)
    then show ?thesis
      using trim_start_clean [of s] ws_prefix_trim_end [of c t] by (simp add: scan_other)
  qed simp
  then have "trim_start (trim s) = trim s"
    by (simp add: trim_def trim_start.simps [of "trim_end (trim_start s)"])
  then show ?thesis
    unfolding trim_def [of "trim s"] by (simp add: trim_def trim_end_idem)
qed

lemma set_trim: "set (trim s) \<subseteq> set s"
proof -
  have "set (trim_start s) \<subseteq> set s"
  proof (induction s rule: trim_start.induct)
    case (1 s)
    then show ?case
      using set_drop_subset [of "ws_prefix s" s]
      by (cases "ws_prefix s > 0 \<and> s \<noteq> []") (auto simp: trim_start.simps [of s])
  qed
  moreover have "set (trim_end t) \<subseteq> set t" for t
    using trim_end_prefix [of t] by (metis Un_upper1 set_append)
  ultimately show ?thesis
    by (auto simp: trim_def)
qed

lemma trim_last: "trim s \<noteq> [] \<Longrightarrow> last (trim s) \<noteq> CHR 0x0D"
proof -
  have "last (trim_end t) \<noteq> CHR 0x0D" if "trim_end t \<noteq> []" for t
    using that
  proof (induction t rule: trim_end.induct)
    case (2 c t)
    show ?case
    proof (cases "ws_prefix (c # t) > 0")
      case True
      then show ?thesis
        using 2 scan_ws(1) [OF True] by (auto split: if_splits)
    next
      case False
      then have "c \<noteq> CHR 0x0D"
        by (auto simp: ws_prefix_space)
      with False 2 show ?thesis
        by (auto simp: scan_other)
    qed
  qed simp
  then show "trim s \<noteq> [] \<Longrightarrow> last (trim s) \<noteq> CHR 0x0D"
    by (simp add: trim_def)
qed

lemma str_lines_write:
  assumes "\<forall>l \<in> set ls. CHR 0x0A \<notin> set l \<and> (l = [] \<or> last l \<noteq> CHR 0x0D)"
  shows "str_lines (concat (map (\<lambda>l. l @ [CHR 0x0A]) ls)) = ls"
proof -
  have "split_on (CHR 0x0A) (concat (map (\<lambda>l. l @ [CHR 0x0A]) ls)) = ls @ [[]]"
    using assms by (induction ls) (simp_all add: split_on_append_sep split_on_single)
  moreover have "map strip_cr ls = ls"
    using assms by (induction ls) (auto simp: strip_cr_def)
  ultimately show ?thesis
    by (simp add: str_lines_def)
qed

lemma str_lines_no_newline: "l \<in> set (str_lines s) \<Longrightarrow> CHR 0x0A \<notin> set l"
  using split_on_no_sep [of _ "CHR 0x0A" s]
  by (auto simp: str_lines_def Let_def strip_cr_def dest!: in_set_butlastD split: if_splits)

lemma no_whitespace_chars: "\<not> contains_whitespace w \<Longrightarrow> CHR 0x0A \<notin> set w"
proof (induction w)
  case (Cons c w)
  then show ?case
    using ws_prefix_space(3) [of w] by auto
qed simp

lemma trim_end_word:
  assumes "\<not> contains_whitespace w" "w \<noteq> []" "(of_char (hd w) :: nat) < 128"
  shows "trim_end (s @ w) = s @ w"
proof (induction s rule: measure_induct_rule [of length])
  case (less s)
  have word: "trim_end w = w"
    using assms(1) by (induction w) (auto simp: scan_other)
  show ?case
  proof (cases s)
    case (Cons c t)
    let ?n = "ws_prefix (c # t)"
    have n: "ws_prefix (c # t @ w) = ?n"
      using ws_prefix_ascii [of "c # t" "hd w" "tl w"] assms(2,3) by simp
    show ?thesis
    proof (cases "?n > 0")
      case True
      have split: "drop ?n (c # t @ w) = drop ?n (c # t) @ w" "take ?n (c # t @ w) = take ?n (c # t)"
        using ws_prefix_le [of "c # t"] by (simp_all flip: append_Cons)
      have "trim_end (drop ?n (c # t) @ w) = drop ?n (c # t) @ w"
        using less [of "drop ?n (c # t)"] True Cons by simp
      then show ?thesis
        using scan_ws(1) [of "c # t @ w"] n True split assms(2) Cons append_take_drop_id [of ?n "c # t"]
        by (simp flip: append_assoc)
    next
      case False
      then show ?thesis
        using less [of t] n Cons by (simp add: scan_other)
    qed
  qed (simp add: word)
qed

end
