(* ===== verification/Broker_Acl.thy ===== *)
theory Broker_Acl
  imports Text_Lines Assoc_Lists
begin

text \<open>
  Access control of the broker (\<open>broker/acl/mod.rs\<close>, \<open>broker/acl/rules.rs\<close>) and the command that
  edits its file (\<open>mqttv5-cli/src/commands/acl_cmd.rs\<close>). A hash map is an association list with
  distinct keys and a hash set a list without repetitions, in any order. The text of the file, or the
  failure to read it, is an argument. \<open>to_lowercase\<close> is the lower case of ASCII: no other character is
  mapped to a letter of the permission names. The specificity of a rule is an \<open>i32\<close> in the source,
  which holds for patterns below \<open>2^27\<close> octets.
\<close>

subsection \<open>Rules\<close>

datatype Permission = Read | Write | ReadWrite | Deny

definition allows_read :: "Permission \<Rightarrow> bool" where
  "allows_read p \<longleftrightarrow> p = Permission.Read \<or> p = Permission.ReadWrite"

definition allows_write :: "Permission \<Rightarrow> bool" where
  "allows_write p \<longleftrightarrow> p = Permission.Write \<or> p = Permission.ReadWrite"

definition is_deny :: "Permission \<Rightarrow> bool" where
  "is_deny p \<longleftrightarrow> p = Permission.Deny"

definition ascii_lower :: "char \<Rightarrow> char" where
  "ascii_lower c = (if 65 \<le> (of_char c :: nat) \<and> (of_char c :: nat) \<le> 90 then char_of (of_char c + 32 :: nat) else c)"

definition Permission_from_str :: "string \<Rightarrow> Permission result" where
  "Permission_from_str s =
     (let s = map ascii_lower s in
      if s \<in> {''read'', ''subscribe''} then Inr Permission.Read
      else if s \<in> {''write'', ''publish''} then Inr Permission.Write
      else if s \<in> {''readwrite'', ''rw'', ''all''} then Inr Permission.ReadWrite
      else if s \<in> {''deny'', ''none''} then Inr Permission.Deny
      else Inl MqttError.Configuration)"

definition username_contains_mqtt_special_chars :: "string \<Rightarrow> bool" where
  "username_contains_mqtt_special_chars name \<longleftrightarrow>
     str_contains name (CHR ''+'') \<or> str_contains name (CHR ''#'') \<or> str_contains name (CHR ''/'')"

text \<open>\<open>str::replace("%u", name)\<close>.\<close>

fun replace_u :: "string \<Rightarrow> string \<Rightarrow> string" where
  "replace_u name [] = []"
| "replace_u name [c] = [c]"
| "replace_u name (c # d # s) =
     (if c = CHR ''%'' \<and> d = CHR ''u'' then name @ replace_u name s else c # replace_u name (d # s))"

definition expand_pattern :: "string \<Rightarrow> string option \<Rightarrow> string option" where
  "expand_pattern pattern username =
     (if \<not> str_contains_str pattern ''%u'' then Some pattern
      else Option.bind username (\<lambda>name.
        if username_contains_mqtt_special_chars name then None else Some (replace_u name pattern)))"

record AclRule =
  ar_username :: string
  ar_topic_pattern :: string
  ar_permission :: Permission

definition pattern_matches :: "string \<Rightarrow> string option \<Rightarrow> string \<Rightarrow> bool" where
  "pattern_matches pattern username topic =
     (case expand_pattern pattern username of
        None \<Rightarrow> False
      | Some expanded \<Rightarrow> topic_matches_filter topic expanded)"

definition AclRule_matches :: "AclRule \<Rightarrow> string option \<Rightarrow> string \<Rightarrow> bool" where
  "AclRule_matches r username topic =
     (if \<not> (case username of
               Some user \<Rightarrow> ar_username r = ''*'' \<or> ar_username r = user
             | None \<Rightarrow> ar_username r = ''*'' \<or> ar_username r = ''anonymous'')
      then False
      else pattern_matches (ar_topic_pattern r) username topic)"

record RoleRule =
  rr_topic_pattern :: string
  rr_permission :: Permission

definition RoleRule_matches :: "RoleRule \<Rightarrow> string option \<Rightarrow> string \<Rightarrow> bool" where
  "RoleRule_matches r username topic = pattern_matches (rr_topic_pattern r) username topic"

record Role =
  ro_name :: string
  ro_rules :: "RoleRule list"

definition Role_new :: "string \<Rightarrow> Role" where
  "Role_new name = \<lparr>ro_name = name, ro_rules = []\<rparr>"

definition Role_add_rule :: "RoleRule \<Rightarrow> Role \<Rightarrow> Role" where
  "Role_add_rule r role = role\<lparr>ro_rules := ro_rules role @ [r]\<rparr>"

definition Role_remove_rule :: "string \<Rightarrow> Role \<Rightarrow> Role \<times> bool" where
  "Role_remove_rule topic_pattern role =
     (let kept = filter (\<lambda>r. rr_topic_pattern r \<noteq> topic_pattern) (ro_rules role)
      in (role\<lparr>ro_rules := kept\<rparr>, length kept < length (ro_rules role)))"

datatype FederatedAuthMode = IdentityOnly | ClaimBinding | TrustedRoles

record FederatedRoleEntry =
  fe_roles :: "string list"
  fe_issuer :: string
  fe_mode :: FederatedAuthMode
  fe_session_bound :: bool

record AclManager =
  am_rules :: "AclRule list"
  am_roles :: "(string \<times> Role) list"
  am_user_roles :: "(string \<times> string list) list"
  am_federated_user_roles :: "(string \<times> FederatedRoleEntry) list"
  am_default_permission :: Permission

definition AclManager_new :: AclManager where
  "AclManager_new = \<lparr>am_rules = [], am_roles = [], am_user_roles = [], am_federated_user_roles = [],
     am_default_permission = Permission.Deny\<rparr>"

definition AclManager_allow_all :: AclManager where
  "AclManager_allow_all = AclManager_new\<lparr>am_default_permission := Permission.ReadWrite\<rparr>"

subsection \<open>The file\<close>

record acl_tables =
  at_rules :: "AclRule list"
  at_roles :: "(string \<times> Role) list"
  at_users :: "(string \<times> string list) list"

definition set_insert :: "'a \<Rightarrow> 'a list \<Rightarrow> 'a list" where
  "set_insert x xs = (if x \<in> set xs then xs else xs @ [x])"

definition role_entry :: "string \<Rightarrow> (string \<times> Role) list \<Rightarrow> Role" where
  "role_entry name roles = (case map_of roles name of Some role \<Rightarrow> role | None \<Rightarrow> Role_new name)"

definition user_entry :: "string \<Rightarrow> (string \<times> string list) list \<Rightarrow> string list" where
  "user_entry username users = (case map_of users username of Some roles \<Rightarrow> roles | None \<Rightarrow> [])"

text \<open>The three directives; anything else is skipped with a warning.\<close>

definition load_parts :: "string list \<Rightarrow> acl_tables \<Rightarrow> acl_tables" where
  "load_parts parts t =
     (case parts of
        [directive, name, kw_topic, topic_pattern, kw_permission, permission] \<Rightarrow>
          if directive = ''user'' \<or> directive = ''role'' then
            (if kw_topic \<noteq> ''topic'' \<or> kw_permission \<noteq> ''permission'' then t
             else case Permission_from_str permission of
               Inl _ \<Rightarrow> t
             | Inr p \<Rightarrow>
                 if directive = ''user''
                 then t\<lparr>at_rules := at_rules t @
                        [\<lparr>ar_username = name, ar_topic_pattern = topic_pattern, ar_permission = p\<rparr>]\<rparr>
                 else t\<lparr>at_roles := AList.update name
                        (Role_add_rule \<lparr>rr_topic_pattern = topic_pattern, rr_permission = p\<rparr>
                          (role_entry name (at_roles t))) (at_roles t)\<rparr>)
          else t
      | [directive, username, role_name] \<Rightarrow>
          if directive = ''assign''
          then t\<lparr>at_users := AList.update username
                 (set_insert role_name (user_entry username (at_users t))) (at_users t)\<rparr>
          else t
      | _ \<Rightarrow> t)"

definition load_line :: "string \<Rightarrow> acl_tables \<Rightarrow> acl_tables" where
  "load_line line t =
     (let line = trim line in
      if line = [] \<or> starts_with line ''#'' then t else load_parts (split_whitespace line) t)"

definition load_acl_file :: "string result option \<Rightarrow> AclManager \<Rightarrow> AclManager result" where
  "load_acl_file acl_file m =
     (case acl_file of
        None \<Rightarrow> Inr m
      | Some (Inl _) \<Rightarrow> Inl MqttError.Configuration
      | Some (Inr content) \<Rightarrow>
          let t = fold load_line (str_lines content) \<lparr>at_rules = [], at_roles = [], at_users = []\<rparr>
          in Inr (m\<lparr>am_rules := at_rules t, am_roles := at_roles t, am_user_roles := at_users t\<rparr>))"

subsection \<open>Operations\<close>

definition acl_add_rule :: "AclRule \<Rightarrow> AclManager \<Rightarrow> AclManager" where
  "acl_add_rule r m = m\<lparr>am_rules := am_rules m @ [r]\<rparr>"

definition acl_clear_rules :: "AclManager \<Rightarrow> AclManager" where
  "acl_clear_rules m = m\<lparr>am_rules := []\<rparr>"

definition acl_remove_rule :: "string \<Rightarrow> string \<Rightarrow> AclManager \<Rightarrow> AclManager" where
  "acl_remove_rule username topic_pattern m =
     m\<lparr>am_rules := filter (\<lambda>r. \<not> (ar_username r = username \<and> ar_topic_pattern r = topic_pattern)) (am_rules m)\<rparr>"

definition acl_add_role :: "string \<Rightarrow> AclManager \<Rightarrow> AclManager" where
  "acl_add_role name m = m\<lparr>am_roles := AList.update name (role_entry name (am_roles m)) (am_roles m)\<rparr>"

definition acl_remove_role :: "string \<Rightarrow> AclManager \<Rightarrow> AclManager \<times> bool" where
  "acl_remove_role name m =
     (if map_of (am_roles m) name = None then (m, False)
      else (m\<lparr>am_roles := AList.delete name (am_roles m),
              am_user_roles := map (\<lambda>(user, roles). (user, filter (\<lambda>r. r \<noteq> name) roles)) (am_user_roles m)\<rparr>,
            True))"

definition acl_add_role_rule :: "string \<Rightarrow> string \<Rightarrow> Permission \<Rightarrow> AclManager \<Rightarrow> AclManager" where
  "acl_add_role_rule role_name topic_pattern permission m =
     m\<lparr>am_roles := AList.update role_name
        (Role_add_rule \<lparr>rr_topic_pattern = topic_pattern, rr_permission = permission\<rparr>
          (role_entry role_name (am_roles m))) (am_roles m)\<rparr>"

definition acl_remove_role_rule :: "string \<Rightarrow> string \<Rightarrow> AclManager \<Rightarrow> AclManager \<times> bool" where
  "acl_remove_role_rule role_name topic_pattern m =
     (case map_of (am_roles m) role_name of
        Some role \<Rightarrow>
          (case Role_remove_rule topic_pattern role of
             (role, removed) \<Rightarrow> (m\<lparr>am_roles := AList.update role_name role (am_roles m)\<rparr>, removed))
      | None \<Rightarrow> (m, False))"

definition acl_assign_role :: "string \<Rightarrow> string \<Rightarrow> AclManager \<Rightarrow> AclManager result" where
  "acl_assign_role username role_name m =
     (if map_of (am_roles m) role_name = None then Inl MqttError.Configuration
      else Inr (m\<lparr>am_user_roles := AList.update username
        (set_insert role_name (user_entry username (am_user_roles m))) (am_user_roles m)\<rparr>))"

definition acl_unassign_role :: "string \<Rightarrow> string \<Rightarrow> AclManager \<Rightarrow> AclManager \<times> bool" where
  "acl_unassign_role username role_name m =
     (case map_of (am_user_roles m) username of
        Some roles \<Rightarrow>
          (m\<lparr>am_user_roles := AList.update username (filter (\<lambda>r. r \<noteq> role_name) roles) (am_user_roles m)\<rparr>,
           role_name \<in> set roles)
      | None \<Rightarrow> (m, False))"

definition acl_clear_roles :: "AclManager \<Rightarrow> AclManager" where
  "acl_clear_roles m = m\<lparr>am_roles := [], am_user_roles := []\<rparr>"

definition set_federated_roles :: "string \<Rightarrow> FederatedRoleEntry \<Rightarrow> AclManager \<Rightarrow> AclManager" where
  "set_federated_roles user_id entry m =
     m\<lparr>am_federated_user_roles := AList.update user_id entry (am_federated_user_roles m)\<rparr>"

definition clear_federated_roles :: "string \<Rightarrow> AclManager \<Rightarrow> AclManager" where
  "clear_federated_roles user_id m =
     m\<lparr>am_federated_user_roles := AList.delete user_id (am_federated_user_roles m)\<rparr>"

definition clear_session_bound_roles :: "string \<Rightarrow> AclManager \<Rightarrow> AclManager" where
  "clear_session_bound_roles user_id m =
     (case map_of (am_federated_user_roles m) user_id of
        Some entry \<Rightarrow> if fe_session_bound entry then clear_federated_roles user_id m else m
      | None \<Rightarrow> m)"

subsection \<open>Decisions\<close>

definition specificity :: "AclRule \<Rightarrow> int" where
  "specificity r =
     (if ar_username r \<noteq> ''*'' then 100 else 0)
     + (50 - int (length (filter (\<lambda>c. c = CHR ''+'' \<or> c = CHR ''#'') (ar_topic_pattern r))) * 10)
     + int (length (ar_topic_pattern r))"

fun find_best_loop ::
  "string option \<Rightarrow> string \<Rightarrow> bool \<Rightarrow> AclRule list \<Rightarrow> AclRule option \<times> int \<Rightarrow> AclRule option \<times> int" where
  "find_best_loop username topic wildcard_only [] best = best"
| "find_best_loop username topic wildcard_only (r # rs) best =
     find_best_loop username topic wildcard_only rs
       (let is_wildcard = (ar_username r = ''*'') in
        if wildcard_only \<and> \<not> is_wildcard then best
        else if \<not> wildcard_only \<and> is_wildcard then best
        else if AclRule_matches r username topic \<and> specificity r > snd best
        then (Some r, specificity r) else best)"

definition find_best_direct_rule ::
  "AclRule list \<Rightarrow> string option \<Rightarrow> string \<Rightarrow> bool \<Rightarrow> AclRule option \<times> int" where
  "find_best_direct_rule rules username topic wildcard_only =
     find_best_loop username topic wildcard_only rules (None, - 1)"

definition assigned_roles :: "AclManager \<Rightarrow> string \<Rightarrow> string list" where
  "assigned_roles m user =
     fold set_insert
       (case map_of (am_federated_user_roles m) user of Some entry \<Rightarrow> fe_roles entry | None \<Rightarrow> [])
       (user_entry user (am_user_roles m))"

text \<open>The loops over the roles and their rules; the flags are \<open>found_deny\<close> and \<open>found_allow\<close>.\<close>

definition scan_rule ::
  "string option \<Rightarrow> string \<Rightarrow> (Permission \<Rightarrow> bool) \<Rightarrow> RoleRule \<Rightarrow> bool \<times> bool \<Rightarrow> bool \<times> bool" where
  "scan_rule username topic check r found =
     (if RoleRule_matches r username topic then
        (if is_deny (rr_permission r) then (True, snd found)
         else if check (rr_permission r) then (fst found, True) else found)
      else found)"

definition scan_roles ::
  "AclManager \<Rightarrow> string option \<Rightarrow> string \<Rightarrow> (Permission \<Rightarrow> bool) \<Rightarrow> string list \<Rightarrow> bool \<times> bool" where
  "scan_roles m username topic check names =
     fold (\<lambda>name found. case map_of (am_roles m) name of
             Some role \<Rightarrow> fold (scan_rule username topic check) (ro_rules role) found
           | None \<Rightarrow> found) names (False, False)"

text \<open>The wildcard rules and the default, when neither a direct rule nor a role decides.\<close>

definition check_fallback :: "AclManager \<Rightarrow> string option \<Rightarrow> string \<Rightarrow> (Permission \<Rightarrow> bool) \<Rightarrow> bool" where
  "check_fallback m username topic check =
     (case fst (find_best_direct_rule (am_rules m) username topic True) of
        Some r \<Rightarrow> if is_deny (ar_permission r) then False else check (ar_permission r)
      | None \<Rightarrow> if is_deny (am_default_permission m) then False else check (am_default_permission m))"

definition check_roles :: "AclManager \<Rightarrow> string option \<Rightarrow> string \<Rightarrow> (Permission \<Rightarrow> bool) \<Rightarrow> bool" where
  "check_roles m username topic check =
     (case username of
        Some user \<Rightarrow>
          if assigned_roles m user \<noteq> [] then
            (case scan_roles m username topic check (assigned_roles m user) of
               (found_deny, found_allow) \<Rightarrow>
                 if found_deny then False
                 else if found_allow then True
                 else check_fallback m username topic check)
          else check_fallback m username topic check
      | None \<Rightarrow> check_fallback m username topic check)"

definition check_permission :: "AclManager \<Rightarrow> string option \<Rightarrow> string \<Rightarrow> (Permission \<Rightarrow> bool) \<Rightarrow> bool" where
  "check_permission m username topic check =
     (case fst (find_best_direct_rule (am_rules m) username topic False) of
        Some r \<Rightarrow>
          if is_deny (ar_permission r) then False
          else if check (ar_permission r) then True
          else check_roles m username topic check
      | None \<Rightarrow> check_roles m username topic check)"

definition check_publish :: "AclManager \<Rightarrow> string option \<Rightarrow> string \<Rightarrow> bool" where
  "check_publish m username topic = check_permission m username topic allows_write"

definition check_subscribe :: "AclManager \<Rightarrow> string option \<Rightarrow> string \<Rightarrow> bool" where
  "check_subscribe m username topic_filter = check_permission m username topic_filter allows_read"

subsection \<open>Editing the file\<close>

text \<open>
  The file is \<open>None\<close> when it does not exist and its text otherwise; a command that fails leaves it
  as it is, and so does one that finds its line already there.
\<close>

definition read_acl_file :: "string \<Rightarrow> string list" where
  "read_acl_file content =
     filter (\<lambda>line. \<not> (line = [] \<or> starts_with line ''#'')) (map trim (str_lines content))"

definition write_acl_file :: "string list \<Rightarrow> string" where
  "write_acl_file rules = concat (map (\<lambda>rule. rule @ [CHR 0x0A]) rules)"

definition existing_rules :: "string option \<Rightarrow> string list" where
  "existing_rules file = (case file of Some content \<Rightarrow> read_acl_file content | None \<Rightarrow> [])"

definition append_line :: "string \<Rightarrow> string option \<Rightarrow> string option" where
  "append_line rule_line file =
     (if rule_line \<in> set (existing_rules file) then file
      else Some (write_acl_file (existing_rules file @ [rule_line])))"

definition rule_line :: "string \<Rightarrow> string \<Rightarrow> string \<Rightarrow> string \<Rightarrow> string" where
  "rule_line directive name topic permission =
     directive @ '' '' @ name @ '' '' @ ''topic '' @ topic @ '' '' @ ''permission '' @ permission"

definition handle_add :: "string \<Rightarrow> string \<Rightarrow> string \<Rightarrow> string option \<Rightarrow> string option option" where
  "handle_add username topic permission file =
     (if permission \<notin> {''read'', ''write'', ''readwrite'', ''deny''} then None
      else if contains_whitespace username then None
      else if contains_whitespace topic then None
      else Some (append_line (rule_line ''user'' username topic permission) file))"

definition handle_role_add :: "string \<Rightarrow> string \<Rightarrow> string \<Rightarrow> string option \<Rightarrow> string option option" where
  "handle_role_add role_name topic permission file =
     (if permission \<notin> {''read'', ''write'', ''readwrite'', ''deny''} then None
      else if role_name = [] \<or> contains_whitespace role_name then None
      else if contains_whitespace topic then None
      else Some (append_line (rule_line ''role'' role_name topic permission) file))"

definition handle_assign :: "string \<Rightarrow> string \<Rightarrow> string option \<Rightarrow> string option option" where
  "handle_assign username role_name file =
     (if username = [] \<or> contains_whitespace username then None
      else if role_name = [] \<or> contains_whitespace role_name then None
      else Some (append_line (''assign '' @ username @ '' '' @ role_name) file))"

definition retain_lines :: "(string \<Rightarrow> bool) \<Rightarrow> string option \<Rightarrow> string option option" where
  "retain_lines keep file =
     (case file of
        None \<Rightarrow> None
      | Some content \<Rightarrow>
          let rules = read_acl_file content; kept = filter keep rules
          in if length rules - length kept = 0 then None else Some (Some (write_acl_file kept)))"

definition keeps_rule :: "string \<Rightarrow> string \<Rightarrow> string option \<Rightarrow> string \<Rightarrow> bool" where
  "keeps_rule directive name topic rule =
     (case split_whitespace rule of
        [d, rule_name, kw_topic, rule_topic, kw_permission, _] \<Rightarrow>
          if d \<noteq> directive \<or> kw_topic \<noteq> ''topic'' \<or> kw_permission \<noteq> ''permission'' then True
          else if rule_name \<noteq> name then True
          else (case topic of Some topic_filter \<Rightarrow> rule_topic \<noteq> topic_filter | None \<Rightarrow> False)
      | _ \<Rightarrow> True)"

definition handle_remove :: "string \<Rightarrow> string option \<Rightarrow> string option \<Rightarrow> string option option" where
  "handle_remove username topic file = retain_lines (keeps_rule ''user'' username topic) file"

definition handle_role_remove :: "string \<Rightarrow> string option \<Rightarrow> string option \<Rightarrow> string option option" where
  "handle_role_remove role_name topic file = retain_lines (keeps_rule ''role'' role_name topic) file"

definition handle_unassign :: "string \<Rightarrow> string \<Rightarrow> string option \<Rightarrow> string option option" where
  "handle_unassign username role_name file =
     retain_lines (\<lambda>rule. rule \<noteq> ''assign '' @ username @ '' '' @ role_name) file"

end
