(* ===== verification/Acl_Decisions.thy ===== *)
theory Acl_Decisions
  imports Broker_Acl
begin

text \<open>
  What the access control of \<open>Broker_Acl\<close> decides: the loops of \<open>check_permission\<close> against the order of
  evaluation written without them, the separation of users by \<open>%u\<close>, and three gaps between a rule and
  the subscriptions it is meant to govern.
\<close>

subsection \<open>Specification\<close>

definition applies :: "string option \<Rightarrow> string \<Rightarrow> bool \<Rightarrow> AclRule \<Rightarrow> bool" where
  "applies username topic wildcard r \<longleftrightarrow>
     (ar_username r = ''*'') = wildcard \<and> AclRule_matches r username topic"

text \<open>The first of the most specific rules that apply.\<close>

definition best_rule :: "AclRule list \<Rightarrow> string option \<Rightarrow> string \<Rightarrow> bool \<Rightarrow> AclRule \<Rightarrow> bool" where
  "best_rule rules username topic wildcard r \<longleftrightarrow>
     (\<exists>pre post. rules = pre @ r # post \<and> applies username topic wildcard r \<and> 0 \<le> specificity r
        \<and> (\<forall>x \<in> set pre. applies username topic wildcard x \<longrightarrow> specificity x < specificity r)
        \<and> (\<forall>x \<in> set post. applies username topic wildcard x \<longrightarrow> specificity x \<le> specificity r))"

definition grants :: "(Permission \<Rightarrow> bool) \<Rightarrow> Permission \<Rightarrow> bool" where
  "grants check p \<longleftrightarrow> p \<noteq> Permission.Deny \<and> check p"

text \<open>The roles of a user, assigned or federated, and what one of their matching rules says.\<close>

definition has_role :: "AclManager \<Rightarrow> string \<Rightarrow> string \<Rightarrow> bool" where
  "has_role m user name \<longleftrightarrow>
     (\<exists>names. map_of (am_user_roles m) user = Some names \<and> name \<in> set names)
     \<or> (\<exists>entry. map_of (am_federated_user_roles m) user = Some entry \<and> name \<in> set (fe_roles entry))"

definition role_says :: "AclManager \<Rightarrow> string option \<Rightarrow> string \<Rightarrow> (Permission \<Rightarrow> bool) \<Rightarrow> bool" where
  "role_says m username topic P \<longleftrightarrow>
     (\<exists>user name role r. username = Some user \<and> has_role m user name \<and> map_of (am_roles m) name = Some role
        \<and> r \<in> set (ro_rules role) \<and> RoleRule_matches r username topic \<and> P (rr_permission r))"

subsection \<open>The loops\<close>

definition first_best :: "(AclRule \<Rightarrow> bool) \<Rightarrow> AclRule list \<Rightarrow> int \<Rightarrow> AclRule \<Rightarrow> bool" where
  "first_best A rs s r \<longleftrightarrow>
     (\<exists>pre post. rs = pre @ r # post \<and> A r \<and> s < specificity r
        \<and> (\<forall>x \<in> set pre. A x \<longrightarrow> specificity x < specificity r)
        \<and> (\<forall>x \<in> set post. A x \<longrightarrow> specificity x \<le> specificity r))"

lemma first_best_Cons:
  "first_best A (x # xs) s r \<longleftrightarrow>
     (if A x \<and> s < specificity x
      then first_best A xs (specificity x) r \<or> r = x \<and> (\<forall>y \<in> set xs. A y \<longrightarrow> specificity y \<le> specificity x)
      else first_best A xs s r)"
  (is "_ \<longleftrightarrow> ?rhs")
proof
  assume "first_best A (x # xs) s r"
  then obtain pre post where r: "x # xs = pre @ r # post" "A r" "s < specificity r"
      "\<forall>x \<in> set pre. A x \<longrightarrow> specificity x < specificity r" "\<forall>x \<in> set post. A x \<longrightarrow> specificity x \<le> specificity r"
    unfolding first_best_def by blast
  show ?rhs
  proof (cases pre)
    case Nil
    with r show ?thesis by simp
  next
    case (Cons y pre')
    then have "xs = pre' @ r # post" "y = x"
      using r(1) by simp_all
    then have "first_best A xs t r" if "t < specificity r" for t
      using r Cons that unfolding first_best_def by (intro exI [of _ pre'] exI [of _ post]) simp
    then show ?thesis
      using r Cons \<open>y = x\<close> by simp
  qed
next
  assume rhs: ?rhs
  have later: "first_best A (x # xs) s r" if first: "first_best A xs t r" "s \<le> t" "A x \<longrightarrow> specificity x \<le> t" for t
  proof -
    obtain pre post where "xs = pre @ r # post" "A r" "t < specificity r"
        "\<forall>x \<in> set pre. A x \<longrightarrow> specificity x < specificity r" "\<forall>x \<in> set post. A x \<longrightarrow> specificity x \<le> specificity r"
      using first(1) unfolding first_best_def by blast
    then show ?thesis
      unfolding first_best_def using first(2,3) by (intro exI [of _ "x # pre"] exI [of _ post]) auto
  qed
  show "first_best A (x # xs) s r"
  proof (cases "A x \<and> s < specificity x")
    case True
    then consider "first_best A xs (specificity x) r" | "r = x" "\<forall>y \<in> set xs. A y \<longrightarrow> specificity y \<le> specificity x"
      using rhs by auto
    then show ?thesis
    proof cases
      case 1
      then show ?thesis
        using later [of "specificity x"] True by simp
    next
      case 2
      then show ?thesis
        unfolding first_best_def using True by (intro exI [of _ "[]"] exI [of _ xs]) simp
    qed
  qed (use rhs later [of s] in auto)
qed

lemma find_best_loop_step:
  "find_best_loop username topic wildcard (r # rs) (b, s) =
     find_best_loop username topic wildcard rs
       (if applies username topic wildcard r \<and> s < specificity r then (Some r, specificity r) else (b, s))"
  by (auto simp: applies_def Let_def)

lemma no_first_best: "(\<nexists>r. first_best A rs s r) \<Longrightarrow> \<forall>x \<in> set rs. A x \<longrightarrow> specificity x \<le> s"
proof (induction rs arbitrary: s)
  case (Cons y ys)
  show ?case
  proof (cases "A y \<and> s < specificity y")
    case True
    then have "\<nexists>r. first_best A ys (specificity y) r" "\<not> (\<forall>z \<in> set ys. A z \<longrightarrow> specificity z \<le> specificity y)"
      using Cons.prems by (auto simp: first_best_Cons)
    then show ?thesis
      using Cons.IH [of "specificity y"] by simp
  next
    case False
    then have "first_best A (y # ys) s r \<longleftrightarrow> first_best A ys s r" for r
      by (subst first_best_Cons) (rule if_not_P)
    then have "\<forall>x \<in> set ys. A x \<longrightarrow> specificity x \<le> s"
      using Cons by simp
    with False show ?thesis
      by auto
  qed
qed simp

lemma find_best_loop_result:
  "(first_best (applies username topic wildcard) rs s r \<longrightarrow>
      find_best_loop username topic wildcard rs (b, s) = (Some r, specificity r))
   \<and> ((\<nexists>r. first_best (applies username topic wildcard) rs s r) \<longrightarrow>
      find_best_loop username topic wildcard rs (b, s) = (b, s))"
proof (induction rs arbitrary: b s)
  case Nil
  then show ?case by (simp add: first_best_def)
next
  case (Cons x rs)
  let ?A = "applies username topic wildcard"
  have none: "\<nexists>q. first_best ?A rs t q" if "\<forall>y \<in> set rs. ?A y \<longrightarrow> specificity y \<le> t" for t
    using that unfolding first_best_def by fastforce
  show ?case
  proof (cases "?A x \<and> s < specificity x")
    case True
    have "find_best_loop username topic wildcard (x # rs) (b, s) = (Some r, specificity r)"
      if "first_best ?A (x # rs) s r"
      using that True Cons.IH [of "specificity x" "Some x"] none [of "specificity x"]
      unfolding find_best_loop_step first_best_Cons by (auto simp del: find_best_loop.simps)
    moreover have "\<exists>q. first_best ?A (x # rs) s q"
      using True no_first_best [of ?A rs "specificity x"] by (auto simp: first_best_Cons)
    ultimately show ?thesis by blast
  next
    case False
    then have "first_best ?A (x # rs) s q \<longleftrightarrow> first_best ?A rs s q" for q
      by (subst first_best_Cons) (rule if_not_P)
    then show ?thesis
      unfolding find_best_loop_step using False Cons.IH [of s b] by presburger
  qed
qed

lemma best_rule_first: "best_rule rules username topic wildcard r \<longleftrightarrow> first_best (applies username topic wildcard) rules (- 1) r"
proof -
  have "0 \<le> n \<longleftrightarrow> - 1 < n" for n :: int
    by linarith
  then show ?thesis
    unfolding best_rule_def first_best_def by presburger
qed

lemma find_best_iff:
  "best_rule rules username topic wildcard r \<longleftrightarrow> fst (find_best_direct_rule rules username topic wildcard) = Some r"
proof
  assume "best_rule rules username topic wildcard r"
  then show "fst (find_best_direct_rule rules username topic wildcard) = Some r"
    using find_best_loop_result unfolding best_rule_first find_best_direct_rule_def by (metis fst_conv)
next
  assume found: "fst (find_best_direct_rule rules username topic wildcard) = Some r"
  then obtain q where q: "first_best (applies username topic wildcard) rules (- 1) q"
    using find_best_loop_result [of username topic wildcard rules "- 1" _ None]
    unfolding find_best_direct_rule_def by fastforce
  then have "q = r"
    using find_best_loop_result [of username topic wildcard rules "- 1" q None] found
    unfolding find_best_direct_rule_def by simp
  with q show "best_rule rules username topic wildcard r"
    by (simp add: best_rule_first)
qed

lemma scan_rules_fold:
  "fold (scan_rule username topic check) rs found =
     (fst found \<or> (\<exists>r \<in> set rs. RoleRule_matches r username topic \<and> rr_permission r = Permission.Deny),
      snd found \<or> (\<exists>r \<in> set rs. RoleRule_matches r username topic \<and> grants check (rr_permission r)))"
  by (induction rs arbitrary: found) (auto simp: scan_rule_def is_deny_def grants_def)

lemma scan_roles_iff:
  "scan_roles m username topic check names =
     (\<exists>name \<in> set names. \<exists>role. map_of (am_roles m) name = Some role
        \<and> (\<exists>r \<in> set (ro_rules role). RoleRule_matches r username topic \<and> rr_permission r = Permission.Deny),
      \<exists>name \<in> set names. \<exists>role. map_of (am_roles m) name = Some role
        \<and> (\<exists>r \<in> set (ro_rules role). RoleRule_matches r username topic \<and> grants check (rr_permission r)))"
proof -
  let ?f = "\<lambda>name found. case map_of (am_roles m) name of
      Some role \<Rightarrow> fold (scan_rule username topic check) (ro_rules role) found | None \<Rightarrow> found"
  let ?says = "\<lambda>P name. \<exists>role. map_of (am_roles m) name = Some role
      \<and> (\<exists>r \<in> set (ro_rules role). RoleRule_matches r username topic \<and> P (rr_permission r))"
  have "fold ?f names found = (fst found \<or> (\<exists>name \<in> set names. ?says (\<lambda>p. p = Permission.Deny) name),
      snd found \<or> (\<exists>name \<in> set names. ?says (grants check) name))" for found
    by (induction names arbitrary: found) (auto simp: scan_rules_fold split: option.split)
  then show ?thesis
    by (simp add: scan_roles_def)
qed

lemma set_assigned_roles: "set (assigned_roles m user) = {name. has_role m user name}"
proof -
  have "set (fold set_insert xs ys) = set ys \<union> set xs" for xs ys :: "string list"
    by (induction xs arbitrary: ys) (auto simp: set_insert_def)
  then show ?thesis
    by (auto simp: assigned_roles_def user_entry_def has_role_def split: option.splits)
qed

lemma scan_roles_says:
  assumes "username = Some user"
  shows "scan_roles m username topic check (assigned_roles m user) =
    (role_says m username topic (\<lambda>p. p = Permission.Deny), role_says m username topic (grants check))"
  unfolding scan_roles_iff role_says_def set_assigned_roles by (simp add: assms Bex_def)

lemma check_roles_iff:
  "check_roles m username topic check \<longleftrightarrow>
     \<not> role_says m username topic (\<lambda>p. p = Permission.Deny)
     \<and> (role_says m username topic (grants check) \<or> check_fallback m username topic check)"
proof (cases username)
  case None
  then show ?thesis
    by (simp add: check_roles_def role_says_def)
next
  case (Some user)
  have "\<not> role_says m username topic P" if "assigned_roles m user = []" for P
    using that Some set_assigned_roles [of m user] by (auto simp: role_says_def)
  then show ?thesis
    using Some scan_roles_says [OF Some] by (auto simp: check_roles_def)
qed

lemma check_fallback_iff:
  "check_fallback m username topic check \<longleftrightarrow>
     (\<exists>r. best_rule (am_rules m) username topic True r \<and> grants check (ar_permission r))
     \<or> (\<nexists>r. best_rule (am_rules m) username topic True r) \<and> grants check (am_default_permission m)"
  unfolding check_fallback_def is_deny_def grants_def find_best_iff
  by (cases "fst (find_best_direct_rule (am_rules m) username topic True)") auto

lemma check_permission_iff:
  "check_permission m username topic check \<longleftrightarrow>
     (\<exists>r. best_rule (am_rules m) username topic False r \<and> grants check (ar_permission r))
     \<or> \<not> (\<exists>r. best_rule (am_rules m) username topic False r \<and> ar_permission r = Permission.Deny)
       \<and> check_roles m username topic check"
  unfolding check_permission_def is_deny_def grants_def find_best_iff
  by (cases "fst (find_best_direct_rule (am_rules m) username topic False)") auto

subsection \<open>Patterns with a user name\<close>

lemma split_on_prefix:
  assumes "c \<notin> set a"
  shows "split_on c (a @ b) = (a @ hd (split_on c b)) # tl (split_on c b)"
  using assms
proof (induction a)
  case Nil
  then show ?case
    by (cases "split_on c b") (use split_on_not_Nil in auto)
qed auto

lemma split_replace_u:
  assumes "CHR ''/'' \<notin> set name"
  shows "split_on (CHR ''/'') (replace_u name p) = map (replace_u name) (split_on (CHR ''/'') p)"
  using assms
proof (induction name p rule: replace_u.induct)
  case (3 name c d s)
  obtain q qs where q: "split_on (CHR ''/'') (d # s) = q # qs"
    by (meson split_on_not_Nil neq_Nil_conv)
  show ?case
  proof (cases "c = CHR ''%'' \<and> d = CHR ''u''")
    case True
    obtain t ts where t: "split_on (CHR ''/'') s = t # ts"
      by (cases "split_on (CHR ''/'') s") (use split_on_not_Nil in auto)
    with True 3(1,3) show ?thesis
      by (simp add: split_on_prefix)
  next
    case False
    have head: "replace_u name (c # q) = c # replace_u name q"
    proof (cases q)
      case (Cons e q')
      then have "e = d"
        using q by (auto split: if_splits list.splits)
      with False Cons show ?thesis by auto
    qed simp_all
    have "split_on (CHR ''/'') (replace_u name (d # s)) = replace_u name q # map (replace_u name) qs"
      using 3(2,3) False q by simp
    moreover have "replace_u name (c # d # s) = c # replace_u name (d # s)"
      using False by auto
    ultimately show ?thesis
      using head q by (simp add: split_on.simps(2) [of _ c "d # s"] split_on.simps(2) [of _ c "replace_u name (d # s)"]
          del: replace_u.simps(2,3) split_on.simps(2))
  qed
qed simp_all

lemma replace_u_level: "replace_u name ''%u'' = name"
  by simp

lemma set_replace_u: "set (replace_u name l) \<subseteq> set name \<union> set l"
  by (induction name l rule: replace_u.induct) auto

lemma loop_level:
  assumes "topic_matches_loop ts fs" "i < length fs" "''#'' \<notin> set (take i fs)" "fs ! i \<notin> {''+'', ''#''}"
  shows "i < length ts \<and> ts ! i = fs ! i"
  using assms
proof (induction ts fs arbitrary: i rule: topic_matches_loop.induct)
  case (1 t ts f fs)
  show ?case
  proof (cases i)
    case (Suc j)
    with 1 show ?thesis by (auto split: if_splits)
  qed (use 1 in \<open>auto split: if_splits\<close>)
qed (auto simp: nth_Cons' take_Cons' split: if_splits)

lemma str_contains_infix: "str_contains_str (x @ p @ y) p"
proof (induction x)
  case Nil
  show ?case
    by (cases p; cases y) (auto simp: starts_with_append)
qed (simp add: starts_with_append)

lemma split_on_infix: "p \<in> set (split_on c s) \<Longrightarrow> \<exists>x y. s = x @ p @ y"
proof (induction s arbitrary: p)
  case (Cons a s)
  obtain q qs where q: "split_on c s = q # qs"
    by (cases "split_on c s") (use split_on_not_Nil in auto)
  show ?case
  proof (cases "a \<noteq> c \<and> p = a # q")
    case True
    obtain y where "s = q @ y"
      using q join_split_on [of c s] by (cases qs) auto
    with True show ?thesis
      by (intro exI [of _ "[]"] exI [of _ y]) simp
  next
    case False
    then consider "p = []" | "p \<in> set (split_on c s)"
      using Cons.prems q by (auto split: if_splits)
    then show ?thesis
    proof cases
      case 1
      then show ?thesis by (intro exI [of _ "[]"] exI [of _ "a # s"]) simp
    next
      case 2
      then obtain x y where "s = x @ p @ y"
        using Cons.IH by blast
      then show ?thesis by (intro exI [of _ "a # x"] exI [of _ y]) simp
    qed
  qed
qed simp

lemma user_level:
  assumes "is_valid_topic_filter pattern" "i < length (split_on (CHR ''/'') pattern)"
    and "split_on (CHR ''/'') pattern ! i = ''%u''" "pattern_matches pattern (Some name) topic"
  shows "i < length (split_on (CHR ''/'') topic) \<and> split_on (CHR ''/'') topic ! i = name"
proof -
  let ?ps = "split_on (CHR ''/'') pattern"
  have "str_contains_str pattern ''%u''"
    using split_on_infix [of "''%u''" "CHR ''/''" pattern] assms(2,3) str_contains_infix
    by (metis nth_mem)
  then have name: "CHR ''+'' \<notin> set name" "CHR ''#'' \<notin> set name" "CHR ''/'' \<notin> set name"
    and match: "topic_matches_filter topic (replace_u name pattern)"
    using assms(4) by (auto simp: pattern_matches_def expand_pattern_def username_contains_mqtt_special_chars_def
        str_contains_def split: if_splits)
  have split: "split_on (CHR ''/'') (replace_u name pattern) = map (replace_u name) ?ps"
    using split_replace_u [OF name(3)] .
  have "is_valid_filter_parts ?ps"
    using assms(1) by (simp add: is_valid_topic_filter_def filter_parts_eq split: if_splits)
  then have hash: "''#'' \<notin> set (butlast ?ps)" "\<forall>l \<in> set ?ps. CHR ''#'' \<in> set l \<longrightarrow> l = ''#''"
    by (simp_all add: filter_parts_iff)
  have "''#'' \<notin> set (take i (map (replace_u name) ?ps))"
  proof
    assume "''#'' \<in> set (take i (map (replace_u name) ?ps))"
    then obtain l where l: "l \<in> set (take i ?ps)" "replace_u name l = ''#''"
      by (auto simp: take_map)
    then have "l \<in> set ?ps" "CHR ''#'' \<in> set l"
      using set_replace_u [of name l] name(2) in_set_takeD [of l i ?ps] by auto
    moreover have "l \<in> set (butlast ?ps)"
      using l(1) assms(2) in_set_takeD [of l i "butlast ?ps"] by (simp add: take_butlast)
    ultimately show False
      using hash by blast
  qed
  moreover have "topic_matches_loop (split_on (CHR ''/'') topic) (map (replace_u name) ?ps)"
  proof -
    have "replace_u name pattern \<noteq> ''#''"
      using split assms(2,3) name(2) replace_u_level by (auto simp: nth_Cons')
    then show ?thesis
      using match by (auto simp: topic_matches_filter_def split split: if_splits)
  qed
  moreover have "name \<noteq> ''+''" "name \<noteq> ''#''"
    using name by auto
  ultimately show ?thesis
    using loop_level [of "split_on (CHR ''/'') topic" "map (replace_u name) ?ps" i] assms(2,3) name by auto
qed

subsection \<open>Shared and wildcard subscriptions\<close>

definition acl_patterns :: "AclManager \<Rightarrow> string set" where
  "acl_patterns m = ar_topic_pattern ` set (am_rules m)
     \<union> rr_topic_pattern ` (\<Union>(_, role) \<in> set (am_roles m). set (ro_rules role))"

lemma check_no_match:
  assumes "\<forall>p \<in> acl_patterns m. \<not> pattern_matches p username topic"
  shows "check_permission m username topic check = grants check (am_default_permission m)"
proof -
  have "\<not> applies username topic w r" if "r \<in> set (am_rules m)" for w r
    using assms that by (auto simp: applies_def AclRule_matches_def acl_patterns_def split: if_splits)
  then have "\<not> best_rule (am_rules m) username topic w r" for w r
    by (auto simp: best_rule_def)
  moreover have "\<not> role_says m username topic P" for P
    using assms map_of_SomeD by (fastforce simp: role_says_def acl_patterns_def RoleRule_matches_def)
  ultimately show ?thesis
    by (simp add: check_permission_iff check_roles_iff check_fallback_iff)
qed

lemma shared_pattern_free:
  assumes "hd (split_on (CHR ''/'') e) \<noteq> ''$share''"
  shows "\<not> topic_matches_filter (''$share/'' @ r) e"
proof
  assume match: "topic_matches_filter (''$share/'' @ r) e"
  have split: "split_on (CHR ''/'') (''$share/'' @ r) = ''$share'' # split_on (CHR ''/'') r"
    using split_on_append_sep [of "CHR ''/''" "''$share''" r] by simp
  obtain f fs where f: "split_on (CHR ''/'') e = f # fs"
    by (meson split_on_not_Nil neq_Nil_conv)
  have dollar: "starts_with (''$share/'' @ r) ''$''"
    by (simp add: starts_with_def)
  then have "\<not> starts_with e ''#''" "\<not> starts_with e ''+''"
    using match by (auto simp: topic_matches_filter_def split: if_splits)
  then have "f \<noteq> ''#''" "f \<noteq> ''+''" "e \<noteq> ''#''"
    using f by (cases e; auto simp: starts_with_1 split: if_splits list.splits)+
  then show False
    using match assms f by (auto simp: topic_matches_filter_def split split: if_splits)
qed

lemma loop_common:
  assumes "''#'' \<notin> set ps"
  shows "topic_matches_loop (ps @ ts) (ps @ fs) = topic_matches_loop ts fs"
  using assms by (induction ps) auto

lemma literal_levels:
  assumes "CHR ''+'' \<notin> set p" "CHR ''#'' \<notin> set p"
  shows "''#'' \<notin> set (split_on (CHR ''/'') p)" "\<not> starts_with (p @ ''/'' @ q) ''#''" "\<not> starts_with (p @ ''/'' @ q) ''+''"
    "p @ ''/'' @ q \<noteq> ''#''"
proof -
  show "''#'' \<notin> set (split_on (CHR ''/'') p)"
    using assms set_split_on [of "CHR ''#''" "CHR ''/''" p] by auto
  show "\<not> starts_with (p @ ''/'' @ q) ''#''" "\<not> starts_with (p @ ''/'' @ q) ''+''" "p @ ''/'' @ q \<noteq> ''#''"
    using assms by (cases p; auto simp: starts_with_1)+
qed

lemma matches_below:
  assumes "CHR ''+'' \<notin> set p" "CHR ''#'' \<notin> set p"
  shows "topic_matches_filter (p @ ''/'' @ t) (p @ ''/'' @ f) =
    topic_matches_loop (split_on (CHR ''/'') t) (split_on (CHR ''/'') f)"
  using literal_levels [OF assms]
  by (simp add: topic_matches_filter_def split_on_append_sep loop_common)

subsection \<open>The guarantees\<close>


text \<open>
  C11: a pattern that has \<open>%u\<close> as a level keeps users apart: no topic is matched for two users, and
  none for an anonymous client, whatever the user names contain.
\<close>

theorem acl_user_isolation:
  assumes "is_valid_topic_filter (ar_topic_pattern r)" "''%u'' \<in> set (split_on (CHR ''/'') (ar_topic_pattern r))"
    and "AclRule_matches r (Some a) topic"
  shows "(AclRule_matches r (Some b) topic \<longrightarrow> a = b) \<and> \<not> AclRule_matches r None topic"
proof
  obtain i where i: "i < length (split_on (CHR ''/'') (ar_topic_pattern r))"
      "split_on (CHR ''/'') (ar_topic_pattern r) ! i = ''%u''"
    using assms(2) by (auto simp: in_set_conv_nth)
  have "split_on (CHR ''/'') topic ! i = name" if "AclRule_matches r (Some name) topic" for name
    using user_level [OF assms(1) i] that by (auto simp: AclRule_matches_def split: if_splits)
  then show "AclRule_matches r (Some b) topic \<longrightarrow> a = b"
    using assms(3) by blast
  have "str_contains_str (ar_topic_pattern r) ''%u''"
    using split_on_infix [OF assms(2)] str_contains_infix by metis
  then show "\<not> AclRule_matches r None topic"
    by (simp add: AclRule_matches_def pattern_matches_def expand_pattern_def)
qed

text \<open>Witness: the rule of the documentation for topics of the user's own.\<close>

theorem acl_user_isolation_witness:
  "\<not> AclRule_matches \<lparr>ar_username = ''*'', ar_topic_pattern = ''db/%u/+'', ar_permission = Permission.ReadWrite\<rparr>
     (Some ''eve'') ''db/bob/x''"
proof -
  let ?r = "\<lparr>ar_username = ''*'', ar_topic_pattern = ''db/%u/+'', ar_permission = Permission.ReadWrite\<rparr>"
  have "is_valid_topic_filter (ar_topic_pattern ?r)" "''%u'' \<in> set (split_on (CHR ''/'') (ar_topic_pattern ?r))"
    by (simp_all add: is_valid_topic_filter_def str_contains_def limits_MAX_STRING_LENGTH_def)
  moreover have "AclRule_matches ?r (Some ''bob'') ''db/bob/x''"
    by code_simp
  ultimately show ?thesis
    using acl_user_isolation [of ?r "''bob''" "''db/bob/x''" "''eve''"] by auto
qed

text \<open>
  C33: a shared subscription is judged under its full name. The broker asks for the right to read
  \<open>$share/group/filter\<close>, which no pattern outside \<open>$share\<close> matches, and then serves \<open>filter\<close>: every rule
  on the topics themselves is passed over, a denial included, and the default permission alone decides.
\<close>

theorem share_prefix_escapes_acl:
  assumes "\<forall>p \<in> acl_patterns m. \<forall>e. expand_pattern p username = Some e \<longrightarrow> hd (split_on (CHR ''/'') e) \<noteq> ''$share''"
    and "CHR ''/'' \<notin> set grp"
  shows "check_subscribe m username (''$share/'' @ grp @ ''/'' @ flt) = allows_read (am_default_permission m)
    \<and> parse_shared_subscription (''$share/'' @ grp @ ''/'' @ flt) = (flt, Some grp)"
proof
  have "\<forall>p \<in> acl_patterns m. \<not> pattern_matches p username (''$share/'' @ grp @ ''/'' @ flt)"
    using assms(1) shared_pattern_free by (auto simp: pattern_matches_def split: option.split)
  from check_no_match [OF this, of allows_read]
  show "check_subscribe m username (''$share/'' @ grp @ ''/'' @ flt) = allows_read (am_default_permission m)"
    by (auto simp: check_subscribe_def grants_def allows_read_def)
  show "parse_shared_subscription (''$share/'' @ grp @ ''/'' @ flt) = (flt, Some grp)"
    using shared_parts [of "''$share/'' @ grp @ ''/'' @ flt" grp flt] assms(2)
    by (simp add: parse_shared_subscription_def)
qed

text \<open>Witness: a user who is denied a topic may still subscribe to it through a share group.\<close>

theorem share_prefix_escapes_acl_witness:
  "let m = acl_add_rule \<lparr>ar_username = ''eve'', ar_topic_pattern = ''secret/#'', ar_permission = Permission.Deny\<rparr>
      AclManager_allow_all
   in \<not> check_subscribe m (Some ''eve'') ''secret/x'' \<and> check_subscribe m (Some ''eve'') ''$share/g/secret/x''
      \<and> parse_shared_subscription ''$share/g/secret/x'' = (''secret/x'', Some ''g'')"
proof -
  let ?m = "acl_add_rule \<lparr>ar_username = ''eve'', ar_topic_pattern = ''secret/#'', ar_permission = Permission.Deny\<rparr>
      AclManager_allow_all"
  have "\<forall>p \<in> acl_patterns ?m. \<forall>e. expand_pattern p (Some ''eve'') = Some e \<longrightarrow> hd (split_on (CHR ''/'') e) \<noteq> ''$share''"
    by (simp add: acl_patterns_def acl_add_rule_def AclManager_allow_all_def AclManager_new_def expand_pattern_def
        starts_with_def)
  from share_prefix_escapes_acl [OF this, of "''g''" "''secret/x''"]
  have "check_subscribe ?m (Some ''eve'') ''$share/g/secret/x'' \<and> parse_shared_subscription ''$share/g/secret/x'' = (''secret/x'', Some ''g'')"
    by (simp add: acl_add_rule_def AclManager_allow_all_def AclManager_new_def allows_read_def)
  moreover have "\<not> check_subscribe ?m (Some ''eve'') ''secret/x''"
    by code_simp
  ultimately show ?thesis
    by (simp only: Let_def simp_thms)
qed

text \<open>
  C34: a subscription with wildcards is judged by matching its filter as if it were a topic. A user
  whose only right is to read the topics one level below a prefix may subscribe to everything below
  that prefix, and so receives topics that it may not read.
\<close>

theorem wildcard_subscription_escapes_acl:
  assumes "user \<noteq> ''*''" "set p \<inter> {CHR ''+'', CHR ''#'', CHR ''%''} = {}"
    and "CHR ''/'' \<notin> set x" "CHR ''/'' \<notin> set y"
  defines "m \<equiv> acl_add_rule \<lparr>ar_username = user, ar_topic_pattern = p @ ''/+'', ar_permission = Permission.Read\<rparr>
      AclManager_new"
  shows "check_subscribe m (Some user) (p @ ''/#'')
    \<and> topic_matches_filter (p @ ''/'' @ x @ ''/'' @ y) (p @ ''/#'')
    \<and> \<not> check_subscribe m (Some user) (p @ ''/'' @ x @ ''/'' @ y)"
proof -
  let ?r = "\<lparr>ar_username = user, ar_topic_pattern = p @ ''/+'', ar_permission = Permission.Read\<rparr>"
  have "\<not> str_contains_str q ''%u''" if "CHR ''%'' \<notin> set q" for q
    using that by (induction q) (auto simp: starts_with_append)
  then have expand: "expand_pattern (p @ ''/+'') u = Some (p @ ''/+'')" for u
    using assms(2) by (auto simp: expand_pattern_def)
  have rules: "am_rules m = [?r]" "am_default_permission m = Permission.Deny" "am_roles m = []"
    by (simp_all add: m_def acl_add_rule_def AclManager_new_def)
  note below = matches_below [of p "''#''" "''+''", simplified] matches_below [of p "x @ ''/'' @ y" "''#''", simplified]
    matches_below [of p "x @ ''/'' @ y" "''+''", simplified]
  have levels: "split_on (CHR ''/'') (x @ CHR ''/'' # y) = [x, y]"
    using assms(3,4) by (simp add: split_on_append_sep split_on_single)
  have "filter (\<lambda>c. c = CHR ''+'' \<or> c = CHR ''#'') p = []"
    using assms(2) by (auto simp: filter_empty_conv)
  then have "AclRule_matches ?r (Some user) (p @ ''/#'')" "0 \<le> specificity ?r"
    using assms(2) below(1) expand by (auto simp: AclRule_matches_def pattern_matches_def specificity_def)
  then have "best_rule (am_rules m) (Some user) (p @ ''/#'') False ?r"
    using assms(1) unfolding best_rule_def rules
    by (intro exI [of _ "[]"]) (auto simp: applies_def)
  then have "check_subscribe m (Some user) (p @ ''/#'')"
    unfolding check_subscribe_def check_permission_iff by (auto simp: grants_def allows_read_def)
  moreover have "topic_matches_filter (p @ ''/'' @ x @ ''/'' @ y) (p @ ''/#'')"
    using assms(2) below(2) levels by auto
  moreover have "\<not> topic_matches_filter (p @ ''/'' @ x @ ''/'' @ y) (p @ ''/+'')"
    using assms(2) below(3) levels by auto
  then have "\<forall>q \<in> acl_patterns m. \<not> pattern_matches q (Some user) (p @ ''/'' @ x @ ''/'' @ y)"
    by (simp add: acl_patterns_def rules pattern_matches_def expand)
  then have "\<not> check_subscribe m (Some user) (p @ ''/'' @ x @ ''/'' @ y)"
    by (simp add: check_subscribe_def check_no_match rules grants_def)
  ultimately show ?thesis
    by blast
qed

text \<open>Witness: reading one level below \<open>a\<close> allows subscribing to all of \<open>a\<close>.\<close>

theorem wildcard_subscription_escapes_acl_witness:
  "let m = acl_add_rule \<lparr>ar_username = ''eve'', ar_topic_pattern = ''a/+'', ar_permission = Permission.Read\<rparr> AclManager_new
   in check_subscribe m (Some ''eve'') ''a/#'' \<and> topic_matches_filter ''a/b/c'' ''a/#''
      \<and> \<not> check_subscribe m (Some ''eve'') ''a/b/c''"
  using wildcard_subscription_escapes_acl [of "''eve''" "''a''" "''b''" "''c''"] by (simp add: Let_def)

lemma weak_rule_never_best:
  assumes "specificity r < 0"
  shows "best_rule (pre @ r # post) username topic wildcard q \<longleftrightarrow> best_rule (pre @ post) username topic wildcard q"
proof -
  let ?A = "applies username topic wildcard"
  have "first_best ?A (pre @ r # post) s q \<longleftrightarrow> first_best ?A (pre @ post) s q" if "- 1 \<le> s" for s
    using that
  proof (induction pre arbitrary: s)
    case Nil
    then have "\<not> (?A r \<and> s < specificity r)"
      using assms by linarith
    then show ?case
      by (simp only: append_Nil) (subst first_best_Cons, rule if_not_P)
  next
    case (Cons x pre)
    have "first_best ?A (pre @ r # post) (specificity x) q \<longleftrightarrow> first_best ?A (pre @ post) (specificity x) q"
      if "?A x \<and> s < specificity x"
      using Cons that by (intro Cons.IH) linarith
    moreover have "(\<forall>y \<in> set (pre @ r # post). ?A y \<longrightarrow> specificity y \<le> specificity x) \<longleftrightarrow>
        (\<forall>y \<in> set (pre @ post). ?A y \<longrightarrow> specificity y \<le> specificity x)" if "s < specificity x"
      using Cons.prems assms that by fastforce
    ultimately show ?case
      using Cons.IH [OF Cons.prems] unfolding append_Cons first_best_Cons
      by (cases "?A x \<and> s < specificity x") (simp_all only: if_True if_False simp_thms)
  qed
  then show ?thesis
    by (simp add: best_rule_first)
qed

text \<open>
  C35: a rule for all users whose pattern is seven or more levels of \<open>+\<close> never takes effect, although
  it matches every topic of that depth: its specificity is negative, below the value the search for the
  best rule starts with. A denial written like this is not enforced.
\<close>

theorem deep_wildcard_rule_ignored:
  assumes "7 \<le> n" "r = \<lparr>ar_username = ''*'', ar_topic_pattern = join_on (CHR ''/'') (replicate n ''+''), ar_permission = p\<rparr>"
  shows "check_permission (m\<lparr>am_rules := pre @ r # post\<rparr>) username topic check =
      check_permission (m\<lparr>am_rules := pre @ post\<rparr>) username topic check
    \<and> (length (split_on (CHR ''/'') topic) = n \<and> \<not> starts_with topic ''$'' \<longrightarrow> AclRule_matches r username topic)"
proof
  let ?p = "join_on (CHR ''/'') (replicate n ''+'')"
  have len: "length (join_on (CHR ''/'') (replicate (Suc k) ''+'')) = 2 * k + 1"
      "length (filter (\<lambda>c. c = CHR ''+'' \<or> c = CHR ''#'') (join_on (CHR ''/'') (replicate (Suc k) ''+''))) = Suc k" for k
    by (induction k) simp_all
  obtain k where k: "n = Suc k"
    using assms(1) by (cases n) simp_all
  have "specificity r < 0"
    using assms(1) len [of k] k by (simp add: assms(2) specificity_def)
  note weak = weak_rule_never_best [OF this]
  show "check_permission (m\<lparr>am_rules := pre @ r # post\<rparr>) username topic check =
      check_permission (m\<lparr>am_rules := pre @ post\<rparr>) username topic check"
    unfolding check_permission_iff check_roles_iff check_fallback_iff role_says_def has_role_def
    by (simp add: weak)
  have split: "split_on (CHR ''/'') (join_on (CHR ''/'') (replicate (Suc j) ''+'')) = replicate (Suc j) ''+''" for j
    by (induction j) (simp_all add: split_on_append_sep split_on_single)
  have free: "\<not> str_contains_str (join_on (CHR ''/'') (replicate (Suc j) ''+'')) ''%u''" for j
    by (induction j) (simp_all add: starts_with_def)
  have loop: "topic_matches_loop ts (replicate (length ts) ''+'')" for ts
    by (induction ts) simp_all
  show "length (split_on (CHR ''/'') topic) = n \<and> \<not> starts_with topic ''$'' \<longrightarrow> AclRule_matches r username topic"
    using loop [of "split_on (CHR ''/'') topic"] split [of k] free [of k] k
    by (auto simp: assms(2) AclRule_matches_def pattern_matches_def expand_pattern_def topic_matches_filter_def
        split: option.split)
qed

text \<open>Witness: a denial of all topics with seven levels leaves them open.\<close>

theorem deep_wildcard_rule_ignored_witness:
  "let r = \<lparr>ar_username = ''*'', ar_topic_pattern = join_on (CHR ''/'') (replicate 7 ''+''), ar_permission = Permission.Deny\<rparr>
   in AclRule_matches r (Some ''eve'') ''a/b/c/d/e/f/g''
      \<and> check_publish (AclManager_allow_all\<lparr>am_rules := [r]\<rparr>) (Some ''eve'') ''a/b/c/d/e/f/g''"
proof -
  let ?r = "\<lparr>ar_username = ''*'', ar_topic_pattern = join_on (CHR ''/'') (replicate 7 ''+''), ar_permission = Permission.Deny\<rparr>"
  note at = deep_wildcard_rule_ignored [where n = 7 and r = ?r and p = Permission.Deny and m = AclManager_allow_all
      and pre = "[]" and post = "[]" and username = "Some ''eve''" and topic = "''a/b/c/d/e/f/g''" and check = allows_write,
      OF order_refl refl]
  have "check_permission (AclManager_allow_all\<lparr>am_rules := []\<rparr>) (Some ''eve'') ''a/b/c/d/e/f/g'' allows_write"
    by code_simp
  then have "check_publish (AclManager_allow_all\<lparr>am_rules := [?r]\<rparr>) (Some ''eve'') ''a/b/c/d/e/f/g''"
    using at by (simp only: check_publish_def append_Nil)
  moreover have "length (split_on (CHR ''/'') ''a/b/c/d/e/f/g'') = 7 \<and> \<not> starts_with ''a/b/c/d/e/f/g'' ''$''"
    by (simp add: starts_with_def)
  then have "AclRule_matches ?r (Some ''eve'') ''a/b/c/d/e/f/g''"
    using at by blast
  ultimately show ?thesis
    unfolding Let_def by blast
qed

end
