(* ===== verification/Acl_File.thy ===== *)
theory Acl_File
  imports Broker_Acl
begin

text \<open>
  The access control file between the command that edits it and the broker that loads it: what the
  commands \<open>acl add\<close> and \<open>acl remove\<close> do to the rules the broker reads.
\<close>

definition empty_tables :: acl_tables where
  "empty_tables = \<lparr>at_rules = [], at_roles = [], at_users = []\<rparr>"

text \<open>The tables the broker builds from a file; a missing file has no rules.\<close>

definition loaded :: "string option \<Rightarrow> acl_tables" where
  "loaded file = (case file of Some content \<Rightarrow> fold load_line (str_lines content) empty_tables | None \<Rightarrow> empty_tables)"

definition permission_named :: "string \<Rightarrow> Permission" where
  "permission_named s = (case Permission_from_str s of Inr p \<Rightarrow> p | Inl _ \<Rightarrow> Permission.Deny)"

subsection \<open>Reading back what was written\<close>

definition clean_line :: "string \<Rightarrow> bool" where
  "clean_line l \<longleftrightarrow> l \<noteq> [] \<and> \<not> starts_with l ''#'' \<and> trim l = l \<and> CHR 0x0A \<notin> set l"

lemma load_acl_file_loaded:
  "load_acl_file (Some (Inr content)) m = Inr (m\<lparr>am_rules := at_rules (loaded (Some content)),
     am_roles := at_roles (loaded (Some content)), am_user_roles := at_users (loaded (Some content))\<rparr>)"
  by (simp add: load_acl_file_def loaded_def empty_tables_def Let_def)

lemma read_acl_file_clean: "l \<in> set (read_acl_file content) \<Longrightarrow> clean_line l"
  using str_lines_no_newline set_trim by (auto simp: read_acl_file_def clean_line_def trim_idem)

lemma existing_rules_clean: "l \<in> set (existing_rules file) \<Longrightarrow> clean_line l"
  using read_acl_file_clean by (auto simp: existing_rules_def split: option.splits)

lemma load_line_clean: "clean_line l \<Longrightarrow> load_line l = load_parts (split_whitespace l)"
  by (auto simp: load_line_def clean_line_def)

lemma fold_load_lines:
  "fold load_line ls t = fold (load_parts \<circ> split_whitespace) (filter (\<lambda>l. \<not> (l = [] \<or> starts_with l ''#'')) (map trim ls)) t"
  by (induction ls arbitrary: t) (simp_all add: load_line_def Let_def comp_def)

lemma loaded_existing: "loaded file = fold (load_parts \<circ> split_whitespace) (existing_rules file) empty_tables"
  by (simp add: loaded_def existing_rules_def read_acl_file_def fold_load_lines split: option.split)

lemma loaded_written:
  assumes "\<forall>l \<in> set rules. clean_line l"
  shows "loaded (Some (write_acl_file rules)) = fold (load_parts \<circ> split_whitespace) rules empty_tables"
proof -
  have "\<forall>l \<in> set rules. CHR 0x0A \<notin> set l \<and> (l = [] \<or> last l \<noteq> CHR 0x0D)"
    using assms trim_last by (metis clean_line_def)
  then have "str_lines (write_acl_file rules) = rules"
    unfolding write_acl_file_def by (rule str_lines_write)
  moreover have "filter (\<lambda>l. \<not> (l = [] \<or> starts_with l ''#'')) (map trim rules) = rules"
    using assms by (induction rules) (auto simp: clean_line_def)
  ultimately show ?thesis
    by (simp add: loaded_def fold_load_lines)
qed

lemma loaded_append:
  assumes "clean_line l"
  shows "loaded (append_line l file) =
    (if l \<in> set (existing_rules file) then loaded file else load_parts (split_whitespace l) (loaded file))"
proof (cases "l \<in> set (existing_rules file)")
  case False
  have "\<forall>x \<in> set (existing_rules file @ [l]). clean_line x"
    using assms existing_rules_clean by auto
  from loaded_written [OF this] False show ?thesis
    by (simp add: append_line_def loaded_existing)
qed (simp add: append_line_def)

subsection \<open>A rule as a line\<close>

lemma keyword_words:
  "w \<in> {''user'', ''role'', ''topic'', ''permission'', ''assign'', ''read'', ''write'', ''readwrite'', ''deny''} \<Longrightarrow>
     \<not> contains_whitespace w \<and> w \<noteq> []"
  by (auto simp: ws_prefix_def white_space_def starts_with_def)

lemma split_rule_line:
  assumes "directive \<in> {''user'', ''role''}" "permission \<in> {''read'', ''write'', ''readwrite'', ''deny''}"
    and "\<not> contains_whitespace name" "\<not> contains_whitespace topic" "name \<noteq> []" "topic \<noteq> []"
  shows "split_whitespace (rule_line directive name topic permission) =
    [directive, name, ''topic'', topic, ''permission'', permission]"
proof -
  have words: "\<not> contains_whitespace directive" "directive \<noteq> []" "\<not> contains_whitespace permission" "permission \<noteq> []"
    using assms(1,2) keyword_words by blast+
  have "\<not> contains_whitespace ''topic''" "\<not> contains_whitespace ''permission''"
    using keyword_words by blast+
  note kw = split_whitespace_space [OF this(1), simplified] split_whitespace_space [OF this(2), simplified]
  show ?thesis
    unfolding rule_line_def
    using split_whitespace_space [OF words(1,2)] split_whitespace_space [OF assms(3,5)] split_whitespace_space [OF assms(4,6)]
      split_whitespace_word [OF words(3,4)] kw
    by simp
qed

lemma rule_line_clean:
  assumes "directive \<in> {''user'', ''role''}" "permission \<in> {''read'', ''write'', ''readwrite'', ''deny''}"
    and "\<not> contains_whitespace name" "\<not> contains_whitespace topic"
  shows "clean_line (rule_line directive name topic permission)"
proof -
  let ?l = "rule_line directive name topic permission"
  have words: "\<not> contains_whitespace permission" "permission \<noteq> []" "(of_char (hd permission) :: nat) < 128"
      "\<not> contains_whitespace directive" "directive \<noteq> []"
    using assms(1,2) keyword_words [of permission] keyword_words [of directive] by auto
  have "ws_prefix ?l = ws_prefix directive"
    unfolding rule_line_def using ws_prefix_ascii [OF words(5), of "CHR '' ''"] by simp
  also have "\<dots> = 0"
    using words(4,5) by (cases directive) auto
  finally have "trim_start ?l = ?l"
    by (simp add: trim_start.simps [of ?l])
  moreover have "trim_end ?l = ?l"
    using trim_end_word [OF words(1-3), of "directive @ '' '' @ name @ '' '' @ ''topic '' @ topic @ '' '' @ ''permission ''"]
    by (simp add: rule_line_def)
  moreover have "CHR 0x0A \<notin> set ?l"
    using assms no_whitespace_chars [of name] no_whitespace_chars [of topic] by (auto simp: rule_line_def)
  moreover have "?l \<noteq> []" "\<not> starts_with ?l ''#''"
    using assms(1) by (auto simp: rule_line_def starts_with_def)
  ultimately show ?thesis
    by (simp add: clean_line_def trim_def)
qed

subsection \<open>Removing rules\<close>

text \<open>What a line contributes to each table depends on that table alone.\<close>

lemma load_parts_rules: "at_rules (load_parts parts t) = at_rules t @ at_rules (load_parts parts empty_tables)"
  by (simp add: load_parts_def empty_tables_def split: list.split sum.split)

lemma load_parts_others:
  assumes "at_roles t = at_roles u" "at_users t = at_users u"
  shows "at_roles (load_parts parts t) = at_roles (load_parts parts u)" "at_users (load_parts parts t) = at_users (load_parts parts u)"
  using assms by (simp_all add: load_parts_def split: list.split sum.split)

text \<open>The rules of a user that \<open>acl remove\<close> is asked to drop.\<close>

definition targeted :: "string \<Rightarrow> string option \<Rightarrow> AclRule \<Rightarrow> bool" where
  "targeted username topic r \<longleftrightarrow>
     ar_username r = username \<and> (case topic of Some t \<Rightarrow> ar_topic_pattern r = t | None \<Rightarrow> True)"

lemma removed_line:
  assumes "\<not> keeps_rule ''user'' username topic l"
  shows "filter (\<lambda>r. \<not> targeted username topic r) (at_rules (load_parts (split_whitespace l) empty_tables)) = []"
    "at_roles (load_parts (split_whitespace l) t) = at_roles t" "at_users (load_parts (split_whitespace l) t) = at_users t"
proof -
  from assms obtain name pat perm where parts: "split_whitespace l = [''user'', name, ''topic'', pat, ''permission'', perm]"
      "name = username" "\<forall>t. topic = Some t \<longrightarrow> pat = t"
    unfolding keeps_rule_def by (auto split: list.splits if_splits option.splits)
  then show "filter (\<lambda>r. \<not> targeted username topic r) (at_rules (load_parts (split_whitespace l) empty_tables)) = []"
      "at_roles (load_parts (split_whitespace l) t) = at_roles t" "at_users (load_parts (split_whitespace l) t) = at_users t"
    by (cases "Permission_from_str perm"; simp add: load_parts_def empty_tables_def targeted_def split: option.split)+
qed

lemma kept_line:
  assumes "keeps_rule ''user'' username topic l"
  shows "filter (\<lambda>r. \<not> targeted username topic r) (at_rules (load_parts (split_whitespace l) empty_tables)) =
    at_rules (load_parts (split_whitespace l) empty_tables)"
proof (cases "at_rules (load_parts (split_whitespace l) empty_tables) = []")
  case False
  then obtain name pat perm p where parts: "split_whitespace l = [''user'', name, ''topic'', pat, ''permission'', perm]"
      "Permission_from_str perm = Inr p"
    by (auto simp: load_parts_def empty_tables_def split: list.splits if_splits sum.splits)
  with assms show ?thesis
    by (auto simp: load_parts_def empty_tables_def targeted_def keeps_rule_def split: option.splits if_splits)
qed simp

lemma fold_load_filter:
  assumes "at_roles t = at_roles u" "at_users t = at_users u" "at_rules t = filter (\<lambda>r. \<not> targeted username topic r) (at_rules u)"
  shows "fold (load_parts \<circ> split_whitespace) (filter (keeps_rule ''user'' username topic) ls) t =
    (fold (load_parts \<circ> split_whitespace) ls u)
      \<lparr>at_rules := filter (\<lambda>r. \<not> targeted username topic r) (at_rules (fold (load_parts \<circ> split_whitespace) ls u))\<rparr>"
  using assms
proof (induction ls arbitrary: t u)
  case Nil
  then show ?case
    by (intro acl_tables.equality) simp_all
next
  case (Cons l ls)
  let ?p = "split_whitespace l"
  note rules = load_parts_rules [of ?p t] load_parts_rules [of ?p u]
  show ?case
  proof (cases "keeps_rule ''user'' username topic l")
    case True
    have "at_rules (load_parts ?p t) = filter (\<lambda>r. \<not> targeted username topic r) (at_rules (load_parts ?p u))"
      using Cons.prems(3) kept_line [OF True] rules by simp
    from Cons.IH [OF load_parts_others [OF Cons.prems(1,2)] this] True show ?thesis
      by simp
  next
    case False
    have "at_rules t = filter (\<lambda>r. \<not> targeted username topic r) (at_rules (load_parts ?p u))"
      using Cons.prems(3) removed_line(1) [OF False] rules by simp
    from Cons.IH [OF _ _ this] Cons.prems(1,2) removed_line(2,3) [OF False] False show ?thesis
      by simp
  qed
qed

subsection \<open>The guarantee\<close>

text \<open>
  C19: the commands do to the broker's rules what they say. After \<open>acl add\<close> with a user name and a
  pattern the broker loads the rules it loaded before followed by the new one, or the same rules when
  the line was already there, in which case the rule is among them; after \<open>acl remove\<close> it loads the same
  tables without the user's rules (for that pattern, if one is given). Roles and assignments survive
  both, whatever white space, comments and malformed lines the file had.
\<close>

theorem acl_commands_loaded:
  assumes "username \<noteq> []" "topic \<noteq> []"
    and rule: "rule = \<lparr>ar_username = username, ar_topic_pattern = topic, ar_permission = permission_named permission\<rparr>"
  shows "(handle_add username topic permission file = Some file' \<longrightarrow>
      rule \<in> set (at_rules (loaded file'))
      \<and> (loaded file' = loaded file \<or> loaded file' = (loaded file)\<lparr>at_rules := at_rules (loaded file) @ [rule]\<rparr>))
    \<and> (handle_remove user pattern file = Some file' \<longrightarrow>
      loaded file' = (loaded file)\<lparr>at_rules := filter (\<lambda>r. \<not> targeted user pattern r) (at_rules (loaded file))\<rparr>)"
proof (intro conjI impI)
  let ?line = "rule_line ''user'' username topic permission"
  assume "handle_add username topic permission file = Some file'"
  then have perm: "permission \<in> {''read'', ''write'', ''readwrite'', ''deny''}"
    and words: "\<not> contains_whitespace username" "\<not> contains_whitespace topic"
    and file': "file' = append_line ?line file"
    unfolding handle_add_def by (simp_all split: if_splits)
  have clean: "clean_line ?line"
    using rule_line_clean [OF _ perm words] by simp
  have "Permission_from_str permission = Inr (permission_named permission)"
    using perm by (auto simp: permission_named_def Permission_from_str_def ascii_lower_def Let_def)
  then have load: "load_parts (split_whitespace ?line) t = t\<lparr>at_rules := at_rules t @ [rule]\<rparr>" for t
    using split_rule_line [OF _ perm words assms(1,2), of "''user''"] by (simp add: load_parts_def rule)
  show "loaded file' = loaded file \<or> loaded file' = (loaded file)\<lparr>at_rules := at_rules (loaded file) @ [rule]\<rparr>"
    using loaded_append [OF clean, of "file"] load by (simp add: file')
  have "rule \<in> set (at_rules (loaded file))" if present: "?line \<in> set (existing_rules file)"
  proof -
    obtain pre post where lines: "existing_rules file = pre @ ?line # post"
      using present by (meson split_list)
    have grow: "set (at_rules t) \<subseteq> set (at_rules (fold (load_parts \<circ> split_whitespace) ls t))" for ls t
    proof (induction ls arbitrary: t)
      case (Cons l ls)
      have "set (at_rules t) \<subseteq> set (at_rules (load_parts (split_whitespace l) t))"
        using load_parts_rules [of "split_whitespace l" t] by simp
      then show ?case
        using Cons.IH [of "load_parts (split_whitespace l) t"] by simp
    qed simp
    show ?thesis
      unfolding loaded_existing lines
      using grow [of "load_parts (split_whitespace ?line) (fold (load_parts \<circ> split_whitespace) pre empty_tables)" post] load
      by simp
  qed
  then show "rule \<in> set (at_rules (loaded file'))"
    using loaded_append [OF clean, of "file"] load by (simp add: file')
next
  assume removed: "handle_remove user pattern file = Some file'"
  then obtain content where content: "file = Some content"
    by (cases "file") (simp_all add: handle_remove_def retain_lines_def)
  let ?kept = "filter (keeps_rule ''user'' user pattern) (read_acl_file content)"
  have "file' = Some (write_acl_file ?kept)"
    using removed content by (simp add: handle_remove_def retain_lines_def Let_def split: if_splits)
  moreover have "\<forall>l \<in> set ?kept. clean_line l"
    using read_acl_file_clean [of _ content] by auto
  ultimately have "loaded file' = fold (load_parts \<circ> split_whitespace) ?kept empty_tables"
    by (simp only: loaded_written)
  also have "\<dots> = (loaded file)\<lparr>at_rules := filter (\<lambda>r. \<not> targeted user pattern r) (at_rules (loaded file))\<rparr>"
    unfolding loaded_existing content existing_rules_def option.case
    by (rule fold_load_filter) (simp_all add: empty_tables_def)
  finally show "loaded file' = (loaded file)\<lparr>at_rules := filter (\<lambda>r. \<not> targeted user pattern r) (at_rules (loaded file))\<rparr>" .
qed

text \<open>Witness: a rule added to a missing file is what the broker loads.\<close>

theorem acl_commands_loaded_witness:
  "\<lparr>ar_username = ''bob'', ar_topic_pattern = ''a/#'', ar_permission = Permission.Read\<rparr> \<in>
     set (at_rules (loaded (append_line (rule_line ''user'' ''bob'' ''a/#'' ''read'') None)))"
proof -
  have "handle_add ''bob'' ''a/#'' ''read'' None = Some (append_line (rule_line ''user'' ''bob'' ''a/#'' ''read'') None)"
    by (simp add: handle_add_def ws_prefix_def white_space_def starts_with_def)
  moreover have "permission_named ''read'' = Permission.Read"
    by (simp add: permission_named_def Permission_from_str_def ascii_lower_def)
  ultimately show ?thesis
    using acl_commands_loaded [of "''bob''" "''a/#''" _ "''read''" None] by simp
qed

end
