(* ===== verification/Broker_Subscribe.thy ===== *)
theory Broker_Subscribe
  imports Broker_Router
begin

text \<open>
  SUBSCRIBE and UNSUBSCRIBE at the broker (\<open>broker/client_handler/subscribe.rs\<close>): validation and
  authorisation of the filters, the quota, the routes, the stored session and what happens when storing
  fails, the retained messages offered to the subscriber, and the acknowledgements. The storage is an
  argument, two functions on the stored sessions; the memory backend is the instance at hand. The
  handler belongs to a connected client. Messages are offered to channels outside this theory; event
  handlers and the streams of QUIC flows are left out.
\<close>

subsection \<open>Stored sessions\<close>

record StoredSubscription =
  st_qos :: QoS
  st_no_local :: bool
  st_retain_as_published :: bool
  st_retain_handling :: u8
  st_subscription_id :: "u32 option"
  st_protocol_version :: u8
  st_change_only :: bool
  st_flow_id :: "u64 option"

text \<open>The fields that subscribing and the expiry of a session depend on; times are in nanoseconds since the epoch.\<close>

record ClientSession =
  cs_expiry_interval :: "u32 option"
  cs_subscriptions :: "(string \<times> StoredSubscription) list"
  cs_last_seen :: nat
  cs_connection_token :: u64
  cs_connected :: bool
  cs_disconnected_at :: "u64 option"

definition ClientSession_is_expired :: "nat \<Rightarrow> ClientSession \<Rightarrow> bool" where
  "ClientSession_is_expired now s =
     (if cs_connected s then False
      else case cs_expiry_interval s of
        None \<Rightarrow> False
      | Some expiry_interval \<Rightarrow>
          let since = (case cs_disconnected_at s of Some millis \<Rightarrow> unat millis * 1000000 | None \<Rightarrow> cs_last_seen s)
          in now > since + unat expiry_interval * 1000000000)"

definition add_subscription :: "string \<Rightarrow> StoredSubscription \<Rightarrow> ClientSession \<Rightarrow> ClientSession" where
  "add_subscription topic_filter subscription s =
     s\<lparr>cs_subscriptions := AList.update topic_filter subscription (cs_subscriptions s)\<rparr>"

definition remove_subscription :: "string \<Rightarrow> ClientSession \<Rightarrow> ClientSession" where
  "remove_subscription topic_filter s =
     s\<lparr>cs_subscriptions := AList.delete topic_filter (cs_subscriptions s)\<rparr>"

type_synonym sessions = "string \<rightharpoonup> ClientSession"

record session_backend =
  sb_get_session :: "string \<Rightarrow> sessions \<Rightarrow> ClientSession option result"
  sb_update_session ::
    "string \<Rightarrow> u64 \<Rightarrow> (ClientSession \<Rightarrow> ClientSession) \<Rightarrow> sessions \<Rightarrow> sessions \<times> bool result"

definition memory_get_session :: "nat \<Rightarrow> string \<Rightarrow> sessions \<Rightarrow> ClientSession option result" where
  "memory_get_session now client_id ss =
     Inr (case ss client_id of
            Some session \<Rightarrow> if ClientSession_is_expired now session then None else Some session
          | None \<Rightarrow> None)"

definition memory_update_session ::
  "string \<Rightarrow> u64 \<Rightarrow> (ClientSession \<Rightarrow> ClientSession) \<Rightarrow> sessions \<Rightarrow> sessions \<times> bool result" where
  "memory_update_session client_id connection_token update ss =
     (case ss client_id of
        Some session \<Rightarrow>
          if cs_connection_token session = connection_token
          then (ss(client_id \<mapsto> update session), Inr True) else (ss, Inr False)
      | None \<Rightarrow> (ss, Inr False))"

definition memory_backend :: "nat \<Rightarrow> session_backend" where
  "memory_backend now = \<lparr>sb_get_session = memory_get_session now, sb_update_session = memory_update_session\<rparr>"

subsection \<open>Routes of a client\<close>

definition stored_subscription_request :: "string \<Rightarrow> string \<Rightarrow> StoredSubscription \<Rightarrow> SubscriptionRequest" where
  "stored_subscription_request client_id topic_filter stored =
     \<lparr>sr_client_id = client_id, sr_topic_filter = topic_filter, sr_qos = st_qos stored,
      sr_subscription_id = st_subscription_id stored, sr_no_local = st_no_local stored,
      sr_retain_as_published = st_retain_as_published stored,
      sr_retain_handling = st_retain_handling stored,
      sr_protocol_version =
        (case ProtocolVersion_try_from (st_protocol_version stored) of Some v \<Rightarrow> v | None \<Rightarrow> V5),
      sr_change_only = st_change_only stored, sr_flow_id = st_flow_id stored\<rparr>"

fun subscribe_each :: "SubscriptionRequest list \<Rightarrow> MessageRouter \<Rightarrow> MessageRouter \<times> unit result" where
  "subscribe_each [] r = (r, Inr ())"
| "subscribe_each (request # requests) r =
     (case subscribe_as None request r of
        Inl e \<Rightarrow> (r, Inl e)
      | Inr (r, _) \<Rightarrow> subscribe_each requests r)"

definition set_client_subscriptions ::
  "string \<Rightarrow> ClientSession option \<Rightarrow> MessageRouter \<Rightarrow> MessageRouter \<times> unit result" where
  "set_client_subscriptions client_id session r =
     (let requests = (case session of
            Some session \<Rightarrow> map (\<lambda>(flt, stored). stored_subscription_request client_id flt stored) (cs_subscriptions session)
          | None \<Rightarrow> []);
          keep = map (\<lambda>request. case parse_shared_subscription (sr_topic_filter request) of
            (flt, share_group) \<Rightarrow> (flt, (client_id, share_group, sr_flow_id request))) requests;
          P = (\<lambda>flt sub. rs_client_id sub \<noteq> client_id \<or> (flt, Subscription_identity sub) \<in> set keep)
      in subscribe_each requests
           (r\<lparr>mr_exact_subscriptions := retain_routes P (mr_exact_subscriptions r),
              mr_wildcard_subscriptions := retain_routes P (mr_wildcard_subscriptions r)\<rparr>))"

definition subscription_count_for_client :: "string \<Rightarrow> MessageRouter \<Rightarrow> nat" where
  "subscription_count_for_client client_id r =
     length (filter (\<lambda>sub. rs_client_id sub = client_id) (concat (map snd (mr_exact_subscriptions r))))
     + length (filter (\<lambda>sub. rs_client_id sub = client_id) (concat (map snd (mr_wildcard_subscriptions r))))"

definition has_subscription :: "string \<Rightarrow> string \<Rightarrow> MessageRouter \<Rightarrow> bool" where
  "has_subscription client_id topic_filter r =
     (case parse_shared_subscription topic_filter of (actual_filter, share_group) \<Rightarrow>
        (case map_of (table_of actual_filter r) actual_filter of
           Some subs \<Rightarrow> list_ex (\<lambda>sub. rs_client_id sub = client_id \<and> rs_share_group sub = share_group) subs
         | None \<Rightarrow> False))"

subsection \<open>The handler\<close>

record SubscribeHandler = ClientHandler +
  sh_protocol_version :: u8
  sh_generation :: u64
  sh_max_subscriptions_per_client :: nat
  sh_change_only_enabled :: bool
  sh_change_only_patterns :: "string list"
  sh_pending_external_flow_id :: "u64 option"
  sh_session :: "ClientSession option"
  sh_disconnect_reason :: "ReasonCode option"

definition send_packet ::
  "wire_ops \<Rightarrow> (Packet \<Rightarrow> unit result) \<Rightarrow> SubscribeHandler \<Rightarrow> Packet \<Rightarrow> Packet list \<times> unit result" where
  "send_packet L wr h packet =
     (case write_to_client L wr (ClientHandler.truncate h) packet of
        Inl e \<Rightarrow> ([], Inl e) | Inr written \<Rightarrow> (written, Inr ()))"

definition validate_subscribe_filter ::
  "wire_ops \<Rightarrow> (Packet \<Rightarrow> unit result) \<Rightarrow> (string \<Rightarrow> string option \<Rightarrow> string \<Rightarrow> bool) \<Rightarrow> SubscribeHandler
     \<Rightarrow> TopicFilter \<Rightarrow> Packet list \<times> SubAckReasonCode option result" where
  "validate_subscribe_filter L wr authorize_subscribe h flt =
     (if so_no_local (tf_options flt) \<and> starts_with (tf_filter flt) ''$share/'' then
        (if sh_protocol_version h = 5 then
           (case send_packet L wr h (Packet.Disconnect (DisconnectPacket_new ReasonCode.ProtocolError)) of
              (written, Inl e) \<Rightarrow> (written, Inl e)
            | (written, Inr _) \<Rightarrow> (written, Inl MqttError.ProtocolError))
         else ([], Inl MqttError.ProtocolError))
      else
        case parse_shared_subscription (tf_filter flt) of (underlying, share_group) \<Rightarrow>
          if \<not> is_ok (validate_topic_filter underlying)
          then ([], Inr (Some SubAckReasonCode.TopicFilterInvalid))
          else if starts_with (tf_filter flt) ''$share/''
            \<and> (case share_group of
                 None \<Rightarrow> True
               | Some grp \<Rightarrow> str_contains grp (CHR ''+'') \<or> str_contains grp (CHR ''#''))
          then ([], Inr (Some SubAckReasonCode.TopicFilterInvalid))
          else if \<not> authorize_subscribe (ch_client_id h) (ch_user_id h) (tf_filter flt)
          then ([], Inr (Some SubAckReasonCode.NotAuthorized))
          else ([], Inr None))"

fun validate_filters ::
  "wire_ops \<Rightarrow> (Packet \<Rightarrow> unit result) \<Rightarrow> (string \<Rightarrow> string option \<Rightarrow> string \<Rightarrow> bool) \<Rightarrow> SubscribeHandler
     \<Rightarrow> TopicFilter list \<Rightarrow> Packet list \<times> SubAckReasonCode option list result" where
  "validate_filters L wr authorize_subscribe h [] = ([], Inr [])"
| "validate_filters L wr authorize_subscribe h (flt # flts) =
     (case validate_subscribe_filter L wr authorize_subscribe h flt of
        (written, Inl e) \<Rightarrow> (written, Inl e)
      | (written, Inr code) \<Rightarrow>
          (case validate_filters L wr authorize_subscribe h flts of
             (written', Inl e) \<Rightarrow> (written @ written', Inl e)
           | (written', Inr codes) \<Rightarrow> (written @ written', Inr (code # codes))))"

definition check_subscription_quota ::
  "SubscribeHandler \<Rightarrow> TopicFilter \<Rightarrow> MessageRouter \<Rightarrow> SubAckReasonCode option" where
  "check_subscription_quota h flt r =
     (if sh_max_subscriptions_per_client h > 0
        \<and> \<not> has_subscription (ch_client_id h) (tf_filter flt) r
        \<and> subscription_count_for_client (ch_client_id h) r \<ge> sh_max_subscriptions_per_client h
      then Some SubAckReasonCode.QuotaExceeded else None)"

definition stored_for :: "SubscribeHandler \<Rightarrow> u32 option \<Rightarrow> TopicFilter \<Rightarrow> StoredSubscription" where
  "stored_for h subscription_id flt =
     (let qos = QoS_to_u8 (so_qos (tf_options flt));
          granted_qos = (if qos > ch_maximum_qos h then ch_maximum_qos h else qos)
      in \<lparr>st_qos = QoS_from_u8 granted_qos, st_no_local = so_no_local (tf_options flt),
          st_retain_as_published = so_retain_as_published (tf_options flt),
          st_retain_handling = RetainHandling_to_u8 (so_retain_handling (tf_options flt)),
          st_subscription_id = subscription_id, st_protocol_version = sh_protocol_version h,
          st_change_only = (sh_change_only_enabled h
            \<and> list_ex (topic_matches_filter (tf_filter flt)) (sh_change_only_patterns h)),
          st_flow_id = sh_pending_external_flow_id h\<rparr>)"

record AcceptedFilter =
  af_filter :: TopicFilter
  af_stored :: StoredSubscription
  af_is_new :: bool

text \<open>The reason codes and the accepted filters; \<open>None\<close> when the session was taken over.\<close>

fun route_subscriptions ::
  "SubscribeHandler \<Rightarrow> u32 option \<Rightarrow> (TopicFilter \<times> SubAckReasonCode option) list \<Rightarrow> MessageRouter
     \<Rightarrow> MessageRouter \<times> (SubAckReasonCode list \<times> AcceptedFilter list) option result" where
  "route_subscriptions h subscription_id [] r = (r, Inr (Some ([], [])))"
| "route_subscriptions h subscription_id ((flt, reason_code) # rest) r =
     (let refused = (\<lambda>code.
            case route_subscriptions h subscription_id rest r of
              (r, Inr (Some (codes, routed))) \<Rightarrow> (r, Inr (Some (code # codes, routed)))
            | other \<Rightarrow> other)
      in case reason_code of
           Some code \<Rightarrow> refused code
         | None \<Rightarrow>
             (case check_subscription_quota h flt r of
                Some code \<Rightarrow> refused code
              | None \<Rightarrow>
                  let stored = stored_for h subscription_id flt in
                  (case subscribe_as (Some (sh_generation h))
                          (stored_subscription_request (ch_client_id h) (tf_filter flt) stored) r of
                     Inl e \<Rightarrow> (r, Inl e)
                   | Inr (r, outcome) \<Rightarrow>
                       if outcome = Subscribed.Fenced then (r, Inr None)
                       else
                         case route_subscriptions h subscription_id rest r of
                           (r, Inr (Some (codes, routed))) \<Rightarrow>
                             (r, Inr (Some (SubAckReasonCode_from_qos (st_qos stored) # codes,
                                \<lparr>af_filter = flt, af_stored = stored, af_is_new = (outcome = New)\<rparr> # routed)))
                         | other \<Rightarrow> other)))"

definition update_stored_session ::
  "session_backend \<Rightarrow> SubscribeHandler \<Rightarrow> (ClientSession \<Rightarrow> ClientSession) \<Rightarrow> sessions option
     \<Rightarrow> sessions option \<times> unit result" where
  "update_stored_session B h update storage =
     (case storage of
        None \<Rightarrow> (None, Inr ())
      | Some ss \<Rightarrow>
          (case sb_update_session B (ch_client_id h) (sh_generation h) update ss of
             (ss, Inl e) \<Rightarrow> (Some ss, Inl e)
           | (ss, Inr _) \<Rightarrow> (Some ss, Inr ())))"

definition restore_stored_routes ::
  "session_backend \<Rightarrow> sessions option \<Rightarrow> SubscribeHandler \<Rightarrow> MessageRouter
     \<Rightarrow> SubscribeHandler \<times> MessageRouter \<times> unit result" where
  "restore_stored_routes B storage h r =
     (case (case storage of Some ss \<Rightarrow> sb_get_session B (ch_client_id h) ss | None \<Rightarrow> Inr None) of
        Inl e \<Rightarrow> (h, r, Inl e)
      | Inr stored \<Rightarrow>
          (case set_client_subscriptions (ch_client_id h) stored r of
             (r, Inl e) \<Rightarrow> (h, r, Inl e)
           | (r, Inr _) \<Rightarrow>
               ((case (sh_session h, stored) of
                   (Some session, Some stored) \<Rightarrow>
                     h\<lparr>sh_session := Some (session\<lparr>cs_subscriptions := cs_subscriptions stored\<rparr>)\<rparr>
                 | _ \<Rightarrow> h), r, Inr ())))"

definition persist_or_restore_routes ::
  "wire_ops \<Rightarrow> (Packet \<Rightarrow> unit result) \<Rightarrow> session_backend \<Rightarrow> (ClientSession \<Rightarrow> ClientSession)
     \<Rightarrow> SubscribeHandler \<Rightarrow> MessageRouter \<Rightarrow> sessions option
     \<Rightarrow> SubscribeHandler \<times> MessageRouter \<times> sessions option \<times> Packet list \<times> unit result" where
  "persist_or_restore_routes L wr B update h r storage =
     (case update_stored_session B h update storage of
        (storage, Inr _) \<Rightarrow> (h, r, storage, [], Inr ())
      | (storage, Inl e) \<Rightarrow>
          (case restore_stored_routes B storage h r of
             (h, r, Inl e') \<Rightarrow> (h, r, storage, [], Inl e')
           | (h, r, Inr _) \<Rightarrow>
               let h = h\<lparr>sh_disconnect_reason := Some ReasonCode.UnspecifiedError\<rparr> in
               (h, r, storage,
                (if sh_protocol_version h = 5
                 then fst (send_packet L wr h (Packet.Disconnect (DisconnectPacket_new ReasonCode.UnspecifiedError)))
                 else []), Inl e)))"

definition deliver_retained_for_filter ::
  "nat \<Rightarrow> MessageRouter \<Rightarrow> u32 option \<Rightarrow> AcceptedFilter \<Rightarrow> PublishPacket list" where
  "deliver_retained_for_filter now r subscription_id accepted =
     (let options = tf_options (af_filter accepted);
          should_send = (case so_retain_handling options of
            RetainHandling.SendAtSubscribe \<Rightarrow> True
          | RetainHandling.SendAtSubscribeIfNew \<Rightarrow> af_is_new accepted
          | RetainHandling.DoNotSend \<Rightarrow> False)
      in if should_send then
           map (\<lambda>msg. msg\<lparr>pub_retain := True, pub_qos := effective_qos (pub_qos msg) (so_qos options),
                  pub_properties := set_opt Properties_set_subscription_identifier subscription_id
                    (pub_properties msg)\<rparr>)
             (get_retained_messages now (tf_filter (af_filter accepted)) r)
         else [])"

definition suback_for :: "SubscribeHandler \<Rightarrow> u16 \<Rightarrow> SubAckReasonCode list \<Rightarrow> SubAckPacket" where
  "suback_for h packet_id reason_codes =
     (let suback = \<lparr>sak_packet_id = packet_id, sak_reason_codes = reason_codes, sak_properties = Properties_new,
            sak_protocol_version = (if sh_protocol_version h = 4 then 4 else 5)\<rparr>
      in if sh_protocol_version h = 5 \<and> ch_request_problem_information h then
           (if SubAckReasonCode.NotAuthorized \<in> set reason_codes
            then suback\<lparr>sak_properties := Properties_set_reason_string (sak_properties suback)
                   ''One or more subscriptions not authorized''\<rparr>
            else if SubAckReasonCode.QuotaExceeded \<in> set reason_codes
            then suback\<lparr>sak_properties := Properties_set_reason_string (sak_properties suback)
                   ''Subscription quota exceeded''\<rparr>
            else suback)
         else suback)"

definition store_accepted :: "AcceptedFilter list \<Rightarrow> ClientSession \<Rightarrow> ClientSession" where
  "store_accepted routed session =
     fold (\<lambda>a. add_subscription (tf_filter (af_filter a)) (af_stored a)) routed session"

type_synonym subscribe_handled =
  "SubscribeHandler \<times> MessageRouter \<times> sessions option \<times> PublishPacket list \<times> Packet list \<times> unit result"

definition handle_subscribe ::
  "wire_ops \<Rightarrow> (Packet \<Rightarrow> unit result) \<Rightarrow> session_backend \<Rightarrow> (string \<Rightarrow> string option \<Rightarrow> string \<Rightarrow> bool)
     \<Rightarrow> nat \<Rightarrow> SubscribePacket \<Rightarrow> SubscribeHandler \<Rightarrow> MessageRouter \<Rightarrow> sessions option \<Rightarrow> subscribe_handled" where
  "handle_subscribe L wr B authorize_subscribe now subscribe h r storage =
     (case validate_filters L wr authorize_subscribe h (sub_filters subscribe) of
        (written, Inl e) \<Rightarrow> (h, r, storage, [], written, Inl e)
      | (written, Inr codes) \<Rightarrow>
          let subscription_id = Properties_get_subscription_identifier (sub_properties subscribe) in
          (case route_subscriptions h subscription_id (zip (sub_filters subscribe) codes) r of
             (r, Inl e) \<Rightarrow>
               (case restore_stored_routes B storage h r of
                  (h, r, Inl e') \<Rightarrow> (h, r, storage, [], written, Inl e')
                | (h, r, Inr _) \<Rightarrow> (h, r, storage, [], written, Inl e))
           | (r, Inr None) \<Rightarrow> (h, r, storage, [], written, Inr ())
           | (r, Inr (Some (reason_codes, routed))) \<Rightarrow>
               (case (if routed = [] then (h, r, storage, [], Inr ())
                      else persist_or_restore_routes L wr B (store_accepted routed) h r storage) of
                  (h, r, storage, written', Inl e) \<Rightarrow> (h, r, storage, [], written @ written', Inl e)
                | (h, r, storage, written', Inr _) \<Rightarrow>
                    let h = h\<lparr>sh_session := map_option (store_accepted routed) (sh_session h)\<rparr>;
                        offered = concat (map (deliver_retained_for_filter now r subscription_id) routed)
                    in (case send_packet L wr h (Packet.SubAck (suback_for h (sub_packet_id subscribe) reason_codes)) of
                          (sent, res) \<Rightarrow> (h, r, storage, offered, written @ written' @ sent, res)))))"

fun unsubscribe_each ::
  "SubscribeHandler \<Rightarrow> string list \<Rightarrow> MessageRouter \<Rightarrow> MessageRouter \<times> (UnsubAckReasonCode list \<times> string list) option" where
  "unsubscribe_each h [] r = (r, Some ([], []))"
| "unsubscribe_each h (topic_filter # rest) r =
     (case unsubscribe_as (Some (sh_generation h)) (ch_client_id h) topic_filter (sh_pending_external_flow_id h) r of
        (r, outcome) \<Rightarrow>
          if outcome = Unsubscribed.Fenced then (r, None)
          else
            case unsubscribe_each h rest r of
              (r, Some (codes, removed)) \<Rightarrow>
                if outcome = Removed
                then (r, Some (UnsubAckReasonCode.Success # codes, topic_filter # removed))
                else (r, Some (UnsubAckReasonCode.NoSubscriptionExisted # codes, removed))
            | (r, None) \<Rightarrow> (r, None))"

definition handle_unsubscribe ::
  "wire_ops \<Rightarrow> (Packet \<Rightarrow> unit result) \<Rightarrow> session_backend \<Rightarrow> UnsubscribePacket \<Rightarrow> SubscribeHandler
     \<Rightarrow> MessageRouter \<Rightarrow> sessions option
     \<Rightarrow> SubscribeHandler \<times> MessageRouter \<times> sessions option \<times> Packet list \<times> unit result" where
  "handle_unsubscribe L wr B unsubscribe h r storage =
     (case unsubscribe_each h (uns_filters unsubscribe) r of
        (r, None) \<Rightarrow> (h, r, storage, [], Inr ())
      | (r, Some (reason_codes, removed)) \<Rightarrow>
          (case (if removed = [] then (h, r, storage, [], Inr ())
                 else persist_or_restore_routes L wr B (fold remove_subscription removed) h r storage) of
             (h, r, storage, written, Inl e) \<Rightarrow> (h, r, storage, written, Inl e)
           | (h, r, storage, written, Inr _) \<Rightarrow>
               let h = h\<lparr>sh_session := map_option (fold remove_subscription removed) (sh_session h)\<rparr>;
                   unsuback = \<lparr>uak_packet_id = uns_packet_id unsubscribe, uak_reason_codes = reason_codes,
                     uak_properties = Properties_new,
                     uak_protocol_version = (if sh_protocol_version h = 4 then 4 else 5)\<rparr>
               in (case send_packet L wr h (Packet.UnsubAck unsuback) of
                     (sent, res) \<Rightarrow> (h, r, storage, written @ sent, res))))"

subsection \<open>Storage\<close>

text \<open>
  What the handlers rely on: an update reaches the session of the connection that owns it, changes
  nothing else, and changes nothing when it fails; a connected session is never read as expired.
\<close>

locale session_store =
  fixes B :: session_backend
  assumes updated: "sb_update_session B c token update ss = (ss', Inr True) \<Longrightarrow>
      \<exists>s. ss c = Some s \<and> cs_connection_token s = token \<and> ss' = ss(c \<mapsto> update s)"
    and not_owner: "sb_update_session B c token update ss = (ss', Inr False) \<Longrightarrow>
      ss' = ss \<and> (\<forall>s. ss c = Some s \<longrightarrow> cs_connection_token s \<noteq> token)"
    and failed: "sb_update_session B c token update ss = (ss', Inl e) \<Longrightarrow> ss' = ss"
    and connected_kept: "sb_get_session B c ss = Inr v \<Longrightarrow> ss c = Some s \<Longrightarrow> cs_connected s \<Longrightarrow> v = Some s"
begin

lemma owner_update:
  assumes "update_stored_session B h update (Some ss) = (storage, res)"
    and "ss (ch_client_id h) = Some s" "cs_connection_token s = sh_generation h"
  shows "case res of
      Inr _ \<Rightarrow> storage = Some (ss(ch_client_id h \<mapsto> update s))
    | Inl _ \<Rightarrow> storage = Some ss"
proof -
  obtain ss' r where step: "sb_update_session B (ch_client_id h) (sh_generation h) update ss = (ss', r)"
    by (cases "sb_update_session B (ch_client_id h) (sh_generation h) update ss")
  show ?thesis
  proof (cases r)
    case (Inl e)
    then show ?thesis
      using assms(1) step failed by (auto simp: update_stored_session_def)
  next
    case (Inr b)
    then show ?thesis
      using assms step updated [of "ch_client_id h" "sh_generation h" update ss ss']
        not_owner [of "ch_client_id h" "sh_generation h" update ss ss']
      by (cases b) (auto simp: update_stored_session_def)
  qed
qed

end

interpretation mem: session_store "memory_backend now"
  by unfold_locales
    (auto simp: memory_backend_def memory_update_session_def memory_get_session_def ClientSession_is_expired_def
      split: option.splits if_splits)

end
