(* ===== verification/Subscribe_Routes.thy ===== *)
theory Subscribe_Routes
  imports Broker_Subscribe
begin

text \<open>
  What the handlers of \<open>Broker_Subscribe\<close> guarantee: who a new route belongs to and who authorised it,
  what each reason code says, and that the routes of a client stay those of its stored session, also
  when storing fails.
\<close>

subsection \<open>Routes and stored subscriptions\<close>

definition stored_key :: "string \<Rightarrow> string \<times> StoredSubscription \<Rightarrow> string \<times> identity" where
  "stored_key c e =
     (fst (parse_shared_subscription (fst e)), (c, snd (parse_shared_subscription (fst e)), st_flow_id (snd e)))"

definition stored_route :: "string \<Rightarrow> string \<times> StoredSubscription \<Rightarrow> Subscription" where
  "stored_route c e =
     subscription_of (stored_subscription_request c (fst e) (snd e)) (snd (parse_shared_subscription (fst e)))"

text \<open>The routes of a client are those of its stored subscriptions, none of which is bound to a flow.\<close>

definition session_ok :: "ClientSession \<Rightarrow> bool" where
  "session_ok s \<longleftrightarrow> distinct (map fst (cs_subscriptions s))
     \<and> (\<forall>e \<in> set (cs_subscriptions s). st_flow_id (snd e) = None \<and> st_retain_handling (snd e) \<le> 2)"

definition stored_table :: "string \<Rightarrow> (string \<times> StoredSubscription) list \<Rightarrow> sub_table" where
  "stored_table c subs = map_of (map (\<lambda>e. (stored_key c e, stored_route c e)) subs)"

definition in_step :: "string \<Rightarrow> MessageRouter \<Rightarrow> ClientSession \<Rightarrow> bool" where
  "in_step c r s \<longleftrightarrow> (\<forall>k. fst (snd k) = c \<longrightarrow> held r k = stored_table c (cs_subscriptions s) k)"

lemma parse_eq:
  "parse_shared_subscription f = (a, share) \<Longrightarrow>
     f = (case share of Some grp \<Rightarrow> ''$share/'' @ grp @ ''/'' @ a | None \<Rightarrow> a)"
  unfolding parse_shared_subscription_def
  by (cases "Option.bind (strip_prefix ''$share/'' f) (split_once (CHR ''/''))") (auto simp: shared_parts simp del: bind_eq_Some_conv)

lemma parse_inject: "parse_shared_subscription f = parse_shared_subscription g \<Longrightarrow> f = g"
  using parse_eq [of f] parse_eq [of g] by (cases "parse_shared_subscription g") metis

lemma stored_key_inject:
  assumes "st_flow_id (snd e) = st_flow_id (snd e')"
  shows "stored_key c e = stored_key c e' \<longleftrightarrow> fst e = fst e'"
  using assms parse_inject [of "fst e" "fst e'"] by (auto simp: stored_key_def prod_eq_iff)

lemma stored_key_client [simp]: "fst (snd (stored_key c e)) = c"
  by (simp add: stored_key_def)

lemma stored_table_update:
  assumes "\<forall>e \<in> set subs. st_flow_id (snd e) = None" "st_flow_id st = None"
  shows "stored_table c (AList.update f st subs) = (stored_table c subs)(stored_key c (f, st) \<mapsto> stored_route c (f, st))"
  using assms(1)
proof (induction subs)
  case (Cons e subs)
  then have "stored_key c e = stored_key c (f, st) \<longleftrightarrow> fst e = f"
    using stored_key_inject [of e "(f, st)" c] assms(2) by simp
  with Cons show ?case
    by (cases e) (auto simp: stored_table_def fun_upd_twist)
qed (simp add: stored_table_def)

lemma stored_table_delete:
  assumes "\<forall>e \<in> set subs. st_flow_id (snd e) = None" "parse_shared_subscription f = (flt, share)"
  shows "stored_table c (AList.delete f subs) = (stored_table c subs)((flt, (c, share, None)) := None)"
  using assms(1)
proof (induction subs)
  case (Cons e subs)
  then have "stored_key c e = (flt, (c, share, None)) \<longleftrightarrow> fst e = f"
    using parse_inject [of "fst e" f] assms(2) by (auto simp: stored_key_def prod_eq_iff)
  with Cons show ?case
    by (cases e) (auto simp: stored_table_def fun_upd_twist)
qed (simp add: stored_table_def)

lemma session_ok_add:
  assumes "session_ok s" "st_flow_id st = None" "st_retain_handling st \<le> 2"
  shows "session_ok (add_subscription f st s)"
  using assms by (simp add: session_ok_def add_subscription_def distinct_update list_all_alist_update flip: list_all_iff)

lemma session_ok_remove: "session_ok s \<Longrightarrow> session_ok (remove_subscription f s)"
  by (simp add: session_ok_def remove_subscription_def distinct_delete list_all_alist_delete flip: list_all_iff)

subsection \<open>Subscribing\<close>

abbreviation current :: "SubscribeHandler \<Rightarrow> MessageRouter \<Rightarrow> bool" where
  "current h r \<equiv> generation_is_current (Some (sh_generation h)) (ch_client_id h) r"

lemma request_sel [simp]:
  "sr_client_id (stored_subscription_request c f st) = c" "sr_topic_filter (stored_subscription_request c f st) = f"
  "sr_flow_id (stored_subscription_request c f st) = st_flow_id st"
  "sr_retain_handling (stored_subscription_request c f st) = st_retain_handling st"
  by (simp_all add: stored_subscription_request_def)

lemma subscribe_stored:
  assumes "router_ok r" "st_retain_handling st \<le> 2"
  obtains r' outcome where "subscribe_as generation (stored_subscription_request c f st) r = Inr (r', outcome)"
    "router_ok r'" "mr_clients r' = mr_clients r" "outcome = Subscribed.Fenced \<longleftrightarrow> \<not> generation_is_current generation c r"
    "outcome = Subscribed.Fenced \<Longrightarrow> r' = r"
    "outcome \<noteq> Subscribed.Fenced \<Longrightarrow> held r' = (held r)(stored_key c (f, st) \<mapsto> stored_route c (f, st))"
proof -
  let ?req = "stored_subscription_request c f st"
  obtain flt share where parse: "parse_shared_subscription f = (flt, share)"
    by (cases "parse_shared_subscription f")
  have "\<not> 2 < sr_retain_handling ?req"
    using assms(2) by (simp add: not_less)
  then obtain r' outcome where step: "subscribe_as generation ?req r = Inr (r', outcome)"
    by (cases "subscribe_as generation ?req r") (auto simp: subscribe_as_def Let_def split: prod.splits if_splits option.splits)
  note facts = subscribe_facts [OF assms(1) step, of flt share]
  have "outcome = Subscribed.Fenced \<longleftrightarrow> \<not> generation_is_current generation c r" "outcome = Subscribed.Fenced \<longrightarrow> r' = r"
      "mr_clients r' = mr_clients r"
    using step parse
    by (auto simp: subscribe_as_def Let_def with_table_def put_subscription_def split: prod.splits if_splits option.splits)
  with step facts parse show ?thesis
    by (intro that [OF step]) (simp_all add: stored_key_def stored_route_def)
qed

definition accepted_entry :: "AcceptedFilter \<Rightarrow> string \<times> StoredSubscription" where
  "accepted_entry a = (tf_filter (af_filter a), af_stored a)"

definition put_routes :: "string \<Rightarrow> (string \<times> StoredSubscription) list \<Rightarrow> sub_table \<Rightarrow> sub_table" where
  "put_routes c es T = fold (\<lambda>e T. T(stored_key c e \<mapsto> stored_route c e)) es T"

lemma put_routes_simps [simp]:
  "put_routes c [] T = T"
  "put_routes c (e # es) T = put_routes c es (T(stored_key c e \<mapsto> stored_route c e))"
  by (simp_all add: put_routes_def)

lemma put_routes_at:
  "put_routes c es T k = (if \<exists>e \<in> set es. stored_key c e = k
     then Some (stored_route c (last (filter (\<lambda>e. stored_key c e = k) es))) else T k)"
proof (induction es arbitrary: T)
  case (Cons e es)
  have "filter (\<lambda>e. stored_key c e = k) es = [] \<longleftrightarrow> \<not> (\<exists>e \<in> set es. stored_key c e = k)"
    by (auto simp: filter_empty_conv)
  with Cons show ?case by auto
qed simp

lemma stored_for_ok: "st_retain_handling (stored_for h sid flt) \<le> 2"
  by (cases "so_retain_handling (tf_options flt)") (simp_all add: stored_for_def Let_def)

text \<open>What a reason code says of its filter, given what validation said and what was routed.\<close>

definition explained ::
  "SubscribeHandler \<Rightarrow> AcceptedFilter list \<Rightarrow> TopicFilter \<times> SubAckReasonCode option \<Rightarrow> SubAckReasonCode \<Rightarrow> bool" where
  "explained h routed item code \<longleftrightarrow>
     snd item = Some code
     \<or> snd item = None \<and> code = SubAckReasonCode.QuotaExceeded \<and> 0 < sh_max_subscriptions_per_client h
     \<or> snd item = None \<and> (\<exists>a \<in> set routed. af_filter a = fst item \<and> code = SubAckReasonCode_from_qos (st_qos (af_stored a)))"

lemma explained_mono: "explained h routed item code \<Longrightarrow> set routed \<subseteq> set routed' \<Longrightarrow> explained h routed' item code"
  by (auto simp: explained_def)

definition routed_as ::
  "SubscribeHandler \<Rightarrow> u32 option \<Rightarrow> (TopicFilter \<times> SubAckReasonCode option) list \<Rightarrow> MessageRouter \<Rightarrow> MessageRouter
     \<Rightarrow> SubAckReasonCode list \<Rightarrow> AcceptedFilter list \<Rightarrow> bool" where
  "routed_as h sid items r r' codes routed \<longleftrightarrow>
     router_ok r' \<and> mr_clients r' = mr_clients r \<and> held r' = put_routes (ch_client_id h) (map accepted_entry routed) (held r)
     \<and> list_all2 (explained h routed) items codes \<and> (routed \<noteq> [] \<longrightarrow> current h r)
     \<and> (\<forall>a \<in> set routed. af_stored a = stored_for h sid (af_filter a) \<and> (af_filter a, None) \<in> set items)"

lemma routed_as_refused:
  assumes "routed_as h sid items r r' codes routed"
    and "snd item = Some code \<or> snd item = None \<and> check_subscription_quota h (fst item) r0 = Some code"
  shows "routed_as h sid (item # items) r r' (code # codes) routed"
  using assms unfolding routed_as_def
  by (auto simp: explained_def check_subscription_quota_def split: if_splits)

lemma routed_as_accepted:
  assumes "routed_as h sid items r1 r' codes routed" "current h r" "mr_clients r1 = mr_clients r"
    and "held r1 = (held r)(stored_key (ch_client_id h) (accepted_entry a) \<mapsto> stored_route (ch_client_id h) (accepted_entry a))"
    and "af_stored a = stored_for h sid (af_filter a)"
  shows "routed_as h sid ((af_filter a, None) # items) r r'
    (SubAckReasonCode_from_qos (st_qos (af_stored a)) # codes) (a # routed)"
proof -
  have "list_all2 (explained h (a # routed)) items codes"
    using assms(1) unfolding routed_as_def
    by (elim conjE list_all2_mono) (auto intro: explained_mono)
  then show ?thesis
    using assms unfolding routed_as_def by (auto simp: explained_def)
qed

lemma route_subscriptions_result:
  assumes "router_ok r"
  shows "(current h r \<longrightarrow> (\<exists>r' codes routed. route_subscriptions h sid items r = (r', Inr (Some (codes, routed)))
        \<and> routed_as h sid items r r' codes routed))
    \<and> (\<not> current h r \<longrightarrow> (\<exists>res. route_subscriptions h sid items r = (r, res)
        \<and> (res = Inr None \<or> (\<exists>codes. res = Inr (Some (codes, [])) \<and> routed_as h sid items r r codes []))))"
  using assms
proof (induction items arbitrary: r)
  case Nil
  then show ?case by (simp add: routed_as_def)
next
  case (Cons item items)
  obtain flt rc where item: "item = (flt, rc)" by (cases item)
  show ?case
  proof (cases "rc = None \<and> check_subscription_quota h flt r = None")
    case False
    then obtain code where refused: "rc = Some code \<or> rc = None \<and> check_subscription_quota h flt r = Some code"
      by (cases rc) auto
    then have step: "route_subscriptions h sid (item # items) r =
        (case route_subscriptions h sid items r of
           (r, Inr (Some (codes, routed))) \<Rightarrow> (r, Inr (Some (code # codes, routed))) | other \<Rightarrow> other)"
      by (auto simp: item Let_def)
    have more: "routed_as h sid (item # items) r r' (code # codes) routed" if "routed_as h sid items r r' codes routed"
      for r' codes routed
      using routed_as_refused [OF that, of item code r] refused by (simp add: item)
    note rest = Cons.IH [OF Cons.prems]
    show ?thesis
    proof (cases "current h r")
      case True
      then obtain r' codes routed where "route_subscriptions h sid items r = (r', Inr (Some (codes, routed)))"
        "routed_as h sid items r r' codes routed"
        using rest by blast
      with True more show ?thesis unfolding step by simp
    next
      case False
      then obtain res where "route_subscriptions h sid items r = (r, res)"
        "res = Inr None \<or> (\<exists>codes. res = Inr (Some (codes, [])) \<and> routed_as h sid items r r codes [])"
        using rest by blast
      with False more show ?thesis unfolding step by auto
    qed
  next
    case True
    let ?st = "stored_for h sid flt"
    obtain r1 outcome where sub: "subscribe_as (Some (sh_generation h))
        (stored_subscription_request (ch_client_id h) (tf_filter flt) ?st) r = Inr (r1, outcome)"
      "router_ok r1" "mr_clients r1 = mr_clients r" "outcome = Subscribed.Fenced \<longleftrightarrow> \<not> current h r"
      "outcome = Subscribed.Fenced \<Longrightarrow> r1 = r"
      "outcome \<noteq> Subscribed.Fenced \<Longrightarrow> held r1 = (held r)(stored_key (ch_client_id h) (tf_filter flt, ?st)
         \<mapsto> stored_route (ch_client_id h) (tf_filter flt, ?st))"
      using subscribe_stored [OF Cons.prems stored_for_ok] by metis
    show ?thesis
    proof (cases "current h r")
      case False
      then show ?thesis
        using True sub by (simp add: item Let_def)
    next
      case cur: True
      let ?a = "\<lparr>af_filter = flt, af_stored = ?st, af_is_new = (outcome = New)\<rparr>"
      have "current h r1"
        using cur sub(3) by (simp add: generation_is_current_def)
      then obtain r' codes routed where rest: "route_subscriptions h sid items r1 = (r', Inr (Some (codes, routed)))"
        "routed_as h sid items r1 r' codes routed"
        using Cons.IH [OF sub(2)] by blast
      have "routed_as h sid (item # items) r r' (SubAckReasonCode_from_qos (st_qos ?st) # codes) (?a # routed)"
        using routed_as_accepted [OF rest(2) cur sub(3), of ?a] sub(4,6) cur True by (simp add: accepted_entry_def item)
      then show ?thesis
        using True sub(1,4) cur rest(1) by (simp add: item Let_def)
    qed
  qed
qed

subsection \<open>Restoring\<close>

lemma subscribe_each_stored:
  assumes "router_ok r" "\<forall>e \<in> set es. st_retain_handling (snd e) \<le> 2"
  shows "\<exists>r'. subscribe_each (map (\<lambda>(flt, stored). stored_subscription_request c flt stored) es) r = (r', Inr ())
    \<and> router_ok r' \<and> held r' = put_routes c es (held r)"
  using assms
proof (induction es arbitrary: r)
  case (Cons e es)
  obtain f st where e: "e = (f, st)" by (cases e)
  have "st_retain_handling st \<le> 2"
    using Cons.prems(2) e by simp
  then obtain r1 outcome where step: "subscribe_as None (stored_subscription_request c f st) r = Inr (r1, outcome)"
      "router_ok r1" "outcome = Subscribed.Fenced \<longleftrightarrow> \<not> generation_is_current None c r"
      "outcome \<noteq> Subscribed.Fenced \<Longrightarrow> held r1 = (held r)(stored_key c e \<mapsto> stored_route c e)"
    using subscribe_stored [OF Cons.prems(1)] unfolding e by metis
  have "held r1 = (held r)(stored_key c e \<mapsto> stored_route c e)"
    by (rule step(4)) (simp add: step(3) generation_is_current_def)
  moreover have "\<forall>e \<in> set es. st_retain_handling (snd e) \<le> 2"
    using Cons.prems(2) by simp
  ultimately show ?case
    using Cons.IH [OF step(2)]
    by (simp only: list.map e prod.case subscribe_each.simps step(1) sum.case put_routes_simps)
qed simp

lemma put_routes_distinct:
  "distinct (map (stored_key c) es) \<Longrightarrow> put_routes c es T = T ++ stored_table c es"
proof (induction es arbitrary: T)
  case (Cons e es)
  then have "stored_key c e \<notin> dom (stored_table c es)"
    by (simp add: stored_table_def dom_map_of_conv_image_fst image_image)
  note add = map_add_upd_left [OF this]
  have "stored_table c (e # es) = (stored_table c es)(stored_key c e \<mapsto> stored_route c e)"
    by (simp add: stored_table_def)
  moreover have "distinct (map (stored_key c) es)"
    using Cons.prems by simp
  ultimately show ?case
    using Cons.IH by (simp only: put_routes_simps add map_add_upd)
qed (simp add: stored_table_def)

lemma dom_stored_table: "dom (stored_table c es) = stored_key c ` set es"
  by (simp add: stored_table_def dom_map_of_conv_image_fst image_image)

lemma held_identity: "held r k = Some sub \<Longrightarrow> Subscription_identity sub = snd k"
  by (cases k) (simp add: held_at, drule find_SomeD, simp)

lemma set_client_subscriptions_stored:
  assumes "router_ok r" "session_ok s"
  shows "\<exists>r'. set_client_subscriptions c (Some s) r = (r', Inr ()) \<and> router_ok r' \<and> in_step c r' s
    \<and> (\<forall>k. fst (snd k) \<noteq> c \<longrightarrow> held r' k = held r k)"
proof -
  let ?subs = "cs_subscriptions s"
  define keep where "keep = map (\<lambda>request. case parse_shared_subscription (sr_topic_filter request) of
      (flt, share_group) \<Rightarrow> (flt, (c, share_group, sr_flow_id request)))
      (map (\<lambda>(flt, stored). stored_subscription_request c flt stored) ?subs)"
  define P where "P = (\<lambda>flt sub. rs_client_id sub \<noteq> c \<or> (flt, Subscription_identity sub) \<in> set keep)"
  define r0 where "r0 = r\<lparr>mr_exact_subscriptions := retain_routes P (mr_exact_subscriptions r),
              mr_wildcard_subscriptions := retain_routes P (mr_wildcard_subscriptions r)\<rparr>"
  have keep: "set keep = stored_key c ` set ?subs"
    unfolding keep_def by (force simp: stored_key_def case_prod_unfold)
  have ok: "router_ok r0" and held: "held r0 k = keep_only (P (fst k)) (held r) k" for k
    using held_retain_routes [OF assms(1), of r0 P] by (simp_all add: r0_def)
  have "distinct (map (stored_key c) ?subs)"
    using assms(2) stored_key_inject unfolding session_ok_def distinct_map inj_on_def by metis
  then obtain r' where r': "router_ok r'" "held r' = held r0 ++ stored_table c ?subs"
      "subscribe_each (map (\<lambda>(flt, stored). stored_subscription_request c flt stored) ?subs) r0 = (r', Inr ())"
    using subscribe_each_stored [OF ok, of ?subs c] assms(2) put_routes_distinct
    by (metis session_ok_def)
  have "set_client_subscriptions c (Some s) r = (r', Inr ())"
    unfolding set_client_subscriptions_def Let_def option.case r'(3) [symmetric] r0_def P_def keep_def ..
  moreover have "held r' k = stored_table c ?subs k" if "fst (snd k) = c" for k
  proof (cases "k \<in> dom (stored_table c ?subs)")
    case False
    then have "held r0 k = None"
      using that held_identity [of r k] unfolding held dom_stored_table keep [symmetric]
      by (cases k) (auto simp: keep_only_def P_def Subscription_identity_def split: option.split)
    then show ?thesis
      using False by (simp add: r'(2) map_add_def domIff)
  qed (auto simp: r'(2) map_add_dom_app_simps)
  moreover have "held r' k = held r k" if "fst (snd k) \<noteq> c" for k
  proof -
    have "k \<notin> dom (stored_table c ?subs)"
      using that stored_key_client unfolding dom_stored_table by auto
    moreover have "held r0 k = held r k"
      using that held_identity [of r k]
      by (cases k) (auto simp: held keep_only_def P_def Subscription_identity_def split: option.split)
    ultimately show ?thesis
      by (simp add: r'(2) map_add_dom_app_simps)
  qed
  ultimately show ?thesis
    using r'(1) by (auto simp: in_step_def)
qed

subsection \<open>Storing\<close>

lemma store_accepted_simps [simp]:
  "store_accepted [] s = s"
  "store_accepted (a # as) s = store_accepted as (add_subscription (tf_filter (af_filter a)) (af_stored a) s)"
  by (simp_all add: store_accepted_def)

lemma add_subscription_sel [simp]:
  "cs_subscriptions (add_subscription f st s) = AList.update f st (cs_subscriptions s)"
  "cs_subscriptions (remove_subscription f s) = AList.delete f (cs_subscriptions s)"
  "cs_connection_token (add_subscription f st s) = cs_connection_token s"
  "cs_connection_token (remove_subscription f s) = cs_connection_token s"
  "cs_connected (add_subscription f st s) = cs_connected s"
  "cs_connected (remove_subscription f s) = cs_connected s"
  by (simp_all add: add_subscription_def remove_subscription_def)

lemma store_accepted_facts:
  assumes "session_ok s" "\<forall>a \<in> set routed. st_flow_id (af_stored a) = None \<and> st_retain_handling (af_stored a) \<le> 2"
  shows "session_ok (store_accepted routed s)
    \<and> stored_table c (cs_subscriptions (store_accepted routed s)) =
        put_routes c (map accepted_entry routed) (stored_table c (cs_subscriptions s))
    \<and> cs_connection_token (store_accepted routed s) = cs_connection_token s
    \<and> cs_connected (store_accepted routed s) = cs_connected s"
  using assms
proof (induction routed arbitrary: s)
  case (Cons a as)
  let ?s = "add_subscription (tf_filter (af_filter a)) (af_stored a) s"
  have "stored_table c (cs_subscriptions ?s) =
      (stored_table c (cs_subscriptions s))(stored_key c (accepted_entry a) \<mapsto> stored_route c (accepted_entry a))"
    using Cons.prems by (simp add: stored_table_update session_ok_def accepted_entry_def)
  moreover have "session_ok ?s"
    using Cons.prems by (simp add: session_ok_add)
  moreover have "\<forall>a \<in> set as. st_flow_id (af_stored a) = None \<and> st_retain_handling (af_stored a) \<le> 2"
    using Cons.prems(2) by simp
  ultimately show ?case
    using Cons.IH [of ?s]
    by (simp only: store_accepted_simps list.map put_routes_simps add_subscription_sel simp_thms)
qed simp

lemma put_routes_cong: "T k = T' k \<Longrightarrow> put_routes c es T k = put_routes c es T' k"
  by (simp add: put_routes_at)

lemma in_step_routed:
  assumes "in_step c r s" "session_ok s" "held r' = put_routes c (map accepted_entry routed) (held r)"
    and "\<forall>a \<in> set routed. st_flow_id (af_stored a) = None \<and> st_retain_handling (af_stored a) \<le> 2"
  shows "in_step c r' (store_accepted routed s)"
  using assms(1) put_routes_cong [of "held r" _ "stored_table c (cs_subscriptions s)"]
    store_accepted_facts [OF assms(2,4), of c]
  unfolding in_step_def assms(3) by metis

text \<open>Unsubscribing, filter by filter.\<close>

lemma length_filter_all: "length (filter P xs) = length xs \<longleftrightarrow> (\<forall>x \<in> set xs. P x)"
  by (metis filter_True length_filter_less less_irrefl)

lemma unsubscribe_outcome:
  assumes "unsubscribe_as generation c f flow r = (r', outcome)" "parse_shared_subscription f = (flt, share)"
  shows "outcome = Unsubscribed.Fenced \<longleftrightarrow> \<not> generation_is_current generation c r"
    "outcome = Unsubscribed.Fenced \<Longrightarrow> r' = r" "mr_clients r' = mr_clients r"
    "outcome = Absent \<Longrightarrow> held r (flt, (c, share, flow)) = None"
proof -
  show "outcome = Unsubscribed.Fenced \<longleftrightarrow> \<not> generation_is_current generation c r" "mr_clients r' = mr_clients r"
    using assms by (auto simp: unsubscribe_as_def Let_def with_table_def split: if_splits option.splits)
  then show "outcome = Unsubscribed.Fenced \<Longrightarrow> r' = r"
    using assms by (simp add: unsubscribe_as_def Let_def)
  assume absent: "outcome = Absent"
  then have "generation_is_current generation c r"
    using assms by (cases "generation_is_current generation c r") (simp_all add: unsubscribe_as_def Let_def)
  then show "held r (flt, (c, share, flow)) = None"
  proof (cases "map_of (table_of flt r) flt")
    case (Some subs)
    then have "length (filter (\<lambda>sub. Subscription_identity sub \<noteq> (c, share, flow)) subs) = length subs"
      using assms absent \<open>generation_is_current generation c r\<close>
      by (simp add: unsubscribe_as_def Let_def split: if_splits)
    with Some show ?thesis
      unfolding length_filter_all held_at or_default_def by (auto simp: find_None_iff)
  qed (simp add: held_at or_default_def)
qed

lemma in_step_unsubscribed:
  assumes "in_step c r s" "session_ok s" "parse_shared_subscription f = (flt, share)"
    and "held r' = (held r)((flt, (c, share, None)) := None)"
  shows "in_step c r' (remove_subscription f s)"
    and "held r (flt, (c, share, None)) = None \<Longrightarrow> in_step c r' s"
proof -
  have "stored_table c (AList.delete f (cs_subscriptions s)) =
      (stored_table c (cs_subscriptions s))((flt, (c, share, None)) := None)"
    using assms(2,3) by (simp add: stored_table_delete session_ok_def)
  then show "in_step c r' (remove_subscription f s)"
    using assms(1,4) by (simp add: in_step_def)
  show "in_step c r' s" if "held r (flt, (c, share, None)) = None"
    using assms(1,4) that by (simp add: in_step_def)
qed

lemma unsubscribe_each_result:
  assumes "router_ok r" "in_step (ch_client_id h) r s" "session_ok s" "sh_pending_external_flow_id h = None"
  shows "(current h r \<longrightarrow> (\<exists>r' codes removed. unsubscribe_each h fs r = (r', Some (codes, removed))
        \<and> router_ok r' \<and> in_step (ch_client_id h) r' (fold remove_subscription removed s)
        \<and> session_ok (fold remove_subscription removed s)
        \<and> (\<forall>k. fst (snd k) \<noteq> ch_client_id h \<longrightarrow> held r' k = held r k)))
    \<and> (\<not> current h r \<longrightarrow> (\<exists>res. unsubscribe_each h fs r = (r, res) \<and> (res = None \<or> fs = [] \<and> res = Some ([], []))))"
  using assms(1-3)
proof (induction fs arbitrary: r s)
  case (Cons f fs)
  obtain flt share where parse: "parse_shared_subscription f = (flt, share)"
    by (cases "parse_shared_subscription f")
  obtain r1 outcome where step: "unsubscribe_as (Some (sh_generation h)) (ch_client_id h) f None r = (r1, outcome)"
    by (cases "unsubscribe_as (Some (sh_generation h)) (ch_client_id h) f None r")
  note fenced = unsubscribe_outcome [OF step parse]
  show ?case
  proof (cases "current h r")
    case False
    then show ?thesis
      using step fenced assms(4) by simp
  next
    case True
    then have outcome: "outcome \<noteq> Unsubscribed.Fenced" and "current h r1"
      using fenced(1,3) by (simp_all add: generation_is_current_def)
    then have r1: "router_ok r1" "held r1 = (held r)((flt, (ch_client_id h, share, None)) := None)"
      using unsubscribe_facts [OF Cons.prems(1) step parse] by simp_all
    define s1 where "s1 = (if outcome = Removed then remove_subscription f s else s)"
    have "in_step (ch_client_id h) r1 s1" "session_ok s1"
      using in_step_unsubscribed [OF Cons.prems(2,3) parse r1(2)] fenced(4) outcome session_ok_remove Cons.prems(3)
      by (cases outcome; simp add: s1_def)+
    with Cons.IH [OF r1(1)] \<open>current h r1\<close> obtain r' codes removed where
      rest: "unsubscribe_each h fs r1 = (r', Some (codes, removed))" "router_ok r'"
        "in_step (ch_client_id h) r' (fold remove_subscription removed s1)" "session_ok (fold remove_subscription removed s1)"
        "\<forall>k. fst (snd k) \<noteq> ch_client_id h \<longrightarrow> held r' k = held r1 k"
      by blast
    have "held r1 k = held r k" if "fst (snd k) \<noteq> ch_client_id h" for k
      using that by (auto simp: r1(2))
    then show ?thesis
      using rest True step outcome assms(4) by (cases outcome) (simp_all add: s1_def)
  qed
qed (use assms(4) in simp)

subsection \<open>What is written\<close>

lemma write_to_client_written:
  assumes "write_to_client L wr h packet = Inr ws" "q \<in> set ws"
  shows "q = packet \<or> packet_map_properties Properties_remove_reason_string packet = Some q"
  using assms
  by (auto simp: write_to_client_def Let_def res_bind_eq_Inr split: option.splits if_splits)

lemma send_packet_disconnect:
  assumes "send_packet L wr h (Packet.Disconnect d) = (ws, res)"
  shows "Packet.SubAck p \<notin> set ws"
  using assms write_to_client_written [of L wr "ClientHandler.truncate h" "Packet.Disconnect d" _ "Packet.SubAck p"]
  by (auto simp: send_packet_def split: sum.splits)

lemma send_packet_suback:
  assumes "send_packet L wr h (Packet.SubAck ack) = (ws, res)" "Packet.SubAck p \<in> set ws"
  shows "sak_reason_codes p = sak_reason_codes ack \<and> sak_packet_id p = sak_packet_id ack"
  using assms write_to_client_written [of L wr "ClientHandler.truncate h" "Packet.SubAck ack" _ "Packet.SubAck p"]
  by (auto simp: send_packet_def split: sum.splits)

lemma suback_for_sel: "sak_reason_codes (suback_for h i codes) = codes" "sak_packet_id (suback_for h i codes) = i"
  by (simp_all add: suback_for_def Let_def)

text \<open>The verdict of validation on one filter.\<close>

definition malformed_filter :: "string \<Rightarrow> bool" where
  "malformed_filter f \<longleftrightarrow> \<not> is_ok (validate_topic_filter (fst (parse_shared_subscription f)))
     \<or> starts_with f ''$share/'' \<and> (case snd (parse_shared_subscription f) of
          None \<Rightarrow> True | Some grp \<Rightarrow> str_contains grp (CHR ''+'') \<or> str_contains grp (CHR ''#''))"

definition verdict :: "(string \<Rightarrow> string option \<Rightarrow> string \<Rightarrow> bool) \<Rightarrow> SubscribeHandler \<Rightarrow> TopicFilter \<Rightarrow> SubAckReasonCode option" where
  "verdict authorize h flt =
     (if malformed_filter (tf_filter flt) then Some SubAckReasonCode.TopicFilterInvalid
      else if \<not> authorize (ch_client_id h) (ch_user_id h) (tf_filter flt) then Some SubAckReasonCode.NotAuthorized
      else None)"

lemma validate_subscribe_filter_verdict:
  assumes "validate_subscribe_filter L wr authorize h flt = (ws, res)"
  shows "Packet.SubAck p \<notin> set ws" "res = Inr v \<Longrightarrow> v = verdict authorize h flt \<and> ws = []"
  using assms send_packet_disconnect [of L wr h _ _ _ p]
  by (auto simp: validate_subscribe_filter_def verdict_def malformed_filter_def split: if_splits prod.splits sum.splits)

lemma validate_filters_verdicts:
  assumes "validate_filters L wr authorize h flts = (ws, res)"
  shows "Packet.SubAck p \<notin> set ws \<and> (\<forall>codes. res = Inr codes \<longrightarrow> codes = map (verdict authorize h) flts \<and> ws = [])"
  using assms
proof (induction flts arbitrary: ws res)
  case (Cons flt flts)
  obtain w1 v where one: "validate_subscribe_filter L wr authorize h flt = (w1, v)"
    by (cases "validate_subscribe_filter L wr authorize h flt")
  obtain w2 vs where rest: "validate_filters L wr authorize h flts = (w2, vs)"
    by (cases "validate_filters L wr authorize h flts")
  show ?case
    using Cons.prems Cons.IH [OF rest] validate_subscribe_filter_verdict [OF one] one rest
    by (cases v; cases vs) auto
qed auto

subsection \<open>The handlers\<close>

text \<open>
  The router is well formed, and when sessions are stored the routes of the client are those of its stored
  session, which belongs to this connection unless it was taken over.
\<close>

definition agrees :: "SubscribeHandler \<Rightarrow> MessageRouter \<Rightarrow> sessions option \<Rightarrow> bool" where
  "agrees h r storage \<longleftrightarrow> router_ok r \<and> (\<forall>ss. storage = Some ss \<longrightarrow>
     (\<exists>s. ss (ch_client_id h) = Some s \<and> session_ok s \<and> in_step (ch_client_id h) r s
        \<and> (current h r \<longrightarrow> cs_connected s \<and> cs_connection_token s = sh_generation h)))"

definition unreadable :: "session_backend \<Rightarrow> string \<Rightarrow> sessions option \<Rightarrow> bool" where
  "unreadable B c storage \<longleftrightarrow> (\<exists>ss e. storage = Some ss \<and> sb_get_session B c ss = Inl e)"

definition same_client :: "SubscribeHandler \<Rightarrow> SubscribeHandler \<Rightarrow> bool" where
  "same_client h h' \<longleftrightarrow> ch_client_id h' = ch_client_id h \<and> sh_generation h' = sh_generation h
     \<and> sh_pending_external_flow_id h' = sh_pending_external_flow_id h"

context session_store
begin

lemma restore_facts:
  assumes "router_ok r" "session_ok s" "ss (ch_client_id h) = Some s" "cs_connected s"
    and "restore_stored_routes B (Some ss) h r = (h', r', res)"
  shows "same_client h h' \<and>
    (res = Inr () \<and> router_ok r' \<and> in_step (ch_client_id h) r' s
       \<and> (\<forall>k. fst (snd k) \<noteq> ch_client_id h \<longrightarrow> held r' k = held r k)
     \<or> (\<exists>e. res = Inl e) \<and> r' = r \<and> unreadable B (ch_client_id h) (Some ss))"
proof (cases "sb_get_session B (ch_client_id h) ss")
  case (Inl e)
  then show ?thesis
    using assms(5) by (auto simp: restore_stored_routes_def unreadable_def same_client_def)
next
  case (Inr v)
  then have v: "v = Some s"
    using connected_kept assms(3,4) by blast
  obtain r1 where "set_client_subscriptions (ch_client_id h) (Some s) r = (r1, Inr ())" "router_ok r1"
      "in_step (ch_client_id h) r1 s" "\<forall>k. fst (snd k) \<noteq> ch_client_id h \<longrightarrow> held r1 k = held r k"
    using set_client_subscriptions_stored [OF assms(1,2)] by blast
  then show ?thesis
    using assms(5) Inr v by (auto simp: restore_stored_routes_def same_client_def split: option.splits)
qed

lemma persist_ends:
  assumes "agrees h r storage" "current h r" "router_ok r1"
    and "\<forall>k. fst (snd k) \<noteq> ch_client_id h \<longrightarrow> held r1 k = held r k"
    and "\<forall>ss s. storage = Some ss \<and> ss (ch_client_id h) = Some s \<and> session_ok s \<and> in_step (ch_client_id h) r s \<longrightarrow>
      session_ok (update s) \<and> in_step (ch_client_id h) r1 (update s)
      \<and> cs_connected (update s) = cs_connected s \<and> cs_connection_token (update s) = cs_connection_token s"
    and "persist_or_restore_routes L wr B update h r1 storage = (h', r', storage', ws, res)"
  shows "same_client h h' \<and> Packet.SubAck p \<notin> set ws \<and>
    (res = Inr () \<and> h' = h \<and> r' = r1 \<and> agrees h' r' storage'
     \<or> (\<exists>e. res = Inl e) \<and> agrees h' r' storage' \<and> held r' = held r
     \<or> (\<exists>e. res = Inl e) \<and> r' = r1 \<and> unreadable B (ch_client_id h) storage')"
proof (cases storage)
  case None
  then show ?thesis
    using assms(3,6) by (auto simp: persist_or_restore_routes_def update_stored_session_def agrees_def same_client_def)
next
  case (Some ss)
  obtain s where s: "ss (ch_client_id h) = Some s" "session_ok s" "in_step (ch_client_id h) r s" "cs_connected s"
      "cs_connection_token s = sh_generation h"
    using assms(1,2) Some unfolding agrees_def by blast
  note upd = assms(5) [rule_format, OF conjI, OF Some conjI, OF s(1) conjI, OF s(2,3)]
  obtain storage1 res1 where store: "update_stored_session B h update (Some ss) = (storage1, res1)"
    by (cases "update_stored_session B h update (Some ss)")
  note owner = owner_update [OF store s(1,5)]
  show ?thesis
  proof (cases res1)
    case (Inr u)
    then have "storage1 = Some (ss(ch_client_id h \<mapsto> update s))"
      using owner by simp
    then show ?thesis
      using assms(3,6) Some store Inr upd s
      by (auto simp: persist_or_restore_routes_def agrees_def same_client_def)
  next
    case (Inl e)
    then have storage1: "storage1 = Some ss"
      using owner by simp
    obtain h2 r2 res2 where restore: "restore_stored_routes B (Some ss) h r1 = (h2, r2, res2)"
      by (cases "restore_stored_routes B (Some ss) h r1")
    note facts = restore_facts [OF assms(3) s(2,1,4) restore]
    show ?thesis
    proof (cases res2)
      case Inl2: (Inl e2)
      then show ?thesis
        using assms(6) Some store Inl storage1 restore facts
        by (auto simp: persist_or_restore_routes_def)
    next
      case (Inr u2)
      let ?h = "h2\<lparr>sh_disconnect_reason := Some ReasonCode.UnspecifiedError\<rparr>"
      have r2: "router_ok r2" "in_step (ch_client_id h) r2 s" "same_client h h2"
          "\<forall>k. fst (snd k) \<noteq> ch_client_id h \<longrightarrow> held r2 k = held r1 k"
        using facts Inr by auto
      have "held r2 k = held r k" for k
        using r2(2,4) s(3) assms(4) unfolding in_step_def by metis
      then have "held r2 = held r" by (intro ext)
      moreover have res: "h' = ?h" "r' = r2" "storage' = Some ss" "res = Inl e"
          "ws = (if sh_protocol_version ?h = 5 then fst (send_packet L wr ?h
             (Packet.Disconnect (DisconnectPacket_new ReasonCode.UnspecifiedError))) else [])"
        using assms(6) Some store Inl storage1 restore Inr
        by (auto simp: persist_or_restore_routes_def Let_def)
      moreover have "Packet.SubAck p \<notin> set ws"
        unfolding res(5) using send_packet_disconnect [of L wr ?h, OF surjective_pairing] by simp
      moreover have "agrees h' r' storage'"
        using r2 s unfolding res(1-3) agrees_def same_client_def by simp
      ultimately show ?thesis
        using r2(3) by (simp add: same_client_def)
    qed
  qed
qed

end

lemma routed_as_others:
  assumes "routed_as h sid items r r' codes routed" "fst (snd k) \<noteq> ch_client_id h"
  shows "held r' k = held r k"
  using assms stored_key_client unfolding routed_as_def by (auto simp: put_routes_at)

lemma routed_as_stored:
  assumes "routed_as h sid items r r' codes routed" "sh_pending_external_flow_id h = None"
  shows "\<forall>a \<in> set routed. st_flow_id (af_stored a) = None \<and> st_retain_handling (af_stored a) \<le> 2"
  using assms stored_for_ok unfolding routed_as_def by (auto simp: stored_for_def Let_def)

text \<open>How handling a SUBSCRIBE ends: answered, without effect, undone, or undone in vain.\<close>

definition subscribe_outcome ::
  "session_backend \<Rightarrow> (string \<Rightarrow> string option \<Rightarrow> string \<Rightarrow> bool) \<Rightarrow> SubscribePacket \<Rightarrow> SubscribeHandler \<Rightarrow> MessageRouter
     \<Rightarrow> sessions option \<Rightarrow> subscribe_handled \<Rightarrow> bool" where
  "subscribe_outcome B authorize subscribe h r storage result \<longleftrightarrow>
     (case result of (h', r', storage', offered, written, res) \<Rightarrow>
        let sid = Properties_get_subscription_identifier (sub_properties subscribe);
            items = map (\<lambda>flt. (flt, verdict authorize h flt)) (sub_filters subscribe);
            silent = (\<forall>p. Packet.SubAck p \<notin> set written)
        in same_client h h' \<and>
          ((\<exists>codes routed. routed_as h sid items r r' codes routed \<and> agrees h' r' storage'
              \<and> (\<forall>p. Packet.SubAck p \<in> set written \<longrightarrow> sak_reason_codes p = codes \<and> sak_packet_id p = sub_packet_id subscribe))
           \<or> r' = r \<and> storage' = storage \<and> silent
           \<or> agrees h' r' storage' \<and> held r' = held r \<and> silent
           \<or> (\<exists>codes routed. routed_as h sid items r r' codes routed) \<and> unreadable B (ch_client_id h) storage' \<and> silent))"

context session_store
begin

lemma subscribe_ends:
  assumes "agrees h r storage" "sh_pending_external_flow_id h = None"
  shows "subscribe_outcome B authorize subscribe h r storage (handle_subscribe L wr B authorize now subscribe h r storage)"
proof -
  let ?sid = "Properties_get_subscription_identifier (sub_properties subscribe)"
  let ?items = "map (\<lambda>flt. (flt, verdict authorize h flt)) (sub_filters subscribe)"
  obtain w0 v where valid: "validate_filters L wr authorize h (sub_filters subscribe) = (w0, v)"
    by (cases "validate_filters L wr authorize h (sub_filters subscribe)")
  note verdicts = validate_filters_verdicts [OF valid]
  show ?thesis
  proof (cases v)
    case (Inl e)
    then show ?thesis
      using valid verdicts by (simp add: handle_subscribe_def subscribe_outcome_def same_client_def)
  next
    case (Inr vcodes)
    then have vcodes: "zip (sub_filters subscribe) vcodes = ?items" "w0 = []"
      using verdicts by (simp_all add: zip_map2 zip_same_conv_map)
    have ok: "router_ok r"
      using assms(1) by (simp add: agrees_def)
    note routes = route_subscriptions_result [OF ok, of h ?sid ?items]
    show ?thesis
    proof (cases "snd (route_subscriptions h ?sid ?items r) = Inr None")
      case True
      then have "route_subscriptions h ?sid ?items r = (r, Inr None)"
        using routes by (cases "current h r") auto
      then show ?thesis
        using valid Inr vcodes by (simp add: handle_subscribe_def subscribe_outcome_def same_client_def Let_def)
    next
      case False
      then obtain r1 codes routed where route: "route_subscriptions h ?sid ?items r = (r1, Inr (Some (codes, routed)))"
        and as: "routed_as h ?sid ?items r r1 codes routed"
        using routes by (cases "current h r") auto
      obtain h2 r2 storage2 w2 res2 where persist:
        "(if routed = [] then (h, r1, storage, [], Inr ())
          else persist_or_restore_routes L wr B (store_accepted routed) h r1 storage) = (h2, r2, storage2, w2, res2)"
        by (metis prod_cases5)
      have ends: "same_client h h2 \<and> Packet.SubAck p \<notin> set w2 \<and>
        (res2 = Inr () \<and> h2 = h \<and> r2 = r1 \<and> agrees h2 r2 storage2
         \<or> (\<exists>e. res2 = Inl e) \<and> agrees h2 r2 storage2 \<and> held r2 = held r
         \<or> (\<exists>e. res2 = Inl e) \<and> r2 = r1 \<and> unreadable B (ch_client_id h) storage2)" for p
      proof (cases "routed = []")
        case True
        then have "router_ok r1" "held r1 = held r" "mr_clients r1 = mr_clients r"
          using as by (simp_all add: routed_as_def)
        then have "agrees h r1 storage"
          using assms(1) by (simp add: agrees_def in_step_def generation_is_current_def)
        then show ?thesis
          using persist True by (simp add: same_client_def)
      next
        case False
        then have "current h r"
          using as by (simp add: routed_as_def)
        show ?thesis
        proof (rule persist_ends [OF assms(1) \<open>current h r\<close>])
          show "router_ok r1" "\<forall>k. fst (snd k) \<noteq> ch_client_id h \<longrightarrow> held r1 k = held r k"
            using as routed_as_others [OF as] by (simp_all add: routed_as_def)
          show "persist_or_restore_routes L wr B (store_accepted routed) h r1 storage = (h2, r2, storage2, w2, res2)"
            using persist False by simp
          have "held r1 = put_routes (ch_client_id h) (map accepted_entry routed) (held r)"
            using as by (simp add: routed_as_def)
          then show "\<forall>ss s. storage = Some ss \<and> ss (ch_client_id h) = Some s \<and> session_ok s
              \<and> in_step (ch_client_id h) r s \<longrightarrow>
              session_ok (store_accepted routed s) \<and> in_step (ch_client_id h) r1 (store_accepted routed s)
              \<and> cs_connected (store_accepted routed s) = cs_connected s
              \<and> cs_connection_token (store_accepted routed s) = cs_connection_token s"
            using in_step_routed store_accepted_facts routed_as_stored [OF as assms(2)] by blast
        qed
      qed
      show ?thesis
      proof (cases res2)
        case (Inl e)
        then have "handle_subscribe L wr B authorize now subscribe h r storage = (h2, r2, storage2, [], w2, Inl e)"
          using valid \<open>v = Inr vcodes\<close> vcodes route persist by (simp add: handle_subscribe_def Let_def)
        then show ?thesis
          using ends as Inl by (auto simp: subscribe_outcome_def Let_def)
      next
        case (Inr u)
        then have fin: "res2 = Inr ()" "h2 = h" "r2 = r1" "agrees h2 r2 storage2" "\<And>p. Packet.SubAck p \<notin> set w2"
          using ends by auto
        let ?h = "h2\<lparr>sh_session := map_option (store_accepted routed) (sh_session h2)\<rparr>"
        obtain sent res where send:
          "send_packet L wr ?h (Packet.SubAck (suback_for ?h (sub_packet_id subscribe) codes)) = (sent, res)"
          by (cases "send_packet L wr ?h (Packet.SubAck (suback_for ?h (sub_packet_id subscribe) codes))")
        have "handle_subscribe L wr B authorize now subscribe h r storage = (?h, r2, storage2,
            concat (map (deliver_retained_for_filter now r2 ?sid) routed), w2 @ sent, res)"
          using valid \<open>v = Inr vcodes\<close> vcodes route persist fin(1) send by (simp add: handle_subscribe_def Let_def)
        moreover have "agrees ?h r2 storage2" "same_client h ?h"
          using fin(2,4) by (simp_all add: agrees_def same_client_def)
        ultimately show ?thesis
          using as fin(3,5) send_packet_suback [OF send] by (auto simp: subscribe_outcome_def Let_def suback_for_sel)
      qed
    qed
  qed
qed

lemma unsubscribe_ends:
  assumes "agrees h r (Some ss)" "sh_pending_external_flow_id h = None"
    and "handle_unsubscribe L wr B unsubscribe h r (Some ss) = (h', r', storage', ws, res)"
  shows "same_client h h' \<and> (agrees h' r' storage' \<or> unreadable B (ch_client_id h) storage')
    \<and> (\<forall>k. fst (snd k) \<noteq> ch_client_id h \<longrightarrow> held r' k = held r k)"
proof -
  obtain s where s: "router_ok r" "ss (ch_client_id h) = Some s" "session_ok s" "in_step (ch_client_id h) r s"
    using assms(1) unfolding agrees_def by blast
  note each = unsubscribe_each_result [OF s(1,4,3) assms(2), of "uns_filters unsubscribe"]
  show ?thesis
  proof (cases "current h r")
    case False
    with each show ?thesis
      using assms by (auto simp: handle_unsubscribe_def Let_def same_client_def agrees_def split: prod.splits)
  next
    case True
    with each obtain r1 codes removed where
      r1: "unsubscribe_each h (uns_filters unsubscribe) r = (r1, Some (codes, removed))" "router_ok r1"
        "in_step (ch_client_id h) r1 (fold remove_subscription removed s)" "session_ok (fold remove_subscription removed s)"
        "\<forall>k. fst (snd k) \<noteq> ch_client_id h \<longrightarrow> held r1 k = held r k"
      by blast
    have token: "cs_connected (fold remove_subscription removed s) = cs_connected s"
        "cs_connection_token (fold remove_subscription removed s) = cs_connection_token s" for s
      by (induction removed arbitrary: s) simp_all
    obtain h2 r2 storage2 w2 res2 where persist:
      "(if removed = [] then (h, r1, Some ss, [], Inr ())
        else persist_or_restore_routes L wr B (fold remove_subscription removed) h r1 (Some ss)) = (h2, r2, storage2, w2, res2)"
      by (metis prod_cases5)
    have ends: "same_client h h2 \<and> (agrees h2 r2 storage2 \<or> unreadable B (ch_client_id h) storage2)
      \<and> (\<forall>k. fst (snd k) \<noteq> ch_client_id h \<longrightarrow> held r2 k = held r k)"
    proof (cases "removed = []")
      case True
      with persist have "h2 = h" "r2 = r1" "storage2 = Some ss"
        by simp_all
      then show ?thesis
        using True r1 s assms(1) \<open>current h r\<close> by (auto simp: agrees_def same_client_def)
    next
      case False
      have "same_client h h2 \<and>
        (r2 = r1 \<and> agrees h2 r2 storage2 \<or> agrees h2 r2 storage2 \<and> held r2 = held r
         \<or> r2 = r1 \<and> unreadable B (ch_client_id h) storage2)"
        using persist_ends [OF assms(1) True r1(2,5), of "fold remove_subscription removed" L wr h2 r2 storage2 w2 res2]
          persist False r1(3,4) s(2) token by auto
      then show ?thesis
        using r1(5) by metis
    qed
    then show ?thesis
      using assms(3) r1(1) persist
      by (cases res2) (auto simp: handle_unsubscribe_def Let_def agrees_def same_client_def split: prod.splits)
  qed
qed

end

subsection \<open>The guarantees\<close>

text \<open>A connection's SUBSCRIBE and UNSUBSCRIBE packets, whatever the transport and the authorisation do.\<close>

inductive handled ::
  "session_backend \<Rightarrow> SubscribeHandler \<times> MessageRouter \<times> sessions option \<Rightarrow> SubscribeHandler \<times> MessageRouter \<times> sessions option \<Rightarrow> bool"
  for B x where
  start: "handled B x x"
| subscribed: "handled B x (h, r, storage)
    \<Longrightarrow> handle_subscribe L wr B authorize now subscribe h r storage = (h', r', storage', offered, written, res)
    \<Longrightarrow> handled B x (h', r', storage')"
| unsubscribed: "handled B x (h, r, storage)
    \<Longrightarrow> handle_unsubscribe L wr B unsubscribe h r storage = (h', r', storage', written, res)
    \<Longrightarrow> handled B x (h', r', storage')"

lemma subscribe_keeps:
  assumes "session_store B" "agrees h r storage" "sh_pending_external_flow_id h = None"
    and "handle_subscribe L wr B authorize now subscribe h r storage = (h', r', storage', offered, written, res)"
  shows "same_client h h' \<and> (agrees h' r' storage' \<or> unreadable B (ch_client_id h) storage')
    \<and> (\<forall>k. fst (snd k) \<noteq> ch_client_id h \<longrightarrow> held r' k = held r k)"
  using session_store.subscribe_ends [OF assms(1-3), of authorize subscribe L wr now] assms(2) routed_as_others
  unfolding assms(4) subscribe_outcome_def Let_def prod.case
  by (auto simp: agrees_def same_client_def)

lemma persist_storage:
  "persist_or_restore_routes L wr B update h r storage = (h', r', storage', ws, res) \<Longrightarrow> storage' = None \<longleftrightarrow> storage = None"
  by (auto simp: persist_or_restore_routes_def update_stored_session_def Let_def split: prod.splits sum.splits option.splits)

lemma handled_storage:
  assumes "handle_subscribe L wr B authorize now subscribe h r storage = (h', r', storage', offered, written, res)
    \<or> handle_unsubscribe L wr B unsubscribe h r storage = (h', r', storage', written, res)"
  shows "storage' = None \<longleftrightarrow> storage = None"
  using assms persist_storage
  by (fastforce simp: handle_subscribe_def handle_unsubscribe_def Let_def
      split: prod.splits sum.splits option.splits if_splits)

lemma handled_agrees:
  assumes "session_store B" "\<forall>ss. \<exists>v. sb_get_session B (ch_client_id h) ss = Inr v"
    and "agrees h r (Some ss)" "sh_pending_external_flow_id h = None" "handled B (h, r, Some ss) y"
  shows "case y of (h', r', storage') \<Rightarrow> same_client h h' \<and> storage' \<noteq> None \<and> agrees h' r' storage'
    \<and> (\<forall>k. fst (snd k) \<noteq> ch_client_id h \<longrightarrow> held r' k = held r k)"
  using assms(5)
proof (induction rule: handled.induct)
  case start
  then show ?case
    using assms(3) by (simp add: same_client_def)
next
  case (subscribed h1 r1 storage L wr authorize now subscribe h' r' storage' offered written res)
  then have h1: "same_client h h1" "agrees h1 r1 storage" "sh_pending_external_flow_id h1 = None" "storage \<noteq> None"
      "\<forall>k. fst (snd k) \<noteq> ch_client_id h \<longrightarrow> held r1 k = held r k"
    using assms(4) by (auto simp: same_client_def)
  have "\<not> unreadable B (ch_client_id h1) storage'"
    using assms(2) h1(1) by (auto simp: unreadable_def same_client_def) (metis sum.distinct(1))
  then show ?case
    using subscribe_keeps [OF assms(1) h1(2,3) subscribed.hyps(2)] handled_storage [OF disjI1, OF subscribed.hyps(2)] h1
    by (auto simp: same_client_def)
next
  case (unsubscribed h1 r1 storage L wr unsubscribe h' r' storage' written res)
  then have h1: "same_client h h1" "agrees h1 r1 storage" "sh_pending_external_flow_id h1 = None" "storage \<noteq> None"
      "\<forall>k. fst (snd k) \<noteq> ch_client_id h \<longrightarrow> held r1 k = held r k"
    using assms(4) by (auto simp: same_client_def)
  obtain ss1 where ss1: "storage = Some ss1"
    using h1(4) by blast
  have "\<not> unreadable B (ch_client_id h1) storage'"
    using assms(2) h1(1) by (auto simp: unreadable_def same_client_def) (metis sum.distinct(1))
  then show ?case
    using session_store.unsubscribe_ends [OF assms(1) h1(2) [unfolded ss1] h1(3) unsubscribed.hyps(2) [unfolded ss1]]
      handled_storage [OF disjI2, OF unsubscribed.hyps(2)] h1
    by (auto simp: same_client_def)
qed

lemma granted_qos:
  "QoS_to_u8 (st_qos (stored_for h sid flt)) \<le> ch_maximum_qos h"
  "QoS_to_u8 (st_qos (stored_for h sid flt)) \<le> QoS_to_u8 (so_qos (tf_options flt))"
proof -
  let ?q = "QoS_to_u8 (so_qos (tf_options flt))"
  have exact: "QoS_to_u8 (QoS_from_u8 g) = g" if "g \<le> 2" for g
  proof -
    have "unat g = unat (0 :: u8) \<or> unat g = unat (1 :: u8) \<or> unat g = unat (2 :: u8)"
      using that by (auto simp: word_le_nat_alt)
    then show ?thesis
      unfolding word_unat_eq_iff [symmetric] by (auto simp: QoS_from_u8_def)
  qed
  have "?q \<le> 2"
    by (cases "so_qos (tf_options flt)") simp_all
  then have "ch_maximum_qos h \<le> 2" if "ch_maximum_qos h < ?q"
    using that by (meson less_imp_le order_trans)
  then show "QoS_to_u8 (st_qos (stored_for h sid flt)) \<le> ch_maximum_qos h"
      "QoS_to_u8 (st_qos (stored_for h sid flt)) \<le> ?q"
    by (auto simp: stored_for_def Let_def exact QoS_from_to_u8 not_less)
qed

definition filter_key :: "SubscribeHandler \<Rightarrow> TopicFilter \<Rightarrow> string \<times> identity" where
  "filter_key h flt = stored_key (ch_client_id h) (tf_filter flt, stored_for h None flt)"

lemma accepted_key:
  assumes "af_stored a = stored_for h sid (af_filter a)"
  shows "stored_key (ch_client_id h) (accepted_entry a) = filter_key h (af_filter a)"
  using assms by (simp add: filter_key_def stored_key_def accepted_entry_def stored_for_def Let_def)

lemma routed_as_new:
  assumes "routed_as h sid (map (\<lambda>flt. (flt, verdict authorize h flt)) flts) r r' codes routed" "held r' k = Some sub"
  shows "held r k = Some sub \<or> (\<exists>flt \<in> set flts. verdict authorize h flt = None \<and> k = filter_key h flt
    \<and> rs_qos sub = st_qos (stored_for h sid flt))"
proof (cases "\<exists>e \<in> set (map accepted_entry routed). stored_key (ch_client_id h) e = k")
  case True
  let ?e = "last (filter (\<lambda>e. stored_key (ch_client_id h) e = k) (map accepted_entry routed))"
  have "filter (\<lambda>e. stored_key (ch_client_id h) e = k) (map accepted_entry routed) \<noteq> []"
    using True unfolding filter_empty_conv by blast
  from last_in_set [OF this] obtain a where a: "a \<in> set routed" "?e = accepted_entry a"
      "stored_key (ch_client_id h) (accepted_entry a) = k"
    by auto
  have "sub = stored_route (ch_client_id h) ?e"
    using assms True unfolding routed_as_def put_routes_at by simp
  moreover have stored: "af_stored a = stored_for h sid (af_filter a)" "af_filter a \<in> set flts" "verdict authorize h (af_filter a) = None"
    using assms(1) a(1) unfolding routed_as_def by auto
  ultimately show ?thesis
    using a(2,3) accepted_key [OF stored(1)]
    by (auto simp: stored_route_def subscription_of_def stored_subscription_request_def accepted_entry_def)
next
  case False
  then show ?thesis
    using assms unfolding routed_as_def put_routes_at by simp
qed

text \<open>
  C9: routes and stored sessions stay in step. Over any sequence of SUBSCRIBE and UNSUBSCRIBE packets of a
  connection, the routes the broker holds for the client are exactly those of the client's stored
  session, although any update of the store may fail, and no other client's route changes. The store
  is read without error, and no subscription is bound to a QUIC flow.
\<close>

theorem subscriptions_in_step:
  assumes "session_store B" "\<forall>ss. \<exists>v. sb_get_session B (ch_client_id h) ss = Inr v"
    and "agrees h r (Some ss)" "sh_pending_external_flow_id h = None"
    and "handled B (h, r, Some ss) (h', r', storage')"
  shows "(\<exists>ss' s. storage' = Some ss' \<and> ss' (ch_client_id h) = Some s \<and> in_step (ch_client_id h) r' s)
    \<and> (\<forall>k. fst (snd k) \<noteq> ch_client_id h \<longrightarrow> held r' k = held r k)"
  using handled_agrees [OF assms] by (auto simp: agrees_def same_client_def)

text \<open>
  C7: a SUBSCRIBE adds only authorised routes. Every route after handling the packet was there before, or is
  that of a well-formed filter of the packet for which the client was authorised, with a quality of
  service within the server's maximum and the one requested; a failing store adds nothing either.
\<close>

theorem subscribe_authorised:
  assumes "session_store B" "agrees h r storage" "sh_pending_external_flow_id h = None"
    and "handle_subscribe L wr B authorize now subscribe h r storage = (h', r', storage', offered, written, res)"
    and "held r' k = Some sub"
  shows "held r k = Some sub
    \<or> (\<exists>flt \<in> set (sub_filters subscribe). authorize (ch_client_id h) (ch_user_id h) (tf_filter flt)
         \<and> \<not> malformed_filter (tf_filter flt) \<and> k = filter_key h flt
         \<and> QoS_to_u8 (rs_qos sub) \<le> ch_maximum_qos h \<and> QoS_to_u8 (rs_qos sub) \<le> QoS_to_u8 (so_qos (tf_options flt)))"
proof -
  let ?sid = "Properties_get_subscription_identifier (sub_properties subscribe)"
  let ?items = "map (\<lambda>flt. (flt, verdict authorize h flt)) (sub_filters subscribe)"
  consider codes routed where "routed_as h ?sid ?items r r' codes routed" | "held r' = held r"
    using session_store.subscribe_ends [OF assms(1-3), of authorize subscribe L wr now]
    unfolding assms(4) subscribe_outcome_def Let_def prod.case by blast
  then show ?thesis
  proof cases
    case (1 codes routed)
    from routed_as_new [OF this assms(5)] show ?thesis
      using granted_qos by (auto simp: verdict_def split: if_splits)
  qed (use assms(5) in simp)
qed

definition code_truthful ::
  "(string \<Rightarrow> string option \<Rightarrow> string \<Rightarrow> bool) \<Rightarrow> SubscribeHandler \<Rightarrow> MessageRouter \<Rightarrow> TopicFilter \<Rightarrow> SubAckReasonCode \<Rightarrow> bool" where
  "code_truthful authorize h r flt code \<longleftrightarrow>
     (if malformed_filter (tf_filter flt) then code = SubAckReasonCode.TopicFilterInvalid
      else if \<not> authorize (ch_client_id h) (ch_user_id h) (tf_filter flt) then code = SubAckReasonCode.NotAuthorized
      else code = SubAckReasonCode.QuotaExceeded \<and> 0 < sh_max_subscriptions_per_client h
        \<or> code \<in> {SubAckReasonCode.GrantedQoS0, SubAckReasonCode.GrantedQoS1, SubAckReasonCode.GrantedQoS2}
          \<and> held r (filter_key h flt) \<noteq> None)"


text \<open>A client that subscribes to one filter at a broker with the memory backend.\<close>

definition ex_handler :: SubscribeHandler where
  "ex_handler =
     \<lparr>ch_client_id = ''A'', ch_user_id = None, ch_inflight_publishes = [], ch_server_receive_maximum = 10,
      ch_topic_aliases = Map.empty, ch_topic_alias_maximum = 0, ch_maximum_qos = 1,
      ch_request_problem_information = True, ch_client_max_packet_size = None, ch_storage = None,
      sh_protocol_version = 5, sh_generation = 7, sh_max_subscriptions_per_client = 0,
      sh_change_only_enabled = False, sh_change_only_patterns = [], sh_pending_external_flow_id = None,
      sh_session = None, sh_disconnect_reason = None\<rparr>"

definition ex_start :: MessageRouter where
  "ex_start =
     \<lparr>mr_exact_subscriptions = [], mr_wildcard_subscriptions = [], mr_retained_messages = [],
      mr_clients = [(''A'', \<lparr>ci_generation = 7, ci_behind = False\<rparr>)],
      mr_storage = None, mr_share_group_counters = Map.empty, mr_change_only_states = Map.empty,
      mr_echo_suppression_key = None, mr_outbound_rates = Map.empty, mr_max_outbound_rate = 0,
      mr_max_retained_messages = 0, mr_max_retained_message_size = 0\<rparr>"

definition ex_sessions :: sessions where
  "ex_sessions = [''A'' \<mapsto> \<lparr>cs_expiry_interval = None, cs_subscriptions = [], cs_last_seen = 0,
     cs_connection_token = 7, cs_connected = True, cs_disconnected_at = None\<rparr>]"

definition ex_subscribe :: SubscribePacket where
  "ex_subscribe = \<lparr>sub_packet_id = 5, sub_filters = [TopicFilter_new ''a'' QoS.ExactlyOnce],
     sub_properties = Properties_new, sub_protocol_version = 5\<rparr>"

lemma ex_agrees: "agrees ex_handler ex_start (Some ex_sessions)"
  by (simp add: agrees_def ex_handler_def ex_start_def ex_sessions_def router_ok_def table_ok_def session_ok_def in_step_def
      stored_table_def held_def table_of_def lookup_def)

lemma ex_malformed: "\<not> malformed_filter ''a''"
  by (simp add: malformed_filter_def parse_shared_subscription_def strip_prefix_def starts_with_def validate_topic_filter_def
      is_valid_topic_filter_def str_contains_def limits_MAX_STRING_LENGTH_def)

lemma ex_handled:
  "\<exists>h' r' storage' p. handle_subscribe ref_ops (\<lambda>_. Inr ()) (memory_backend 0) (\<lambda>_ _ _. True) 0 ex_subscribe ex_handler ex_start
     (Some ex_sessions) = (h', r', storage', [], [Packet.SubAck p], Inr ())
   \<and> (\<exists>sub. held r' (''a'', (''A'', None, None)) = Some sub)"
proof -
  have parse: "parse_shared_subscription ''a'' = (''a'', None)"
    by (simp add: parse_shared_subscription_def strip_prefix_def starts_with_def)
  have valid: "is_ok (validate_topic_filter ''a'')"
    using ex_malformed parse by (simp add: malformed_filter_def)
  show ?thesis
    by (simp add: handle_subscribe_def ex_subscribe_def ex_handler_def ex_start_def ex_sessions_def TopicFilter_new_def
        SubscriptionOptions_new_def SubscriptionOptions_default_def validate_subscribe_filter_def parse valid starts_with_def check_subscription_quota_def
        stored_for_def stored_subscription_request_def subscribe_as_def generation_is_current_def put_subscription_def
        position_def or_default_def table_of_def with_table_def has_wildcards_def str_contains_def Let_def
        persist_or_restore_routes_def update_stored_session_def memory_backend_def memory_update_session_def
        send_packet_def write_to_client_def ClientHandler.truncate_def deliver_retained_for_filter_def get_retained_messages_def
        held_def lookup_def Subscription_identity_def)
qed

text \<open>Witness: after the subscription its route is the one of the stored session.\<close>

theorem subscriptions_in_step_witness:
  "case handle_subscribe ref_ops (\<lambda>_. Inr ()) (memory_backend 0) (\<lambda>_ _ _. True) 0 ex_subscribe ex_handler ex_start (Some ex_sessions) of
     (h', r', storage', _) \<Rightarrow> \<exists>ss' s. storage' = Some ss' \<and> ss' ''A'' = Some s \<and> in_step ''A'' r' s"
proof -
  obtain h' r' storage' offered written res where step: "handle_subscribe ref_ops (\<lambda>_. Inr ()) (memory_backend 0) (\<lambda>_ _ _. True) 0
      ex_subscribe ex_handler ex_start (Some ex_sessions) = (h', r', storage', offered, written, res)"
    by (metis prod_cases6)
  have "\<forall>ss. \<exists>v. sb_get_session (memory_backend 0) (ch_client_id ex_handler) ss = Inr v"
    by (simp add: memory_backend_def memory_get_session_def)
  moreover have "sh_pending_external_flow_id ex_handler = None" "ch_client_id ex_handler = ''A''"
    by (simp_all add: ex_handler_def)
  ultimately show ?thesis
    using subscriptions_in_step [OF mem.session_store_axioms _ ex_agrees _ handled.subscribed [OF handled.start step]]
    by (simp add: step)
qed

text \<open>Witness: the one new route is that of the authorised filter.\<close>

theorem subscribe_authorised_witness:
  "case handle_subscribe ref_ops (\<lambda>_. Inr ()) (memory_backend 0) (\<lambda>_ _ _. True) 0 ex_subscribe ex_handler ex_start (Some ex_sessions) of
     (h', r', storage', _) \<Rightarrow> \<exists>sub. held r' (''a'', (''A'', None, None)) = Some sub \<and> QoS_to_u8 (rs_qos sub) \<le> 1"
proof -
  obtain h' r' storage' p sub where step: "handle_subscribe ref_ops (\<lambda>_. Inr ()) (memory_backend 0) (\<lambda>_ _ _. True) 0
      ex_subscribe ex_handler ex_start (Some ex_sessions) = (h', r', storage', [], [Packet.SubAck p], Inr ())"
      "held r' (''a'', (''A'', None, None)) = Some sub"
    using ex_handled by blast
  have "sh_pending_external_flow_id ex_handler = None" "ch_maximum_qos ex_handler = 1" "held ex_start k = None" for k
    by (simp_all add: ex_handler_def ex_start_def held_def table_of_def lookup_def)
  then show ?thesis
    using subscribe_authorised [OF mem.session_store_axioms ex_agrees _ step] step by auto
qed


end
