(* ===== verification/Spec2Isabelle.thy ===== *)
theory Spec2Isabelle
  imports Packet_Io Topic_Matching Session_Queue Topic_Alias Packet_Id Qos2_Delivery Router_Delivery
    Acl_Decisions Acl_File Subscribe_Routes
begin

text \<open>
  A verification of \<open>mqtt-lib\<close>, an MQTT client and broker in Rust for versions 5 and 3.1.1 of the protocol.

  \<^bold>\<open>The program.\<close> The crate \<open>mqtt5-protocol\<close> holds what both sides share: the data types and wire format
  of packets, topic names and filters, and session data structures. The crate \<open>mqtt5\<close> holds the client
  and the broker. The client turns calls of the application into packets, keeps what is not yet
  acknowledged in a session, and replays it after a reconnection. The broker reads packets from each
  connection in a handler of its own; the handlers share a router, which holds the subscriptions of
  all clients and plans the deliveries of a message, and a storage backend. The crate \<open>mqttv5-cli\<close> has
  the command that edits the broker's access control file. Paths below are relative to the \<open>src\<close>
  directory of the crate.

  \<^bold>\<open>Conventions.\<close> \<open>Mqtt_Prelude\<close> fixes the vocabulary: words of the source's width, \<open>usize\<close> as a natural
  number, strings as lists of UTF-8 octets, \<open>Result\<close> as a sum with \<open>res_bind\<close> for the question mark
  operator. A struct is a record with a short prefix for its fields, an enum a datatype with the
  constructors of the source, a method \<open>T::f\<close> a function \<open>T_f\<close> or \<open>f\<close> from the old state to the new one. A
  handler returns its state, its effects and its result, so that an error after a partial effect keeps
  that effect. Hash maps that the source enumerates are association lists with distinct keys (\<open>Assoc_Lists\<close>),
  hash sets are lists; no theorem depends on their order. The clock, the transport, authorisation and
  the application's callbacks are arguments.

  \<^bold>\<open>Code outside the repository.\<close> The accessors of the \<open>bytes\<close> crate, the code derived by \<open>bebytes\<close> and the
  iteration order of a hash map are the record \<open>wire_ops\<close>; the locale \<open>wire_lib\<close> (\<open>Wire_Lib\<close>) states what
  their documentation promises and is interpreted on the implementation \<open>ref_ops\<close>. The hash of a
  payload is an argument of the router. \<open>Text_Lines\<close> models the string functions of the Rust standard
  library that the access control file needs.

  \<^bold>\<open>Packets\<close> (crate \<open>mqtt5-protocol\<close>).
  \<^item> \<open>Mqtt_Types\<close>, \<open>Wire_Encoding\<close>, \<open>Mqtt_Properties\<close>, \<open>Fixed_Header\<close>: enumerations, variable byte integers,
    strings, the property section and the fixed header (\<open>encoding/\<close>, \<open>protocol/v5/\<close>, \<open>packet.rs\<close>). Properties
    are read back as written for every iteration order, by both encoders; decoded properties are well
    formed; a sender identity injected by the broker cannot be forged.
  \<^item> \<open>Packet_Ack\<close>, \<open>Packet_Publish\<close>, \<open>Packet_Connect\<close>, \<open>Packet_Connack\<close>, \<open>Packet_Subscribe\<close>, \<open>Packet_Suback\<close>,
    \<open>Packet_Control\<close>, \<open>Packet_All\<close>: one codec per file of \<open>packet/\<close>. Each is an instance of the locale
    \<open>packet_codec\<close>, whose law is that decoding inverts encoding; \<open>Packet_All\<close> dispatches over all of them.
  \<^item> \<open>Packet_Io\<close> (\<open>transport/packet_io.rs\<close> of \<open>mqtt5\<close>): packets are reassembled in order from every cut of
    the byte stream, and the read buffer is bounded.

  \<^bold>\<open>Session data\<close> (crate \<open>mqtt5-protocol\<close>).
  \<^item> \<open>Topic_Matching\<close> (\<open>topic_matching.rs\<close>, \<open>validation/\<close>): both matchers decide the rules of the protocol;
    the namespace validator separates devices.
  \<^item> \<open>Fifo_Interface\<close>, \<open>Session_Queue\<close> (\<open>session/limits.rs\<close>, \<open>session/queue.rs\<close>): the bounded queue keeps its
    accounts and is an instance of the interface \<open>fifo_queue\<close>.
  \<^item> \<open>Cyclic_Ids\<close>, \<open>Packet_Id\<close>, \<open>Topic_Alias\<close> (\<open>packet_id.rs\<close>, \<open>session/topic_alias.rs\<close>): identifiers and aliases
    are found whenever one is free, and the two ends of a connection agree on aliases.
  \<^item> \<open>Connection_State\<close> (\<open>connection.rs\<close>, \<open>keepalive.rs\<close>): bounded reconnection delays, and the keep-alive
    task of the client, which ends a silent connection and no other.

  \<^bold>\<open>Client\<close> (crate \<open>mqtt5\<close>).
  \<^item> \<open>Session_State\<close> (\<open>session/state.rs\<close>): what is unacknowledged, in sending order.
  \<^item> \<open>Publish_Tracking\<close> (\<open>client/direct/tracking.rs\<close>): the bit set of identifiers implements sets (interface
    \<open>id_set\<close>), and every publish is settled at most once.
  \<^item> \<open>Client_Exchange\<close> (\<open>client/direct/\<close>): receiving, sending and replaying packets.

  \<^bold>\<open>Broker\<close> (crate \<open>mqtt5\<close>, directory \<open>broker/\<close>).
  \<^item> \<open>Broker_Publish\<close> (\<open>client_handler/publish.rs\<close>): the path of a received PUBLISH and its PUBREL.
  \<^item> \<open>Qos2_System\<close>, \<open>Qos2_Run\<close>, \<open>Qos2_Delivery\<close> put client and broker together: over every run with lost
    connections, failed writes, refusals and replays a QoS 2 message is routed at most once, and what
    the client reports as delivered was routed. \<open>Qos2_Run\<close> computes one complete exchange.
  \<^item> \<open>Broker_Router\<close>, \<open>Router_Delivery\<close> (\<open>router.rs\<close>): the tables refine the map the calls amount to, and the
    delivery plans of a message serve its subscribers, each once, and one member per share group.
  \<^item> \<open>Broker_Acl\<close>, \<open>Acl_Decisions\<close>, \<open>Acl_File\<close> (\<open>acl/\<close>, and \<open>commands/acl_cmd.rs\<close> of \<open>mqttv5-cli\<close>): the decision
    procedure against its declarative order of evaluation, the separation of users, three gaps in what
    rules govern, and the file between the command and the broker.
  \<^item> \<open>Broker_Subscribe\<close>, \<open>Subscribe_Routes\<close> (\<open>client_handler/subscribe.rs\<close>): a SUBSCRIBE adds authorised routes
    only, its SUBACK tells the truth, and routes and stored session stay in step although storing may
    fail. The store is the interface \<open>session_store\<close>, interpreted on the memory backend; the theorem
    on stored sessions assumes that reading the store succeeds.

  \<^bold>\<open>Loops and bounds.\<close> Every loop is a terminating function. Where the source bounds a loop (the \<open>MAX_RETRIES\<close>
  attempts of the identifier generator, the search over the 65535 identifiers, the four bytes of a variable
  byte integer) the bound of the model is that of the source. The search for a topic
  alias need not end on every state and is a \<open>partial_function\<close>; it is proved to return on every
  consistent table. Reading from a transport ends because the transport is a finite sequence of reads.
  There is no other fuel.

  \<^bold>\<open>Findings.\<close> Some theorems show what the code does where it departs from the protocol or its own
  documentation: the identifier 0 under contention, setters whose second call yields an undecodable
  packet, a password without a user name, an invalid quality of service in version 3.1.1, reserved
  prefixes that a device identifier disables, and the gaps of the access control named above.

  \<^bold>\<open>Not modelled.\<close>
  \<^item> Sockets, TLS, WebSocket, QUIC, timers and tasks: third-party or operating system code, whose part in
    the modelled code is an argument. QUIC flows appear as identifiers of subscriptions only.
  \<^item> Authentication mechanisms, payload compression, telemetry and digests: third-party code.
  \<^item> File storage, queues of offline clients, bridges, session takeover and will messages: not modelled
    yet; the theorems take the generation a connection is registered under as given.
  \<^item> The order of effects inside one handler is kept; handlers of different connections interleave only
    as whole operations, which the locks of the source make atomic where they hold them throughout.
  \<^item> The browser build, the other commands, the conformance suite and test support.
  \<^item> Diagnostic texts of errors, logging, statistics and event handlers.
\<close>

end
